(* ===== verification/Pgcat_Prelude.thy ===== *)
theory Pgcat_Prelude
  imports Main "HOL-Library.Word"
begin

text \<open>
  The vocabulary the components share.

  \<^item> Fallible Rust code is a value of \<open>('e, 'a) outcome\<close>: \<open>Ok\<close> and \<open>Err\<close> are Rust's
    \<open>Result\<close>, \<open>Panic\<close> is a panic (an \<open>unwrap\<close> on the wrong variant, a read past the end
    of a buffer, a failed \<open>assert!\<close>, an index out of bounds).  \<open>rbind\<close> is the \<open>?\<close> operator
    and sequencing.
  \<^item> A byte is a \<open>char\<close> (Isabelle's characters are exactly the 256 bytes), so a
    \<open>BytesMut\<close>, a \<open>Vec<u8>\<close> and a Rust \<open>String\<close> (its UTF-8 bytes) are all byte lists and
    \<open>as_bytes\<close> is the identity.
  \<^item> The fixed width integers of the source are words.  Arithmetic that the source does
    not check wraps, as in the release profile the Dockerfile builds.
  \<^item> The functions of Rust's standard library on strings that the source calls are here:
    \<open>String::from_utf8_lossy\<close>, \<open>str::split\<close>, \<open>to_ascii_lowercase\<close>, \<open>parse\<close> and
    \<open>to_string\<close> on integers.
\<close>

section \<open>Outcomes\<close>

datatype ('e, 'a) outcome = Ok 'a | Err 'e | Panic

fun rbind :: "('e, 'a) outcome \<Rightarrow> ('a \<Rightarrow> ('e, 'b) outcome) \<Rightarrow> ('e, 'b) outcome" where
  "rbind (Ok x) f = f x"
| "rbind (Err e) f = Err e"
| "rbind Panic f = Panic"

text \<open>\<open>Option::unwrap\<close> and \<open>Result::unwrap\<close>.\<close>

fun unwrap :: "'a option \<Rightarrow> ('e, 'a) outcome" where
  "unwrap (Some x) = Ok x"
| "unwrap None = Panic"

fun unwrap_res :: "('e, 'a) outcome \<Rightarrow> ('e, 'a) outcome" where
  "unwrap_res (Ok x) = Ok x"
| "unwrap_res (Err e) = Panic"
| "unwrap_res Panic = Panic"

lemma rbind_Ok_iff [simp]: "rbind m f = Ok y \<longleftrightarrow> (\<exists>x. m = Ok x \<and> f x = Ok y)"
  by (cases m) auto

lemma rbind_Err_iff: "rbind m f = Err e \<longleftrightarrow> m = Err e \<or> (\<exists>x. m = Ok x \<and> f x = Err e)"
  by (cases m) auto

lemma rbind_Panic_iff: "rbind m f = Panic \<longleftrightarrow> m = Panic \<or> (\<exists>x. m = Ok x \<and> f x = Panic)"
  by (cases m) auto

lemma rbind_assoc: "rbind (rbind m f) g = rbind m (\<lambda>x. rbind (f x) g)"
  by (cases m) auto

lemma rbind_cong [fundef_cong]:
  "m = m' \<Longrightarrow> (\<And>x. m' = Ok x \<Longrightarrow> f x = f' x) \<Longrightarrow> rbind m f = rbind m' f'"
  by (cases m') auto

lemma unwrap_Ok_iff [simp]: "unwrap v = Ok x \<longleftrightarrow> v = Some x"
  by (cases v) auto

lemma unwrap_not_Err [simp]: "unwrap v \<noteq> Err e"
  by (cases v) auto

lemma unwrap_res_Ok_iff [simp]: "unwrap_res m = Ok x \<longleftrightarrow> m = Ok x"
  by (cases m) auto

lemma unwrap_res_not_Err [simp]: "unwrap_res m \<noteq> Err e"
  by (cases m) auto

section \<open>Integers and bytes\<close>

type_synonym byte = char
type_synonym bytes = "char list"
type_synonym u8 = "8 word"
type_synonym i16 = "16 word"
type_synonym u16 = "16 word"
type_synonym i32 = "32 word"
type_synonym u32 = "32 word"
type_synonym i64 = "64 word"
type_synonym u64 = "64 word"
type_synonym usize = "64 word"

text \<open>The lemmas that evaluate the byte-level definitions on literals.\<close>

named_theorems wire_eval

text \<open>The round-trip and length laws of the byte-level encoders and decoders.\<close>

named_theorems wire_simps

text \<open>Rules for computations that keep a predicate of the state.\<close>

named_theorems keeps_intro

lemma char_of_eval [wire_eval]:
  "char_of (n::nat) = Char (odd n) (odd (n div 2)) (odd (n div 4)) (odd (n div 8))
     (odd (n div 16)) (odd (n div 32)) (odd (n div 64)) (odd (n div 128))"
  by (simp add: char_of_def bit_iff_odd)

lemma unat_minus_one [wire_eval]: "unat (- 1 :: 'a::len word) = 2 ^ LENGTH('a) - 1"
proof -
  have "int (unat (- 1 :: 'a word)) = uint (- 1 :: 'a word)" by simp
  also have "\<dots> = 2 ^ LENGTH('a) - 1" by (simp add: unsigned_minus_1_eq_mask mask_eq_exp_minus_1)
  also have "\<dots> = int (2 ^ LENGTH('a) - 1)" by (simp add: of_nat_diff)
  finally show ?thesis by linarith
qed

lemma unat_less_pow: "unat (w :: 'a::len word) < 2 ^ LENGTH('a)"
  by (rule unsigned_less)

text \<open>Big-endian integers of \<open>n\<close> bytes.\<close>

fun put_be :: "nat \<Rightarrow> nat \<Rightarrow> bytes" where
  "put_be 0 x = []"
| "put_be (Suc n) x = put_be n (x div 256) @ [char_of x]"

definition get_be :: "bytes \<Rightarrow> nat" where
  "get_be bs = foldl (\<lambda>a b. a * 256 + of_char b) 0 bs"

lemma length_put_be [simp]: "length (put_be n x) = n"
  by (induction n arbitrary: x) auto

lemma get_be_Nil [simp]: "get_be [] = 0"
  by (simp add: get_be_def)

lemma get_be_snoc [simp]: "get_be (bs @ [b]) = get_be bs * 256 + of_char b"
  by (simp add: get_be_def)

lemma get_put_be [simp]: "get_be (put_be n x) = x mod 256 ^ n"
  by (induction n arbitrary: x) (simp_all add: mod_mult2_eq)

lemma get_be_less: "get_be bs < 256 ^ length bs"
proof (induction bs rule: rev_induct)
  case (snoc b bs)
  have "of_char b < (256::nat)" by (rule nat_of_char_less_256)
  moreover have "g * 256 + x < 256 * m" if "g < m" "x < 256" for g x m :: nat
    using that by arith
  ultimately have "get_be bs * 256 + of_char b < 256 * 256 ^ length bs"
    using snoc by blast
  then show ?case by simp
qed simp

lemma char_of_of_char_add: "char_of (m * 256 + of_char b :: nat) = b"
proof -
  have "char_of (m * 256 + of_char b :: nat) = char_of ((m * 256 + of_char b) mod 256 :: nat)"
    by (rule char_of_mod_256 [symmetric])
  also have "\<dots> = char_of (of_char b :: nat)" by simp
  finally show ?thesis by simp
qed

lemma put_get_be: "length bs = n \<Longrightarrow> put_be n (get_be bs) = bs"
proof (induction bs arbitrary: n rule: rev_induct)
  case (snoc b bs)
  have "of_char b < (256::nat)" by (rule nat_of_char_less_256)
  then have "(get_be bs * 256 + of_char b) div 256 = get_be bs" by simp
  with snoc show ?case by (auto simp: char_of_of_char_add)
qed simp

lemma put_be_2 [wire_eval]: "put_be 2 x = [char_of (x div 256), char_of x]"
  unfolding numeral_2_eq_2 by simp

lemma put_be_4 [wire_eval]:
  "put_be 4 x = [char_of (x div 16777216), char_of (x div 65536), char_of (x div 256), char_of x]"
proof -
  have four: "(4::nat) = Suc (Suc (Suc (Suc 0)))" by simp
  show ?thesis unfolding four by (simp add: div_mult2_eq [symmetric])
qed

section \<open>UTF-8\<close>

text \<open>
  \<open>utf8_step b bs\<close> looks at the lead byte \<open>b\<close> and the bytes after it: how many of them belong to
  the sequence, and whether the sequence is well formed.  An ill-formed sequence is the maximal
  valid prefix, which \<open>from_utf8_lossy\<close> replaces by one U+FFFD.
\<close>

definition utf8_cont :: "byte \<Rightarrow> bool" where
  "utf8_cont c \<longleftrightarrow> 128 \<le> (of_char c :: nat) \<and> (of_char c :: nat) < 192"

definition utf8_second :: "byte \<Rightarrow> byte \<Rightarrow> bool" where
  "utf8_second b c =
     (let n = of_char b :: nat; m = of_char c :: nat in
      if n = 224 then 160 \<le> m \<and> m < 192
      else if n = 237 then 128 \<le> m \<and> m < 160
      else if n = 240 then 144 \<le> m \<and> m < 192
      else if n = 244 then 128 \<le> m \<and> m < 144
      else 128 \<le> m \<and> m < 192)"

definition utf8_step :: "byte \<Rightarrow> bytes \<Rightarrow> nat \<times> bool" where
  "utf8_step b bs =
     (let n = of_char b :: nat in
      if n < 128 then (0, True)
      else if n < 194 then (0, False)
      else if n < 224 then
        (case bs of c # _ \<Rightarrow> if utf8_cont c then (1, True) else (0, False) | [] \<Rightarrow> (0, False))
      else if n < 240 then
        (case bs of
           c # d # _ \<Rightarrow> if \<not> utf8_second b c then (0, False)
                        else if utf8_cont d then (2, True) else (1, False)
         | [c] \<Rightarrow> (if utf8_second b c then 1 else 0, False)
         | [] \<Rightarrow> (0, False))
      else if n < 245 then
        (case bs of
           c # d # e # _ \<Rightarrow> if \<not> utf8_second b c then (0, False)
                            else if \<not> utf8_cont d then (1, False)
                            else if utf8_cont e then (3, True) else (2, False)
         | [c, d] \<Rightarrow> (if \<not> utf8_second b c then 0 else if utf8_cont d then 2 else 1, False)
         | [c] \<Rightarrow> (if utf8_second b c then 1 else 0, False)
         | [] \<Rightarrow> (0, False))
      else (0, False))"

definition utf8_replacement :: bytes where
  "utf8_replacement = [CHR 0xEF, CHR 0xBF, CHR 0xBD]"

function from_utf8_lossy :: "bytes \<Rightarrow> bytes" where
  "from_utf8_lossy [] = []"
| "from_utf8_lossy (b # bs) =
     (if snd (utf8_step b bs) then b # take (fst (utf8_step b bs)) bs else utf8_replacement)
     @ from_utf8_lossy (drop (fst (utf8_step b bs)) bs)"
  by pat_completeness auto
termination
  by (relation "measure length") auto

text \<open>A Rust \<open>String\<close> holds valid UTF-8: the byte lists that the lossy conversion keeps.\<close>

definition utf8 :: "bytes \<Rightarrow> bool" where
  "utf8 s \<longleftrightarrow> from_utf8_lossy s = s"

definition ascii :: "bytes \<Rightarrow> bool" where
  "ascii s \<longleftrightarrow> (\<forall>c \<in> set s. (of_char c :: nat) < 128)"

lemma ascii_simps [simp]:
  "ascii []" "ascii (c # s) \<longleftrightarrow> (of_char c :: nat) < 128 \<and> ascii s"
  "ascii (s @ t) \<longleftrightarrow> ascii s \<and> ascii t"
  by (auto simp: ascii_def)

lemma from_utf8_lossy_ascii: "ascii s \<Longrightarrow> from_utf8_lossy s = s"
  by (induction s) (auto simp: utf8_step_def)

lemma utf8_ascii: "ascii s \<Longrightarrow> utf8 s"
  by (simp add: utf8_def from_utf8_lossy_ascii)

lemma utf8_Nil [simp]: "utf8 []"
  by (simp add: utf8_def)

text \<open>The conversion always gives valid UTF-8, so it is idempotent.\<close>

lemma utf8_step_local:
  "utf8_step b bs = (n, True) \<Longrightarrow> utf8_step b (take n bs @ cs) = (n, True) \<and> n \<le> length bs"
proof (cases bs)
  case (Cons c r)
  then show "utf8_step b bs = (n, True) \<Longrightarrow> ?thesis"
    by (cases r; cases "tl r") (auto simp: utf8_step_def Let_def split: if_splits)
qed (auto simp: utf8_step_def Let_def split: if_splits)

lemma from_utf8_lossy_replacement: "from_utf8_lossy (utf8_replacement @ s) = utf8_replacement @ from_utf8_lossy s"
  by (simp add: utf8_replacement_def utf8_step_def utf8_second_def utf8_cont_def)

lemma from_utf8_lossy_idem: "from_utf8_lossy (from_utf8_lossy s) = from_utf8_lossy s"
proof (induction s rule: from_utf8_lossy.induct)
  case (2 b bs)
  obtain n ok where st: "utf8_step b bs = (n, ok)" by fastforce
  show ?case
  proof (cases ok)
    case True
    with st have loc: "utf8_step b (take n bs @ cs) = (n, True) \<and> n \<le> length bs" for cs
      using utf8_step_local by simp
    then have "min (length bs) n = n" by (simp add: min_absorb2)
    with loc st True 2 show ?thesis by simp
  next
    case False
    with st 2 show ?thesis by (simp add: from_utf8_lossy_replacement)
  qed
qed simp

lemma utf8_from_utf8_lossy [simp]: "utf8 (from_utf8_lossy s)"
  by (simp add: utf8_def from_utf8_lossy_idem)

declare from_utf8_lossy.simps(2) [simp del]

text \<open>\<open>String::push(c as char)\<close> for a byte \<open>c\<close>: the UTF-8 encoding of the code point U+00cc.\<close>

definition push_latin1 :: "byte \<Rightarrow> bytes" where
  "push_latin1 c =
     (let n = of_char c :: nat in
      if n < 128 then [c] else [char_of (192 + n div 64), char_of (128 + n mod 64)])"

lemma push_latin1_ascii [simp]: "(of_char c :: nat) < 128 \<Longrightarrow> push_latin1 c = [c]"
  by (simp add: push_latin1_def)

section \<open>Strings\<close>

definition is_digit :: "char \<Rightarrow> bool" where
  "is_digit c \<longleftrightarrow> 48 \<le> (of_char c :: nat) \<and> (of_char c :: nat) < 58"

definition digit_val :: "char \<Rightarrow> nat" where
  "digit_val c = of_char c - 48"

definition digit_char :: "nat \<Rightarrow> char" where
  "digit_char d = char_of (48 + d)"

text \<open>\<open>to_string\<close> on unsigned and signed integers.\<close>

function show_nat :: "nat \<Rightarrow> string" where
  "show_nat n = (if n < 10 then [digit_char n] else show_nat (n div 10) @ [digit_char (n mod 10)])"
  by pat_completeness auto
termination
  by (relation "measure id") auto

declare show_nat.simps [simp del]

definition show_int :: "int \<Rightarrow> string" where
  "show_int i = (if i < 0 then CHR ''-'' # show_nat (nat (- i)) else show_nat (nat i))"

text \<open>The digits of \<open>str::parse\<close>: at least one, nothing else.\<close>

definition digits_val :: "string \<Rightarrow> nat" where
  "digits_val s = foldl (\<lambda>a c. a * 10 + digit_val c) 0 s"

definition parse_digits :: "string \<Rightarrow> nat option" where
  "parse_digits s = (if s \<noteq> [] \<and> list_all is_digit s then Some (digits_val s) else None)"

text \<open>
  \<open>s.parse::<uN>()\<close> and \<open>s.parse::<iN>()\<close>: an optional sign (only \<open>+\<close> for an unsigned type), then
  digits, and an error on overflow of the type's range.
\<close>

definition parse_unsigned :: "nat \<Rightarrow> string \<Rightarrow> nat option" where
  "parse_unsigned mx s =
     (case parse_digits (case s of c # r \<Rightarrow> if c = CHR ''+'' then r else s | [] \<Rightarrow> s) of
        None \<Rightarrow> None
      | Some n \<Rightarrow> if n \<le> mx then Some n else None)"

definition parse_signed :: "nat \<Rightarrow> string \<Rightarrow> int option" where
  "parse_signed mx s =
     (case s of
        [] \<Rightarrow> None
      | c # r \<Rightarrow>
          if c = CHR ''-'' then
            (case parse_digits r of None \<Rightarrow> None | Some n \<Rightarrow> if n \<le> Suc mx then Some (- int n) else None)
          else
            (case parse_digits (if c = CHR ''+'' then r else s) of
               None \<Rightarrow> None | Some n \<Rightarrow> if n \<le> mx then Some (int n) else None))"

definition parse_usize :: "string \<Rightarrow> usize option" where
  "parse_usize s = map_option of_nat (parse_unsigned 18446744073709551615 s)"

definition parse_u32 :: "string \<Rightarrow> u32 option" where
  "parse_u32 s = map_option of_nat (parse_unsigned 4294967295 s)"

definition parse_i64 :: "string \<Rightarrow> i64 option" where
  "parse_i64 s = map_option of_int (parse_signed 9223372036854775807 s)"

definition parse_i16 :: "string \<Rightarrow> i16 option" where
  "parse_i16 s = map_option of_int (parse_signed 32767 s)"

lemma digit_char_props [simp]:
  assumes "d < 10"
  shows "is_digit (digit_char d)" "digit_val (digit_char d) = d" "(of_char (digit_char d) :: nat) = 48 + d"
  using assms by (auto simp: is_digit_def digit_char_def digit_val_def)

lemma digits_val_simps [simp]:
  "digits_val [] = 0" "digits_val (s @ [c]) = digits_val s * 10 + digit_val c"
  by (simp_all add: digits_val_def)

lemma show_nat_props: "show_nat n \<noteq> [] \<and> list_all is_digit (show_nat n) \<and> digits_val (show_nat n) = n"
proof (induction n rule: show_nat.induct)
  case (1 n)
  show ?case
  proof (cases "n < 10")
    case True
    have "digits_val [digit_char n] = digits_val ([] @ [digit_char n])" by simp
    with True show ?thesis
      by (subst (1 2 3) show_nat.simps) (simp del: append_Nil)
  next
    case False
    with 1 show ?thesis by (subst (1 2 3) show_nat.simps) (simp add: list_all_iff)
  qed
qed

lemma parse_digits_show_nat [simp]: "parse_digits (show_nat n) = Some n"
  using show_nat_props [of n] by (simp add: parse_digits_def)

lemma show_nat_inj: "show_nat m = show_nat n \<Longrightarrow> m = n"
  using show_nat_props by metis

lemma is_digit_ascii: "is_digit c \<Longrightarrow> (of_char c :: nat) < 128"
  by (simp add: is_digit_def)

lemma ascii_show_nat [simp]: "ascii (show_nat n)"
  using show_nat_props [of n] is_digit_ascii by (auto simp: ascii_def list_all_iff)

lemma show_nat_no_zero: "CHR 0x00 \<notin> set (show_nat n)"
  using show_nat_props [of n] by (auto simp: list_all_iff is_digit_def)

lemma show_nat_first: "show_nat n = c # r \<Longrightarrow> c \<noteq> CHR ''+'' \<and> c \<noteq> CHR ''-''"
  using show_nat_props [of n] by (auto simp: is_digit_def)

lemma parse_unsigned_show_nat: "parse_unsigned mx (show_nat n) = (if n \<le> mx then Some n else None)"
proof (cases "show_nat n")
  case Nil
  with show_nat_props [of n] show ?thesis by simp
next
  case (Cons c r)
  with show_nat_first [OF Cons] parse_digits_show_nat [of n] show ?thesis
    by (simp add: parse_unsigned_def)
qed

lemma parse_usize_show: "parse_usize (show_nat (unat n)) = Some n"
proof -
  have "unat n \<le> 18446744073709551615" using unat_less_pow [of n] by simp
  then show ?thesis by (simp add: parse_usize_def parse_unsigned_show_nat)
qed

text \<open>\<open>str::split(c)\<close> and \<open>[T]::split\<close>: the pieces between the separators, never the empty list.\<close>

fun split_on :: "'a \<Rightarrow> 'a list \<Rightarrow> 'a list list" where
  "split_on c [] = [[]]"
| "split_on c (x # xs) =
     (if x = c then [] # split_on c xs
      else (case split_on c xs of [] \<Rightarrow> [[x]] | p # ps \<Rightarrow> (x # p) # ps))"

lemma split_on_not_Nil [simp]: "split_on c xs \<noteq> []"
  by (induction xs) (auto split: list.splits)

lemma split_on_append_sep: "c \<notin> set xs \<Longrightarrow> split_on c (xs @ c # ys) = xs # split_on c ys"
  by (induction xs) auto

lemma split_on_none: "c \<notin> set xs \<Longrightarrow> split_on c xs = [xs]"
  by (induction xs) auto

lemma split_on_pieces: "p \<in> set (split_on c xs) \<Longrightarrow> c \<notin> set p"
  by (induction xs arbitrary: p) (auto split: if_splits list.splits)

text \<open>A list without duplicates as a set of one element.\<close>

lemma distinct_singleton_iff: "distinct xs \<Longrightarrow> set xs = {x} \<longleftrightarrow> xs = [x]"
  by (cases xs; cases "tl xs") auto

text \<open>\<open>[&str]::join(sep)\<close>.\<close>

fun join :: "'a list \<Rightarrow> 'a list list \<Rightarrow> 'a list" where
  "join sep [] = []"
| "join sep [p] = p"
| "join sep (p # q # ps) = p @ sep @ join sep (q # ps)"

lemma join_split_on: "join [c] (split_on c xs) = xs"
proof (induction xs)
  case (Cons x xs)
  then show ?case
    by (cases "split_on c xs"; cases "tl (split_on c xs)") auto
qed simp

text \<open>\<open>to_ascii_lowercase\<close> and \<open>to_ascii_uppercase\<close>.\<close>

definition ascii_lower :: "string \<Rightarrow> string" where
  "ascii_lower s =
     map (\<lambda>c. if 65 \<le> (of_char c :: nat) \<and> (of_char c :: nat) \<le> 90 then char_of (of_char c + 32 :: nat) else c) s"

definition ascii_upper :: "string \<Rightarrow> string" where
  "ascii_upper s =
     map (\<lambda>c. if 97 \<le> (of_char c :: nat) \<and> (of_char c :: nat) \<le> 122 then char_of (of_char c - 32 :: nat) else c) s"

text \<open>\<open>position(|b| b == c)\<close> with the bytes before it and after it.\<close>

fun split_at_first :: "'a \<Rightarrow> 'a list \<Rightarrow> ('a list \<times> 'a list) option" where
  "split_at_first c [] = None"
| "split_at_first c (x # xs) =
     (if x = c then Some ([], xs)
      else map_option (\<lambda>(p, r). (x # p, r)) (split_at_first c xs))"

lemma split_at_first_append: "c \<notin> set xs \<Longrightarrow> split_at_first c (xs @ c # ys) = Some (xs, ys)"
  by (induction xs) auto

lemma split_at_first_Some: "split_at_first c xs = Some (p, r) \<longleftrightarrow> xs = p @ c # r \<and> c \<notin> set p"
  by (induction xs arbitrary: p r) (auto simp: Cons_eq_append_conv)

lemma split_at_first_None: "split_at_first c xs = None \<longleftrightarrow> c \<notin> set xs"
  by (induction xs) auto

text \<open>\<open>format!("{:x}", digest)\<close> on a digest: two lower case hexadecimal digits per byte.\<close>

definition hex_digit :: "nat \<Rightarrow> char" where
  "hex_digit d = (if d < 10 then char_of (48 + d) else char_of (87 + d))"

definition lower_hex :: "bytes \<Rightarrow> string" where
  "lower_hex bs = concat (map (\<lambda>b. [hex_digit (of_char b div 16), hex_digit (of_char b mod 16)]) bs)"

text \<open>\<open>str::strip_prefix\<close>, and \<open>str::replace\<close> with a pattern that is not empty.\<close>

fun strip_prefix :: "'a list \<Rightarrow> 'a list \<Rightarrow> 'a list option" where
  "strip_prefix [] s = Some s"
| "strip_prefix (p # ps) [] = None"
| "strip_prefix (p # ps) (x # xs) = (if p = x then strip_prefix ps xs else None)"

lemma strip_prefix_Some: "strip_prefix p s = Some r \<longleftrightarrow> s = p @ r"
  by (induction p s rule: strip_prefix.induct) auto

lemma strip_prefix_append [simp]: "strip_prefix p (p @ r) = Some r"
  by (simp add: strip_prefix_Some)

lemma strip_prefix_length: "strip_prefix p s = Some r \<Longrightarrow> p \<noteq> [] \<Longrightarrow> length r < length s"
  by (auto simp: strip_prefix_Some)

function replace_all :: "'a list \<Rightarrow> 'a list \<Rightarrow> 'a list \<Rightarrow> 'a list" where
  "replace_all pat rep [] = []"
| "replace_all pat rep (x # xs) =
     (case strip_prefix pat (x # xs) of
        Some r \<Rightarrow> if pat = [] then x # replace_all pat rep xs else rep @ replace_all pat rep r
      | None \<Rightarrow> x # replace_all pat rep xs)"
  by pat_completeness auto
termination
  by (relation "measure (\<lambda>(pat, rep, s). length s)") (auto dest: strip_prefix_length)

end
