(* ===== verification/Errors.thy ===== *)
theory Errors
  imports Pgcat_Prelude
begin

text \<open>
  \<open>src/src/errors.rs\<close>: the error type of the pooler, the identifiers some of its variants
  carry, and their \<open>Display\<close> renderings.  The variants without a rendering of their own fall back
  on the derived \<open>Debug\<close> text, which is the argument \<open>debug\<close>.
\<close>

record client_identifier =
  ci_application_name :: string
  ci_username :: string
  ci_pool_name :: string

record server_identifier =
  si_username :: string
  si_database :: string

datatype error =
    SocketError string
  | ClientSocketError string client_identifier
  | ClientGeneralError string client_identifier
  | ClientAuthImpossible string
  | ClientAuthPassthroughError string client_identifier
  | ClientBadStartup
  | ProtocolSyncError string
  | BadQuery string
  | ServerError
  | ServerMessageParserError string
  | ServerStartupError string server_identifier
  | ServerAuthError string server_identifier
  | BadConfig
  | AllServersDown
  | ClientError string
  | TlsError
  | StatementTimeout
  | DNSCachedError string
  | ShuttingDown
  | ParseBytesError string
  | AuthError string
  | AuthPassthroughError string
  | UnsupportedStatement
  | QueryRouterParserError string
  | QueryRouterError string
  | InvalidShardId usize
  | PreparedStatementError

type_synonym 'a result = "(error, 'a) outcome"

definition client_identifier_new :: "string \<Rightarrow> string \<Rightarrow> string \<Rightarrow> client_identifier" where
  "client_identifier_new application_name username pool_name =
     \<lparr> ci_application_name = application_name, ci_username = username, ci_pool_name = pool_name \<rparr>"

definition client_identifier_display :: "client_identifier \<Rightarrow> string" where
  "client_identifier_display i =
     ''{ application_name: '' @ ci_application_name i @ '', username: '' @ ci_username i @
     '', pool_name: '' @ ci_pool_name i @ '' }''"

definition server_identifier_new :: "string \<Rightarrow> string \<Rightarrow> server_identifier" where
  "server_identifier_new username database = \<lparr> si_username = username, si_database = database \<rparr>"

definition server_identifier_display :: "server_identifier \<Rightarrow> string" where
  "server_identifier_display i =
     ''{ username: '' @ si_username i @ '', database: '' @ si_database i @ '' }''"

fun error_display :: "(error \<Rightarrow> string) \<Rightarrow> error \<Rightarrow> string" where
  "error_display debug (ClientSocketError e i) =
     ''Error reading '' @ e @ '' from client '' @ client_identifier_display i"
| "error_display debug (ClientGeneralError e i) = e @ '' '' @ client_identifier_display i"
| "error_display debug (ClientAuthImpossible username) =
     ''Client auth not possible, no cleartext password set for username: '' @ username @
     '' in config and auth passthrough (query_auth) is not set up.''"
| "error_display debug (ClientAuthPassthroughError e i) =
     ''No cleartext password set, and no auth passthrough could not obtain the hash from server for '' @
     client_identifier_display i @ '', the error was: '' @ e"
| "error_display debug (ServerStartupError e i) =
     ''Error reading '' @ e @ '' on server startup '' @ server_identifier_display i"
| "error_display debug (ServerAuthError e i) = e @ '' for '' @ server_identifier_display i"
| "error_display debug e = debug e"

text \<open>\<open>impl From<std::ffi::NulError> for Error\<close>; \<open>nul_error_text\<close> is the error's own text.\<close>

definition error_from_nul :: "string \<Rightarrow> error" where
  "error_from_nul nul_error_text = QueryRouterError nul_error_text"

end
