(* ===== verification/Sharding.thy ===== *)
theory Sharding
  imports Errors
begin

text \<open>
  \<open>src/src/sharding.rs\<close>: the map from a sharding key (an \<open>i64\<close>) to a shard number.  Integers keep
  their width; \<open>wrapping_add\<close> and \<open>wrapping_sub\<close> are the word operations.  The SHA-1 digest comes
  from the \<open>sha1\<close> crate and is an argument.
\<close>

unbundle bit_operations_syntax

section \<open>Model\<close>

definition PARTITION_HASH_SEED :: u64 where
  "PARTITION_HASH_SEED = 0x7A5B22367996DCFD"

datatype sharding_function = PgBigintHash | Sha1

fun sharding_function_display :: "sharding_function \<Rightarrow> string" where
  "sharding_function_display PgBigintHash = ''pg_bigint_hash''"
| "sharding_function_display Sha1 = ''sha1''"

record sharder =
  shards :: usize
  sharding_function :: sharding_function

definition sharder_new :: "usize \<Rightarrow> sharding_function \<Rightarrow> sharder" where
  "sharder_new n f = \<lparr> shards = n, sharding_function = f \<rparr>"

definition rot :: "u32 \<Rightarrow> nat \<Rightarrow> u32" where
  "rot x k = push_bit k x OR drop_bit (32 - k) x"

definition mix :: "u32 \<Rightarrow> u32 \<Rightarrow> u32 \<Rightarrow> u32 \<times> u32 \<times> u32" where
  "mix a b c =
     (let a = a - c; a = a XOR rot c 4; c = c + b;
          b = b - a; b = b XOR rot a 6; a = a + c;
          c = c - b; c = c XOR rot b 8; b = b + a;
          a = a - c; a = a XOR rot c 16; c = c + b;
          b = b - a; b = b XOR rot a 19; a = a + c;
          c = c - b; c = c XOR rot b 4; b = b + a
      in (a, b, c))"

definition final_mix :: "u32 \<Rightarrow> u32 \<Rightarrow> u32 \<Rightarrow> u32 \<times> u32 \<times> u32" where
  "final_mix a b c =
     (let c = c XOR b; c = c - rot b 14;
          a = a XOR c; a = a - rot c 11;
          b = b XOR a; b = b - rot a 25;
          c = c XOR b; c = c - rot b 16;
          a = a XOR c; a = a - rot c 4;
          b = b XOR a; b = b - rot a 14;
          c = c XOR b; c = c - rot b 24
      in (a, b, c))"

definition combine :: "u64 \<Rightarrow> u64 \<Rightarrow> u64" where
  "combine a b = a XOR (b + 0x49a0f4dd15e5a8e3 + push_bit 54 a + drop_bit 7 a)"

definition pg_u32_hash :: "u32 \<Rightarrow> u64" where
  "pg_u32_hash k =
     (let a = 0x9e3779b9 + 4 + 3923095 :: u32; b = a; c = a;
          a = a + ucast (drop_bit 32 PARTITION_HASH_SEED);
          b = b + ucast PARTITION_HASH_SEED;
          (a, b, c) = mix a b c;
          a = a + k;
          (_, b, c) = final_mix a b c
      in push_bit 32 (ucast b) OR ucast c)"

definition usize_rem :: "usize \<Rightarrow> usize \<Rightarrow> usize result" where
  "usize_rem a n = (if n = 0 then Panic else Ok (a mod n))"

definition pg_bigint_hash :: "sharder \<Rightarrow> i64 \<Rightarrow> usize result" where
  "pg_bigint_hash self key =
     (let lohalf = ucast key :: u32;
          hihalf = ucast (signed_drop_bit 32 key) :: u32;
          lohalf = lohalf XOR (if 0 \<le> sint key then hihalf else NOT hihalf)
      in usize_rem (combine 0 (pg_u32_hash lohalf)) (shards self))"

text \<open>\<open>i64::from_str_radix(s, 16)\<close> on the digits \<open>0-9a-f\<close>, with its overflow error.\<close>

definition hex_val :: "char \<Rightarrow> nat option" where
  "hex_val c =
     (if is_digit c then Some (digit_val c)
      else if 97 \<le> (of_char c :: nat) \<and> (of_char c :: nat) \<le> 102 then Some (of_char c - 87)
      else if 65 \<le> (of_char c :: nat) \<and> (of_char c :: nat) \<le> 70 then Some (of_char c - 55)
      else None)"

fun hex_digits_val :: "nat \<Rightarrow> string \<Rightarrow> nat option" where
  "hex_digits_val acc [] = Some acc"
| "hex_digits_val acc (c # s) =
     (case hex_val c of None \<Rightarrow> None | Some d \<Rightarrow> hex_digits_val (acc * 16 + d) s)"

definition i64_from_str_radix16 :: "string \<Rightarrow> i64 option" where
  "i64_from_str_radix16 s =
     (if s = [] then None
      else case hex_digits_val 0 s of
             None \<Rightarrow> None
           | Some n \<Rightarrow> if n \<le> 9223372036854775807 then Some (of_nat n) else None)"

definition sha1 :: "(bytes \<Rightarrow> bytes) \<Rightarrow> sharder \<Rightarrow> i64 \<Rightarrow> usize result" where
  "sha1 digest self key =
     (let hex = lower_hex (digest (show_int (sint key)))
      in if length hex < 8 then Panic
         else rbind (unwrap (i64_from_str_radix16 (drop (length hex - 8) hex)))
                (\<lambda>key. usize_rem key (shards self)))"

definition shard :: "(bytes \<Rightarrow> bytes) \<Rightarrow> sharder \<Rightarrow> i64 \<Rightarrow> usize result" where
  "shard digest self key =
     (case sharding_function self of
        PgBigintHash \<Rightarrow> pg_bigint_hash self key
      | Sha1 \<Rightarrow> sha1 digest self key)"

section \<open>The Jenkins mixing steps\<close>

text \<open>
  One round of \<open>mix\<close> subtracts and rotates the third word into the first and adds the second to
  the third; one round of \<open>final_mix\<close> changes a single word.  Both can be undone, so the two
  functions lose no information.
\<close>

definition mix_round :: "nat \<Rightarrow> u32 \<Rightarrow> u32 \<Rightarrow> u32 \<Rightarrow> u32 \<times> u32 \<times> u32" where
  "mix_round k x y z = ((x - z) XOR rot z k, y, z + y)"

definition unmix_round :: "nat \<Rightarrow> u32 \<Rightarrow> u32 \<Rightarrow> u32 \<Rightarrow> u32 \<times> u32 \<times> u32" where
  "unmix_round k x y z = ((x XOR rot (z - y) k) + (z - y), y, z - y)"

lemma xor_cancel [simp]: "(x XOR y) XOR y = (x :: 'a::len word)"
  by (simp add: xor.assoc)

lemma unmix_mix_round: "mix_round k x y z = (x', y', z') \<Longrightarrow> unmix_round k x' y' z' = (x, y, z)"
  by (auto simp: mix_round_def unmix_round_def)

lemma mix_rounds:
  "mix a b c =
     (let (a, b, c) = mix_round 4 a b c; (b, c, a) = mix_round 6 b c a; (c, a, b) = mix_round 8 c a b;
          (a, b, c) = mix_round 16 a b c; (b, c, a) = mix_round 19 b c a; (c, a, b) = mix_round 4 c a b
      in (a, b, c))"
  unfolding mix_def mix_round_def Let_def prod.case ..

definition unmix :: "u32 \<times> u32 \<times> u32 \<Rightarrow> u32 \<times> u32 \<times> u32" where
  "unmix t =
     (let (a, b, c) = t;
          (c, a, b) = unmix_round 4 c a b; (b, c, a) = unmix_round 19 b c a; (a, b, c) = unmix_round 16 a b c;
          (c, a, b) = unmix_round 8 c a b; (b, c, a) = unmix_round 6 b c a; (a, b, c) = unmix_round 4 a b c
      in (a, b, c))"

lemma unmix_mix: "unmix (mix a b c) = (a, b, c)"
  by (auto simp: mix_rounds unmix_def Let_def dest!: unmix_mix_round split: prod.splits)

definition final_round :: "nat \<Rightarrow> u32 \<Rightarrow> u32 \<Rightarrow> u32" where
  "final_round k x y = (x XOR y) - rot y k"

definition unfinal_round :: "nat \<Rightarrow> u32 \<Rightarrow> u32 \<Rightarrow> u32" where
  "unfinal_round k x y = (x + rot y k) XOR y"

lemma unfinal_final_round [simp]: "unfinal_round k (final_round k x y) y = x"
  by (simp add: final_round_def unfinal_round_def)

lemma final_rounds:
  "final_mix a b c =
     (let c = final_round 14 c b; a = final_round 11 a c; b = final_round 25 b a;
          c = final_round 16 c b; a = final_round 4 a c; b = final_round 14 b a;
          c = final_round 24 c b
      in (a, b, c))"
  unfolding final_mix_def final_round_def Let_def ..

definition unfinal :: "u32 \<times> u32 \<times> u32 \<Rightarrow> u32 \<times> u32 \<times> u32" where
  "unfinal t =
     (let (a, b, c) = t;
          c = unfinal_round 24 c b; b = unfinal_round 14 b a; a = unfinal_round 4 a c;
          c = unfinal_round 16 c b; b = unfinal_round 25 b a; a = unfinal_round 11 a c;
          c = unfinal_round 14 c b
      in (a, b, c))"

lemma unfinal_final: "unfinal (final_mix a b c) = (a, b, c)"
  by (simp add: final_rounds unfinal_def Let_def)

section \<open>Evaluation over the natural numbers\<close>

text \<open>
  The same rounds on natural numbers below \<open>2 ^ 32\<close>, where the simplifier computes: each word
  operation is replaced by its image under \<open>unat\<close>.
\<close>

definition rot_nat :: "nat \<Rightarrow> nat \<Rightarrow> nat" where
  "rot_nat x k = (x * 2 ^ k mod 4294967296) OR (x div 2 ^ (32 - k))"

definition sub_nat :: "nat \<Rightarrow> nat \<Rightarrow> nat" where
  "sub_nat x y = (x + 4294967296 - y) mod 4294967296"

lemma unat_lt32: "unat (x :: u32) < 4294967296"
  using unsigned_less [of x] by simp

lemma unat_rot: "unat (rot x k) = rot_nat (unat x) k"
  unfolding rot_def rot_nat_def unsigned_or_eq unsigned_push_bit_eq unsigned_drop_bit_eq
  by (simp add: take_bit_eq_mod push_bit_eq_mult drop_bit_eq_div unat_lt32)

lemma unat_sub32: "unat (x - y :: u32) = sub_nat (unat x) (unat y)"
proof -
  have le: "unat y \<le> unat x + 4294967296" using unat_lt32 [of y] by simp
  have "int (unat (x - y)) = (int (unat x) - int (unat y)) mod 4294967296"
    by (simp add: uint_word_arith_bintrs take_bit_eq_mod)
  also have "\<dots> = (int (unat x) + 4294967296 - int (unat y)) mod 4294967296"
    using mod_add_self2 [of "int (unat x) - int (unat y)" 4294967296] by (simp only: algebra_simps)
  also have "\<dots> = int (sub_nat (unat x) (unat y))"
    using le by (simp add: sub_nat_def zmod_int of_nat_diff)
  finally show ?thesis by (simp only: of_nat_eq_iff)
qed

lemma unat_add32: "unat (x + y :: u32) = (unat x + unat y) mod 4294967296"
  by (simp add: unat_word_ariths)

fun final_nat :: "nat list \<Rightarrow> nat \<Rightarrow> nat \<Rightarrow> nat \<Rightarrow> nat \<times> nat \<times> nat" where
  "final_nat [] x y z = (x, y, z)"
| "final_nat (k # ks) x y z = final_nat ks y z (sub_nat (x XOR z) (rot_nat z k))"

lemma unat_final_round: "unat (final_round k x y) = sub_nat (unat x XOR unat y) (rot_nat (unat y) k)"
  by (simp add: final_round_def unsigned_xor_eq unat_rot unat_sub32)

lemma final_nat: "final_nat [14, 11, 25, 16, 4, 14, 24] (unat c) (unat a) (unat b) = 
   (case final_mix a b c of (a, b, c) \<Rightarrow> (unat a, unat b, unat c))"
  by (simp only: final_nat.simps final_rounds Let_def unat_final_round prod.case)

fun mix_nat :: "nat list \<Rightarrow> nat \<Rightarrow> nat \<Rightarrow> nat \<Rightarrow> nat \<times> nat \<times> nat" where
  "mix_nat [] x y z = (x, y, z)"
| "mix_nat (k # ks) x y z = mix_nat ks y ((z + y) mod 4294967296) (sub_nat x z XOR rot_nat z k)"

lemma mix_nat: "mix_nat [4, 6, 8, 16, 19, 4] (unat a) (unat b) (unat c) = 
   (case mix a b c of (a, b, c) \<Rightarrow> (unat a, unat b, unat c))"
  unfolding mix_rounds mix_round_def Let_def prod.case mix_nat.simps unsigned_xor_eq unat_rot unat_sub32 unat_add32 ..



lemma mix_seed:
  "mix (0x9e3779b9 + 4 + 3923095 + ucast (drop_bit 32 PARTITION_HASH_SEED))
     (0x9e3779b9 + 4 + 3923095 + ucast PARTITION_HASH_SEED) (0x9e3779b9 + 4 + 3923095)
   = (0xe933553e, 0xc5da07a8, 0xfdfd95ed)" (is "mix ?a ?b ?c = _")
proof -
  obtain x y z where m: "mix ?a ?b ?c = (x, y, z)" by (cases "mix ?a ?b ?c")
  have "mix_nat [4, 6, 8, 16, 19, 4] (unat ?a) (unat ?b) (unat ?c) = (0xe933553e, 0xc5da07a8, 0xfdfd95ed)"
    by (simp add: sub_nat_def rot_nat_def PARTITION_HASH_SEED_def unsigned_ucast_eq take_bit_eq_mod)
  then have "(unat x, unat y, unat z) = (0xe933553e, 0xc5da07a8, 0xfdfd95ed)"
    by (simp only: mix_nat m prod.case)
  then show ?thesis unfolding m by (simp add: word_unat_eq_iff)
qed

text \<open>The shard of a non-negative key below \<open>2 ^ 31\<close>, on natural numbers.\<close>

definition hash_nat :: "nat \<Rightarrow> nat" where
  "hash_nat k =
     (case final_nat [14, 11, 25, 16, 4, 14, 24] 0xfdfd95ed ((0xe933553e + k) mod 4294967296) 0xc5da07a8 of
        (_, b, c) \<Rightarrow> (b * 4294967296 + c + 0x49a0f4dd15e5a8e3) mod 18446744073709551616)"

lemma combine_zero: "combine 0 b = b + 0x49a0f4dd15e5a8e3"
  by (simp add: combine_def)

lemma unat_pg_u32_hash: "unat (combine 0 (pg_u32_hash k)) = hash_nat (unat k)"
proof -
  obtain a b c where m: "final_mix (0xe933553e + k) 0xc5da07a8 0xfdfd95ed = (a, b, c)"
    by (cases "final_mix (0xe933553e + k) 0xc5da07a8 0xfdfd95ed")
  have h: "pg_u32_hash k = push_bit 32 (ucast b) OR ucast c"
    unfolding pg_u32_hash_def Let_def mix_seed prod.case m ..
  have "push_bit 32 (ucast b) OR ucast c = (push_bit 32 (ucast b) + ucast c :: u64)"
    by (rule disjunctive_add [symmetric]) (auto simp: bit_simps dest: bit_imp_le_length)
  then have "unat (pg_u32_hash k) = unat b * 4294967296 + unat c"
    unfolding h using unat_lt32 [of b] unat_lt32 [of c]
    by (simp add: unat_word_ariths unsigned_push_bit_eq unsigned_ucast_eq take_bit_eq_mod push_bit_eq_mult)
  moreover have "final_nat [14, 11, 25, 16, 4, 14, 24] 0xfdfd95ed ((0xe933553e + unat k) mod 4294967296) 0xc5da07a8
    = (unat a, unat b, unat c)"
    using final_nat [of "0xfdfd95ed" "0xe933553e + k" "0xc5da07a8"] by (simp add: m unat_add32 del: final_nat.simps)
  ultimately show ?thesis
    by (simp add: hash_nat_def combine_zero unat_word_ariths del: final_nat.simps)
qed

lemma pg_bigint_hash_nat:
  assumes "k < 2147483648" "0 < n" "n < 18446744073709551616"
  shows "pg_bigint_hash \<lparr>shards = of_nat n, sharding_function = f\<rparr> (of_nat k) = Ok (of_nat (hash_nat k mod n))"
proof -
  let ?key = "of_nat k :: i64"
  have key: "unat ?key = k" "sint ?key = int k"
    using assms(1) by (simp_all add: unsigned_of_nat signed_of_nat take_bit_eq_mod signed_take_bit_int_eq_self)
  have hi: "signed_drop_bit 32 ?key = 0"
  proof -
    have "sint (signed_drop_bit 32 ?key) = sint (0 :: i64)"
      using assms(1) by (simp add: sint_signed_drop_bit_eq key drop_bit_eq_div)
    then show ?thesis by (rule signed_word_eqI)
  qed
  have lo: "unat (ucast ?key :: u32) = k"
    using assms(1) by (simp add: unsigned_ucast_eq take_bit_eq_mod key)
  have n: "(of_nat n :: usize) \<noteq> 0" "unat (of_nat n :: usize) = n"
    using assms(2,3) by (simp_all add: unsigned_of_nat take_bit_eq_mod word_unat_eq_iff)
  have "pg_bigint_hash \<lparr>shards = of_nat n, sharding_function = f\<rparr> ?key
    = Ok (combine 0 (pg_u32_hash (ucast ?key)) mod of_nat n)"
    by (simp add: pg_bigint_hash_def usize_rem_def hi key n)
  also have "combine 0 (pg_u32_hash (ucast ?key)) mod of_nat n = of_nat (hash_nat k mod n)"
    using mod_less_divisor [OF assms(2), of "hash_nat k"] assms(1,3)
    by (simp add: word_unat_eq_iff unat_mod_distrib unat_pg_u32_hash lo n unsigned_of_nat take_bit_eq_mod)
  finally show ?thesis .
qed


lemma shard_numeral:
  assumes "(numeral k :: nat) < 2147483648"
  shows "shard digest (sharder_new 5 PgBigintHash) (numeral k) = Ok (of_nat (hash_nat (numeral k) mod 5))"
  using pg_bigint_hash_nat [OF assms, of 5 PgBigintHash]
  by (simp add: shard_def sharder_new_def)

section \<open>Shard numbers\<close>

lemma pg_bigint_hash_range:
  "pg_bigint_hash self key = (if shards self = 0 then Panic else Ok (combine 0 (pg_u32_hash (ucast key XOR
     (if 0 \<le> sint key then ucast (signed_drop_bit 32 key) else NOT (ucast (signed_drop_bit 32 key))))) mod shards self))"
  by (simp add: pg_bigint_hash_def usize_rem_def Let_def)

lemma hex_val_hex_digit: "d < 16 \<Longrightarrow> hex_val (hex_digit d) = Some d"
  by (auto simp: hex_val_def hex_digit_def is_digit_def digit_val_def)

lemma lower_hex_append: "lower_hex (xs @ ys) = lower_hex xs @ lower_hex ys"
  by (simp add: lower_hex_def)

lemma length_lower_hex [simp]: "length (lower_hex bs) = 2 * length bs"
  by (induction bs) (simp_all add: lower_hex_def)

lemma hex_digits_val_append:
  "hex_digits_val acc (xs @ ys) = (case hex_digits_val acc xs of None \<Rightarrow> None | Some n \<Rightarrow> hex_digits_val n ys)"
  by (induction acc xs rule: hex_digits_val.induct) (auto split: option.splits)

lemma hex_digits_val_lower_hex: "hex_digits_val 0 (lower_hex bs) = Some (get_be bs)"
proof (induction bs rule: rev_induct)
  case Nil
  then show ?case by (simp add: lower_hex_def)
next
  case (snoc b bs)
  have "(of_char b :: nat) div 16 < 16" by (rule less_mult_imp_div_less) simp
  moreover have "lower_hex [b] = [hex_digit (of_char b div 16), hex_digit (of_char b mod 16)]"
    by (simp add: lower_hex_def)
  ultimately show ?case
    by (simp add: lower_hex_append hex_digits_val_append snoc hex_val_hex_digit)
qed

lemma sha1_eq:
  assumes "4 \<le> length (digest (show_int (sint key)))"
  shows "sha1 digest self key =
    usize_rem (of_nat (get_be (drop (length (digest (show_int (sint key))) - 4) (digest (show_int (sint key)))))) (shards self)"
proof -
  define d where "d = digest (show_int (sint key))"
  define t where "t = drop (length d - 4) d"
  have len: "4 \<le> length d" "length t = 4" using assms by (simp_all add: d_def t_def)
  have d: "d = take (length d - 4) d @ t" by (simp add: t_def)
  have "lower_hex d = lower_hex (take (length d - 4) d) @ lower_hex t"
    by (subst d) (simp add: lower_hex_append)
  then have "drop (length (lower_hex d) - 8) (lower_hex d) = lower_hex t"
    using len by simp
  moreover have "i64_from_str_radix16 (lower_hex t) = Some (of_nat (get_be t))"
    using get_be_less [of t] len by (auto simp: i64_from_str_radix16_def hex_digits_val_lower_hex dest: arg_cong [of _ _ length])
  ultimately show ?thesis
    using len by (simp add: sha1_def Let_def d_def [symmetric] t_def [symmetric])
qed

lemma mix_inj: "inj (\<lambda>(a, b, c). mix a b c)"
  by (rule inj_on_inverseI [where g = unmix]) (auto simp: unmix_mix)

lemma final_inj: "inj (\<lambda>(a, b, c). final_mix a b c)"
  by (rule inj_on_inverseI [where g = unfinal]) (auto simp: unfinal_final)

section \<open>The contract of a sharding function\<close>

text \<open>What the clients of a sharding function rely on: with at least one shard, every key has one of them.\<close>

locale key_sharding =
  fixes shard_of :: "sharder \<Rightarrow> i64 \<Rightarrow> usize result"
  assumes in_range: "shards s \<noteq> 0 \<Longrightarrow> \<exists>x. shard_of s k = Ok x \<and> x < shards s"
begin

lemma Ok_less: "shards s \<noteq> 0 \<Longrightarrow> shard_of s k = Ok x \<Longrightarrow> x < shards s"
  using in_range [of s k] by auto

lemma image_less: "shards s \<noteq> 0 \<Longrightarrow> shard_of s ` K = {Ok x} \<Longrightarrow> x < shards s"
  using Ok_less by (metis imageE insertI1)

end

interpretation bigint_sharding: key_sharding pg_bigint_hash
  by unfold_locales (auto simp: pg_bigint_hash_range word_gt_0 intro!: word_mod_less_divisor)

lemma key_sharding_shard:
  assumes "\<forall>m. length (digest m) = 20"
  shows "key_sharding (shard digest)"
proof
  fix s :: sharder and k assume "shards s \<noteq> 0"
  with assms show "\<exists>x. shard digest s k = Ok x \<and> x < shards s"
    by (cases "sharding_function s")
       (auto simp: shard_def sha1_eq usize_rem_def word_gt_0 bigint_sharding.in_range intro!: word_mod_less_divisor)
qed

section \<open>Properties\<close>

text \<open>
  C28: a configured sharder sends every key to an existing shard: with a SHA-1 digest of twenty bytes
  and at least one shard, \<open>shard\<close> returns a number below \<open>shards\<close> and never panics, for every key
  and both sharding functions.
\<close>

theorem shard_in_range:
  assumes digest: "\<forall>m. length (digest m) = 20" and "shards self \<noteq> 0"
  shows "\<exists>s. shard digest self key = Ok s \<and> s < shards self"
  by (rule key_sharding.in_range [OF key_sharding_shard]) (rule assms)+

theorem shard_in_range_witness:
  "\<exists>s. shard (\<lambda>m. replicate 20 CHR 0x00) (sharder_new 3 Sha1) 7 = Ok s \<and> s < shards (sharder_new 3 Sha1)"
  by (rule shard_in_range) (simp_all add: sharder_new_def)

text \<open>
  The SHA-1 sharding function reduces the last four bytes of the digest of the decimal key,
  read big-endian, modulo the number of shards.
\<close>

theorem sha1_last_four_bytes:
  assumes "\<forall>m. length (digest m) = 20" and "shards self \<noteq> 0"
  shows "sha1 digest self key = Ok (of_nat (get_be (drop 16 (digest (show_int (sint key))))) mod shards self)"
  using assms by (simp add: sha1_eq usize_rem_def)

theorem sha1_last_four_bytes_witness:
  "sha1 (\<lambda>m. replicate 16 CHR ''a'' @ [CHR 0x00, CHR 0x00, CHR 0x01, CHR 0x02]) (sharder_new 100 Sha1) 7 = Ok 58"
  using sha1_last_four_bytes [of "\<lambda>m. replicate 16 CHR ''a'' @ [CHR 0x00, CHR 0x00, CHR 0x01, CHR 0x02]" "sharder_new 100 Sha1" 7]
  by (simp add: sharder_new_def get_be_def)

text \<open>
  A 32-bit key and its 64-bit sign extension hash alike: PostgreSQL's \<open>hashint8\<close> agrees with
  \<open>hashint4\<close> on the integers of both types.
\<close>

theorem pg_bigint_hash_sign_extended:
  "pg_bigint_hash self (scast (x :: i32)) = usize_rem (combine 0 (pg_u32_hash x)) (shards self)"
proof -
  have neg: "bit x 31 \<longleftrightarrow> sint x < 0" "bit (scast x :: i64) 63 \<longleftrightarrow> sint (scast x :: i64) < 0"
    using bit_last_iff [of x] bit_last_iff [of "scast x :: i64"] by simp_all
  then have sgn: "0 \<le> sint (scast x :: i64) \<longleftrightarrow> 0 \<le> sint x"
    by (simp add: bit_simps not_less [symmetric])
  have lo: "ucast (scast x :: i64) = x"
    by (rule bit_word_eqI) (simp add: bit_simps)
  have hi: "ucast (signed_drop_bit 32 (scast x :: i64)) = (if 0 \<le> sint x then 0 else - 1 :: u32)"
    by (rule bit_word_eqI) (auto simp: bit_simps neg)
  show ?thesis
    by (simp add: pg_bigint_hash_def lo hi sgn)
qed

text \<open>
  Neither mixing step loses information: \<open>mix\<close> and \<open>_final\<close> are bijections of the three words.
\<close>

theorem mixing_bijective:
  "bij (\<lambda>(a, b, c). mix a b c) \<and> bij (\<lambda>(a, b, c). final_mix a b c)"
  by (auto simp: bij_def mix_inj final_inj intro!: finite_UNIV_inj_surj)

text \<open>
  With five shards, keys land where PostgreSQL's hash partitioning puts them: three of the
  keys PostgreSQL stored in each of the five partitions (the unit test \<open>test_pg_bigint_hash\<close>
  lists ten per partition).
\<close>

theorem pg_bigint_hash_partitions:
  "map (shard digest (sharder_new 5 PgBigintHash)) [4, 5, 14, 2, 3, 11, 6, 7, 15, 8, 12, 13, 9, 10, 24]
   = [Ok 0, Ok 0, Ok 0, Ok 1, Ok 1, Ok 1, Ok 2, Ok 2, Ok 2, Ok 3, Ok 3, Ok 3, Ok 4, Ok 4, Ok 4]"
  by (simp add: shard_numeral hash_nat_def sub_nat_def rot_nat_def)

end
