(* ===== verification/Wire.thy ===== *)
theory Wire
  imports Errors
begin

text \<open>
  Reading and writing bytes.  The first part is the interface of the \<open>bytes\<close> and \<open>std\<close> types the
  source uses on buffers: the big-endian accessors of \<open>Buf\<close> and \<open>BufMut\<close>, \<open>CString::new\<close>, and the
  two \<open>read_string\<close> implementations of \<open>src/src/messages.rs\<close>.  A \<open>Cursor\<close> is the list of the bytes
  it has not read yet.  The second part is a stream (\<open>AsyncRead\<close>, \<open>AsyncWrite\<close>): what the peer
  will send before its side fails, what has been written to it, and how much more it takes.

  The locales are the contracts of the encoders and decoders of single fields, and of whole
  messages with a tag and a length; the components interpret them on their own functions.
\<close>

section \<open>Buffers\<close>

definition put_u8 :: "byte \<Rightarrow> bytes" where
  "put_u8 c = [c]"

definition put_i16 :: "i16 \<Rightarrow> bytes" where
  "put_i16 w = put_be 2 (unat w)"

definition put_i32 :: "i32 \<Rightarrow> bytes" where
  "put_i32 w = put_be 4 (unat w)"

fun get_u8 :: "bytes \<Rightarrow> (byte \<times> bytes) result" where
  "get_u8 [] = Panic"
| "get_u8 (c # bs) = Ok (c, bs)"

definition get_bytes :: "nat \<Rightarrow> bytes \<Rightarrow> (bytes \<times> bytes) result" where
  "get_bytes n bs = (if n \<le> length bs then Ok (take n bs, drop n bs) else Panic)"

definition get_i16 :: "bytes \<Rightarrow> (i16 \<times> bytes) result" where
  "get_i16 bs = rbind (get_bytes 2 bs) (\<lambda>(b, bs). Ok (of_nat (get_be b), bs))"

definition get_i32 :: "bytes \<Rightarrow> (i32 \<times> bytes) result" where
  "get_i32 bs = rbind (get_bytes 4 bs) (\<lambda>(b, bs). Ok (of_nat (get_be b), bs))"

definition get_i64 :: "bytes \<Rightarrow> (i64 \<times> bytes) result" where
  "get_i64 bs = rbind (get_bytes 8 bs) (\<lambda>(b, bs). Ok (of_nat (get_be b), bs))"

text \<open>\<open>advance(n)\<close>.\<close>

definition advance :: "nat \<Rightarrow> bytes \<Rightarrow> bytes result" where
  "advance n bs = (if n \<le> length bs then Ok (drop n bs) else Panic)"

text \<open>\<open>for _ in 0..n { v.push(dec(cursor)) }\<close>.\<close>

fun get_many :: "nat \<Rightarrow> (bytes \<Rightarrow> ('a \<times> bytes) result) \<Rightarrow> bytes \<Rightarrow> ('a list \<times> bytes) result" where
  "get_many 0 dec bs = Ok ([], bs)"
| "get_many (Suc n) dec bs =
     rbind (dec bs) (\<lambda>(x, bs). rbind (get_many n dec bs) (\<lambda>(xs, bs). Ok (x # xs, bs)))"

text \<open>The number of iterations of \<open>0..n\<close> for a signed \<open>n\<close>.\<close>

definition range_count :: "i16 \<Rightarrow> nat" where
  "range_count n = nat (sint n)"

text \<open>\<open>CString::new(s)?.as_bytes_with_nul()\<close>.\<close>

fun nul_position :: "bytes \<Rightarrow> nat option" where
  "nul_position [] = None"
| "nul_position (c # s) = (if c = CHR 0x00 then Some 0 else map_option Suc (nul_position s))"

definition cstring_new :: "string \<Rightarrow> bytes result" where
  "cstring_new s =
     (case nul_position s of
        Some n \<Rightarrow> Err (error_from_nul (''nul byte found in provided data at position: '' @ show_nat n))
      | None \<Rightarrow> Ok (s @ [CHR 0x00]))"

text \<open>
  \<open>read_string\<close> of \<open>Cursor<&BytesMut>\<close>: \<open>read_until\<close> takes the bytes up to a NUL and the NUL, or all
  of them, and the last byte taken is dropped; of \<open>BytesMut\<close>: the bytes before the first NUL.
\<close>

definition cursor_read_string :: "bytes \<Rightarrow> (string \<times> bytes) result" where
  "cursor_read_string bs =
     (case split_at_first (CHR 0x00) bs of
        Some (s, bs) \<Rightarrow> Ok (from_utf8_lossy s, bs)
      | None \<Rightarrow> if bs = [] then Panic else Ok (from_utf8_lossy (butlast bs), []))"

definition bytes_read_string :: "bytes \<Rightarrow> (string \<times> bytes) result" where
  "bytes_read_string bs =
     (case split_at_first (CHR 0x00) bs of
        Some (s, bs) \<Rightarrow> Ok (from_utf8_lossy s, bs)
      | None \<Rightarrow> Err (ParseBytesError ''Could not read string''))"

section \<open>Streams\<close>

text \<open>
  A stream yields the bytes of \<open>rd_input\<close>; a read past them fails with the error whose \<open>Debug\<close> text
  is \<open>rd_error\<close>.  It accepts writes without end, or \<open>n\<close> more bytes and then fails with \<open>e\<close> when
  \<open>wr_budget = Some (n, e)\<close>; \<open>fl_error\<close> is the outcome of \<open>flush\<close>.
\<close>

record stream =
  rd_input :: bytes
  rd_error :: string
  wr_output :: bytes
  wr_budget :: "(nat \<times> string) option"
  fl_error :: "string option"

text \<open>A computation on a state \<open>'s\<close>: the outcome, and the state it leaves also on an error.\<close>

type_synonym ('s, 'a) act = "'s \<Rightarrow> 'a result \<times> 's"

definition act_return :: "'a \<Rightarrow> ('s, 'a) act" where
  "act_return x s = (Ok x, s)"

definition act_lift :: "'a result \<Rightarrow> ('s, 'a) act" where
  "act_lift r s = (r, s)"

text \<open>Reading and changing the state.\<close>

definition act_get :: "('s \<Rightarrow> 'a result) \<Rightarrow> ('s, 'a) act" where
  "act_get f s = (f s, s)"

definition act_modify :: "('s \<Rightarrow> 's) \<Rightarrow> ('s, unit) act" where
  "act_modify f s = (Ok (), f s)"

definition act_bind :: "('s, 'a) act \<Rightarrow> ('a \<Rightarrow> ('s, 'b) act) \<Rightarrow> ('s, 'b) act" where
  "act_bind m f s =
     (case m s of (Ok x, s) \<Rightarrow> f x s | (Err e, s) \<Rightarrow> (Err e, s) | (Panic, s) \<Rightarrow> (Panic, s))"

text \<open>\<open>match io { Ok(x) => x, Err(err) => return Err(g(err)) }\<close>.\<close>

definition act_io :: "('s \<Rightarrow> (string, 'a) outcome \<times> 's) \<Rightarrow> (string \<Rightarrow> error) \<Rightarrow> ('s, 'a) act" where
  "act_io io g s =
     (case io s of (Ok x, s) \<Rightarrow> (Ok x, s) | (Err e, s) \<Rightarrow> (Err (g e), s) | (Panic, s) \<Rightarrow> (Panic, s))"

text \<open>A change of the state that returns a value, and \<open>if\<close> without \<open>else\<close>.\<close>

definition act_update :: "('s \<Rightarrow> 'a \<times> 's) \<Rightarrow> ('s, 'a) act" where
  "act_update f s = (case f s of (x, s) \<Rightarrow> (Ok x, s))"

definition act_when :: "bool \<Rightarrow> ('s, unit) act \<Rightarrow> ('s, unit) act" where
  "act_when b m = (if b then m else act_return ())"

text \<open>A computation on a part of the state, and a change of the state when a computation fails.\<close>

definition act_zoom :: "('s \<Rightarrow> 't) \<Rightarrow> ('t \<Rightarrow> 's \<Rightarrow> 's) \<Rightarrow> ('t, 'a) act \<Rightarrow> ('s, 'a) act" where
  "act_zoom get put m s = (case m (get s) of (r, t) \<Rightarrow> (r, put t s))"

definition act_on_error :: "('s, 'a) act \<Rightarrow> ('s \<Rightarrow> 's) \<Rightarrow> ('s, 'a) act" where
  "act_on_error m h s = (case m s of (Err e, s) \<Rightarrow> (Err e, h s) | r \<Rightarrow> r)"

definition stream_read_exact :: "nat \<Rightarrow> stream \<Rightarrow> (string, bytes) outcome \<times> stream" where
  "stream_read_exact n s =
     (if n \<le> length (rd_input s)
      then (Ok (take n (rd_input s)), s\<lparr>rd_input := drop n (rd_input s)\<rparr>)
      else (Err (rd_error s), s\<lparr>rd_input := []\<rparr>))"

definition stream_read_u8 :: "stream \<Rightarrow> (string, byte) outcome \<times> stream" where
  "stream_read_u8 s =
     (case rd_input s of
        [] \<Rightarrow> (Err (rd_error s), s)
      | c # r \<Rightarrow> (Ok c, s\<lparr>rd_input := r\<rparr>))"

definition stream_read_i32 :: "stream \<Rightarrow> (string, i32) outcome \<times> stream" where
  "stream_read_i32 s =
     (case stream_read_exact 4 s of
        (Ok b, s) \<Rightarrow> (Ok (of_nat (get_be b)), s)
      | (Err e, s) \<Rightarrow> (Err e, s)
      | (Panic, s) \<Rightarrow> (Panic, s))"

definition stream_write_all :: "bytes \<Rightarrow> stream \<Rightarrow> (string, unit) outcome \<times> stream" where
  "stream_write_all bs s =
     (case wr_budget s of
        None \<Rightarrow> (Ok (), s\<lparr>wr_output := wr_output s @ bs\<rparr>)
      | Some (n, e) \<Rightarrow>
          (if length bs \<le> n then (Ok ()) else Err e,
           s\<lparr>wr_output := wr_output s @ take n bs, wr_budget := Some (n - length bs, e)\<rparr>))"

definition stream_flush :: "stream \<Rightarrow> (string, unit) outcome \<times> stream" where
  "stream_flush s = (case fl_error s of None \<Rightarrow> (Ok (), s) | Some e \<Rightarrow> (Err e, s))"

lemma act_bind_simps [simp]:
  "act_bind (act_return x) f = f x"
  "m s = (Ok x, s') \<Longrightarrow> act_bind m f s = f x s'"
  "m s = (Err e, s') \<Longrightarrow> act_bind m f s = (Err e, s')"
  "m s = (Panic, s') \<Longrightarrow> act_bind m f s = (Panic, s')"
  by (auto simp: act_bind_def act_return_def)

lemma act_bind_Ok_iff:
  "act_bind m f s = (Ok y, t) \<longleftrightarrow> (\<exists>x s'. m s = (Ok x, s') \<and> f x s' = (Ok y, t))"
  by (auto simp: act_bind_def split: prod.splits outcome.splits)

lemma act_io_Ok_iff [simp]: "act_io io g s = (Ok x, t) \<longleftrightarrow> io s = (Ok x, t)"
  by (auto simp: act_io_def split: prod.splits outcome.splits)

lemma act_io_Err [simp]: "io s = (Err e, t) \<Longrightarrow> act_io io g s = (Err (g e), t)"
  by (simp add: act_io_def)

lemma act_return_iff [simp]: "act_return x s = (r, t) \<longleftrightarrow> r = Ok x \<and> t = s"
  by (auto simp: act_return_def)

lemma act_get_iff [simp]: "act_get f s = (r, t) \<longleftrightarrow> f s = r \<and> t = s"
  by (auto simp: act_get_def)

lemma act_modify_iff [simp]: "act_modify f s = (r, t) \<longleftrightarrow> r = Ok () \<and> t = f s"
  by (auto simp: act_modify_def)

lemma act_lift_iff [simp]: "act_lift m s = (r, t) \<longleftrightarrow> m = r \<and> t = s"
  by (auto simp: act_lift_def)

lemma act_update_iff [simp]: "act_update f s = (r, t) \<longleftrightarrow> r = Ok (fst (f s)) \<and> t = snd (f s)"
  by (auto simp: act_update_def split: prod.splits)

lemma act_zoom_iff: "act_zoom get put m s = (r, s') \<longleftrightarrow> (\<exists>t. m (get s) = (r, t) \<and> s' = put t s)"
  by (auto simp: act_zoom_def split: prod.splits)

lemma act_on_error_Ok_iff [simp]: "act_on_error m h s = (Ok x, t) \<longleftrightarrow> m s = (Ok x, t)"
  by (auto simp: act_on_error_def split: prod.splits outcome.splits)

lemma act_on_error_Err_iff: "act_on_error m h s = (Err e, t) \<longleftrightarrow> (\<exists>s'. m s = (Err e, s') \<and> t = h s')"
  by (auto simp: act_on_error_def split: prod.splits outcome.splits)

lemma act_on_error_Panic_iff [simp]: "act_on_error m h s = (Panic, t) \<longleftrightarrow> m s = (Panic, t)"
  by (auto simp: act_on_error_def split: prod.splits outcome.splits)

lemma act_bind_Err_iff:
  "act_bind m f s = (Err e, t) \<longleftrightarrow> m s = (Err e, t) \<or> (\<exists>x s'. m s = (Ok x, s') \<and> f x s' = (Err e, t))"
  by (auto simp: act_bind_def split: prod.splits outcome.splits)

lemma act_bind_Panic_iff:
  "act_bind m f s = (Panic, t) \<longleftrightarrow> m s = (Panic, t) \<or> (\<exists>x s'. m s = (Ok x, s') \<and> f x s' = (Panic, t))"
  by (auto simp: act_bind_def split: prod.splits outcome.splits)

text \<open>A stream that delivers \<open>bs\<close> and takes every write.\<close>

definition fresh_stream :: "bytes \<Rightarrow> stream" where
  "fresh_stream bs = \<lparr> rd_input = bs, rd_error = ''UnexpectedEof'', wr_output = [], wr_budget = None, fl_error = None \<rparr>"

lemma fresh_stream_simps [simp]:
  "rd_input (fresh_stream bs) = bs" "wr_output (fresh_stream bs) = []" "wr_budget (fresh_stream bs) = None"
  "fl_error (fresh_stream bs) = None"
  by (simp_all add: fresh_stream_def)

text \<open>Computations that keep a predicate of the state, whatever their outcome.\<close>

definition keeps :: "('s \<Rightarrow> bool) \<Rightarrow> ('s, 'a) act \<Rightarrow> bool" where
  "keeps P m \<longleftrightarrow> (\<forall>s. P s \<longrightarrow> P (snd (m s)))"

lemma keepsD: "keeps P m \<Longrightarrow> P s \<Longrightarrow> m s = (r, t) \<Longrightarrow> P t"
  by (auto simp: keeps_def dest!: spec [of _ s])

lemma keeps_return [keeps_intro]: "keeps P (act_return x)" "keeps P (act_lift r)" "keeps P (act_get f)"
  by (simp_all add: keeps_def act_return_def act_lift_def act_get_def)

lemma keeps_modify [keeps_intro]: "(\<And>s. P s \<Longrightarrow> P (f s)) \<Longrightarrow> keeps P (act_modify f)"
  by (simp add: keeps_def act_modify_def)

lemma keeps_bind [keeps_intro]: "keeps P m \<Longrightarrow> (\<And>x. keeps P (f x)) \<Longrightarrow> keeps P (act_bind m f)"
  by (auto simp: keeps_def act_bind_def split: prod.splits outcome.splits)

lemma keeps_update [keeps_intro]: "(\<And>s. P s \<Longrightarrow> P (snd (f s))) \<Longrightarrow> keeps P (act_update f)"
  by (simp add: keeps_def act_update_def case_prod_unfold)

lemma keeps_when [keeps_intro]: "(b \<Longrightarrow> keeps P m) \<Longrightarrow> keeps P (act_when b m)"
  by (simp add: act_when_def keeps_return)

lemma keeps_zoom: "(\<And>s t r. P s \<Longrightarrow> m (get s) = (r, t) \<Longrightarrow> P (put t s)) \<Longrightarrow> keeps P (act_zoom get put m)"
  by (simp add: keeps_def act_zoom_def split: prod.split)

lemma keeps_on_error [keeps_intro]:
  assumes m: "keeps P m" and h: "\<And>s. P s \<Longrightarrow> P (h s)"
  shows "keeps P (act_on_error m h)"
  unfolding keeps_def
proof (intro allI impI)
  fix s assume "P s"
  moreover obtain r t where "m s = (r, t)" by force
  ultimately have "m s = (r, t)" "P t" using keepsD [OF m] by auto
  then show "P (snd (act_on_error m h s))" using h by (cases r) (simp_all add: act_on_error_def)
qed

lemma keeps_if [keeps_intro]: "(b \<Longrightarrow> keeps P m) \<Longrightarrow> (\<not> b \<Longrightarrow> keeps P n) \<Longrightarrow> keeps P (if b then m else n)"
  by simp

lemma keeps_case_prod [keeps_intro]: "(\<And>a b. keeps P (f a b)) \<Longrightarrow> keeps P (case z of (a, b) \<Rightarrow> f a b)"
  by (cases z) simp

lemma keeps_case_outcome [keeps_intro]:
  "(\<And>a. keeps P (f a)) \<Longrightarrow> (\<And>e. keeps P (g e)) \<Longrightarrow> keeps P n \<Longrightarrow> keeps P (case z of Ok a \<Rightarrow> f a | Err e \<Rightarrow> g e | Panic \<Rightarrow> n)"
  by (cases z) simp_all

lemma keeps_case_option [keeps_intro]:
  "keeps P n \<Longrightarrow> (\<And>a. keeps P (f a)) \<Longrightarrow> keeps P (case z of None \<Rightarrow> n | Some a \<Rightarrow> f a)"
  by (cases z) simp_all

lemma keeps_bind_get:
  "(\<And>s x. P s \<Longrightarrow> g s = Ok x \<Longrightarrow> P (snd (f x s))) \<Longrightarrow> keeps P (act_bind (act_get g) f)"
  by (auto simp: keeps_def act_bind_def act_get_def split: outcome.splits)

lemma keeps_io [keeps_intro]:
  assumes "\<And>s. P s \<Longrightarrow> P (snd (io s))"
  shows "keeps P (act_io io g)"
  unfolding keeps_def
proof (intro allI impI)
  fix s assume "P s"
  with assms [of s] show "P (snd (act_io io g s))"
    by (auto simp: act_io_def split: prod.splits outcome.splits)
qed

section \<open>Contracts of the codecs\<close>

text \<open>A decoder that gives back what the encoder wrote and leaves the rest of the buffer.\<close>

locale wire_codec =
  fixes enc :: "'a \<Rightarrow> bytes" and dec :: "bytes \<Rightarrow> ('a \<times> bytes) result" and wf :: "'a \<Rightarrow> bool"
  assumes dec_enc: "wf x \<Longrightarrow> dec (enc x @ rest) = Ok (x, rest)"
begin

lemma get_many_enc:
  "\<forall>x \<in> set xs. wf x \<Longrightarrow> n = length xs \<Longrightarrow> get_many n dec (concat (map enc xs) @ rest) = Ok (xs, rest)"
  by (induction xs arbitrary: n) (auto simp: dec_enc)

lemma enc_inj: "wf x \<Longrightarrow> wf y \<Longrightarrow> enc x = enc y \<Longrightarrow> x = y"
  using dec_enc [of x "[]"] dec_enc [of y "[]"] by simp

end

text \<open>Moreover the decoder accepts only what the encoder writes.\<close>

locale wire_bijection = wire_codec +
  assumes enc_dec: "dec bs = Ok (x, rest) \<Longrightarrow> wf x \<and> bs = enc x @ rest"
begin

lemma enc_get_many:
  "get_many n dec bs = Ok (xs, rest) \<Longrightarrow>
     length xs = n \<and> (\<forall>x \<in> set xs. wf x) \<and> bs = concat (map enc xs) @ rest"
  by (induction n arbitrary: bs xs) (fastforce dest: enc_dec)+

end

lemma length_put_i16 [simp]: "length (put_i16 w) = 2"
  by (simp add: put_i16_def)

lemma length_put_i32 [simp]: "length (put_i32 w) = 4"
  by (simp add: put_i32_def)

interpretation byte_codec: wire_bijection put_u8 get_u8 "\<lambda>_. True"
proof
  show "get_u8 bs = Ok (c, rest) \<Longrightarrow> True \<and> bs = put_u8 c @ rest" for bs c rest
    by (cases bs) (auto simp: put_u8_def)
qed (simp add: put_u8_def)

lemma word_of_get_be:
  assumes "length bs = n" "LENGTH('a::len) = 8 * n"
  shows "put_be n (unat (of_nat (get_be bs) :: 'a word)) = bs"
proof -
  have "256 ^ n = (2 :: nat) ^ LENGTH('a)" by (simp add: assms(2) power_mult)
  with get_be_less [of bs] assms have "unat (of_nat (get_be bs) :: 'a word) = get_be bs"
    by (simp add: unsigned_of_nat take_bit_eq_mod)
  with put_get_be [OF assms(1)] show ?thesis by simp
qed

lemma get_be_put_word: "LENGTH('a::len) = 8 * n \<Longrightarrow> of_nat (get_be (put_be n (unat (w :: 'a word)))) = w"
proof -
  assume l: "LENGTH('a) = 8 * n"
  have "256 ^ n = (2 :: nat) ^ LENGTH('a)" by (simp add: l power_mult)
  with unat_less_pow [of w] show ?thesis by simp
qed

lemma get_bytes_Ok_iff [simp]: "get_bytes n bs = Ok (b, r) \<longleftrightarrow> bs = b @ r \<and> length b = n"
  by (auto simp: get_bytes_def)

interpretation i16_codec: wire_bijection put_i16 get_i16 "\<lambda>_. True"
  by unfold_locales
     (auto simp: put_i16_def get_i16_def get_be_put_word word_of_get_be simp del: get_put_be)

interpretation i32_codec: wire_bijection put_i32 get_i32 "\<lambda>_. True"
  by unfold_locales
     (auto simp: put_i32_def get_i32_def get_be_put_word word_of_get_be simp del: get_put_be)

text \<open>
  NUL-terminated strings: what \<open>CString\<close> writes for a valid string without NUL, both \<open>read_string\<close>s
  read back.
\<close>

definition put_cstring :: "string \<Rightarrow> bytes" where
  "put_cstring s = s @ [CHR 0x00]"

definition wf_cstring :: "string \<Rightarrow> bool" where
  "wf_cstring s \<longleftrightarrow> utf8 s \<and> CHR 0x00 \<notin> set s"

interpretation cursor_string: wire_codec put_cstring cursor_read_string wf_cstring
  by unfold_locales
     (simp add: put_cstring_def cursor_read_string_def split_at_first_append utf8_def wf_cstring_def)

interpretation buffer_string: wire_codec put_cstring bytes_read_string wf_cstring
  by unfold_locales
     (simp add: put_cstring_def bytes_read_string_def split_at_first_append utf8_def wf_cstring_def)

lemma nul_position_None: "nul_position s = None \<longleftrightarrow> CHR 0x00 \<notin> set s"
  by (induction s) auto

lemma cstring_new_wf [simp]: "CHR 0x00 \<notin> set s \<Longrightarrow> cstring_new s = Ok (put_cstring s)"
  by (simp add: cstring_new_def put_cstring_def nul_position_None [symmetric])

lemma cstring_new_Ok_iff: "cstring_new s = Ok b \<longleftrightarrow> CHR 0x00 \<notin> set s \<and> b = put_cstring s"
  by (auto simp: cstring_new_def put_cstring_def nul_position_None [symmetric] split: option.splits)

lemma length_put_cstring [simp]: "length (put_cstring s) = length s + 1"
  by (simp add: put_cstring_def)

text \<open>A terminated string of valid UTF-8 is read back as it stands in the buffer.\<close>

lemma cursor_read_string_exact:
  "cursor_read_string (s @ CHR 0x00 # rest) = Ok (t, r) \<Longrightarrow> CHR 0x00 \<notin> set s \<Longrightarrow> t = from_utf8_lossy s \<and> r = rest"
  by (simp add: cursor_read_string_def split_at_first_append)

section \<open>Lengths\<close>

text \<open>Sign and sign extension of an \<open>i32\<close> given by its unsigned value.\<close>

lemma mod_wrap: "x < 0 \<Longrightarrow> 0 \<le> x + m \<Longrightarrow> x mod m = x + m" for x m :: int
  using mod_add_self2 [of x m] by (simp del: mod_add_self2)

lemma sint_i32:
  assumes "n < 4294967296"
  shows "sint (of_nat n :: i32) = (if n < 2147483648 then int n else int n - 4294967296)"
proof -
  have "sint (of_nat n :: i32) = (int n + 2147483648) mod 4294967296 - 2147483648"
    by (simp add: signed_of_nat signed_take_bit_eq_take_bit_shift take_bit_eq_mod)
  also have "\<dots> = (if n < 2147483648 then int n else int n - 4294967296)"
  proof (cases "n < 2147483648")
    case False
    then have "(int n + 2147483648) mod 4294967296 = int n + 2147483648 - 4294967296"
      using assms mod_pos_geq [of 4294967296 "int n + 2147483648"] by (simp del: mod_pos_geq)
    with False show ?thesis by simp
  qed simp
  finally show ?thesis .
qed

lemma unat_scast_sint: "unat (scast (w :: i32) :: usize) = nat (sint w mod 18446744073709551616)"
  by (simp only: scast_eq unat_eq_nat_uint uint_word_of_int) simp

lemma unat_scast_i32:
  assumes "n < 4294967296"
  shows "unat (scast (of_nat n :: i32) :: usize) = (if n < 2147483648 then n else n + 18446744069414584320)"
proof -
  have "(int n - 4294967296) mod 18446744073709551616 = int n + 18446744069414584320"
    by (subst mod_wrap) (use assms in simp_all)
  with assms show ?thesis by (simp add: unat_scast_sint sint_i32 nat_add_distrib)
qed

lemma i32_frame_length:
  assumes "\<not> sint (len :: i32) < 4"
  shows "unat len < 2147483648" "4 \<le> unat len"
proof -
  define n where "n = unat len"
  have "n < 4294967296" "len = of_nat n" using unat_less_pow [of len] by (simp_all add: n_def)
  with sint_i32 [of n] assms have "n < 2147483648 \<and> 4 \<le> n" by (auto split: if_splits)
  then show "unat len < 2147483648" "4 \<le> unat len" by (simp_all add: n_def)
qed

lemma put_i32_inj [simp]: "put_i32 a = put_i32 b \<longleftrightarrow> a = b"
  using i32_codec.enc_inj by blast

lemma unat_of_nat_small: "n < 2147483648 \<Longrightarrow> unat (of_nat n :: i32) = n"
  by (simp add: unsigned_of_nat take_bit_eq_mod)

lemma stream_read_i32_put [simp]:
  "rd_input s = put_i32 len @ rest \<Longrightarrow> stream_read_i32 s = (Ok len, s\<lparr>rd_input := rest\<rparr>)"
  by (simp add: stream_read_i32_def stream_read_exact_def put_i32_def get_be_put_word del: get_put_be)

section \<open>Framed messages\<close>

text \<open>A tag, the length of what follows with the length itself, and the body.\<close>

definition frame :: "byte \<Rightarrow> bytes \<Rightarrow> bytes" where
  "frame tag body = tag # put_i32 (of_nat (length body) + 4) @ body"

definition framed :: "bytes \<Rightarrow> bool" where
  "framed m \<longleftrightarrow> (\<exists>tag body. m = frame tag body \<and> length body + 4 < 2147483648)"

lemma framedI [intro]: "length body + 4 < 2147483648 \<Longrightarrow> framed (frame tag body)"
  by (auto simp: framed_def)

lemma put_u8_append [simp]: "put_u8 c @ bs = c # bs"
  by (simp add: put_u8_def)

end
