(* ===== verification/Messages.thy ===== *)
theory Messages
  imports Wire
begin

text \<open>
  \<open>src/src/messages.rs\<close> and \<open>src/src/constants.rs\<close>: the one-off protocol messages, the startup
  parameters, the MD5 password hashes, and the parser of error responses.  A function that returns
  a \<open>BytesMut\<close> is a byte list; one that writes to a stream is a computation on the stream.  The MD5
  digest is an argument, the salt of \<open>md5_challenge\<close> (random in the source) as well.
\<close>

section \<open>Constants\<close>

definition PROTOCOL_VERSION_NUMBER :: i32 where "PROTOCOL_VERSION_NUMBER = 196608"
definition SSL_REQUEST_CODE :: i32 where "SSL_REQUEST_CODE = 80877103"
definition CANCEL_REQUEST_CODE :: i32 where "CANCEL_REQUEST_CODE = 80877102"
definition MD5_ENCRYPTED_PASSWORD :: i32 where "MD5_ENCRYPTED_PASSWORD = 5"
definition SASL :: i32 where "SASL = 10"
definition SASL_CONTINUE :: i32 where "SASL_CONTINUE = 11"
definition SASL_FINAL :: i32 where "SASL_FINAL = 12"
definition SCRAM_SHA_256 :: string where "SCRAM_SHA_256 = ''SCRAM-SHA-256''"
definition NONCE_LENGTH :: nat where "NONCE_LENGTH = 24"
definition AUTHENTICATION_SUCCESSFUL :: i32 where "AUTHENTICATION_SUCCESSFUL = 0"
definition MESSAGE_TERMINATOR :: byte where "MESSAGE_TERMINATOR = CHR 0x00"

section \<open>Writing to a stream\<close>

definition socket_error :: "string \<Rightarrow> string \<Rightarrow> error" where
  "socket_error what err = SocketError (what @ err)"

definition write_all :: "bytes \<Rightarrow> (stream, unit) act" where
  "write_all buf = act_io (stream_write_all buf) (socket_error ''Error writing to socket - Error: '')"

definition write_all_half :: "bytes \<Rightarrow> (stream, unit) act" where
  "write_all_half buf = act_io (stream_write_all buf) (socket_error ''Error writing to socket - Error: '')"

definition write_all_flush :: "bytes \<Rightarrow> (stream, unit) act" where
  "write_all_flush buf =
     act_bind (act_io (stream_write_all buf) (socket_error ''Error writing to socket - Error: ''))
       (\<lambda>_. act_io stream_flush (socket_error ''Error flushing socket - Error: ''))"

section \<open>Messages\<close>

datatype data_type = Text | Int4 | Numeric | Bool | Oid | AnyArray | Any

fun data_type_oid :: "data_type \<Rightarrow> i32" where
  "data_type_oid Text = 25"
| "data_type_oid Int4 = 23"
| "data_type_oid Numeric = 1700"
| "data_type_oid Bool = 16"
| "data_type_oid Oid = 26"
| "data_type_oid AnyArray = 2277"
| "data_type_oid Any = 2276"

definition ready_for_query :: "bool \<Rightarrow> bytes" where
  "ready_for_query in_transaction =
     put_u8 CHR ''Z'' @ put_i32 5 @ put_u8 (if in_transaction then CHR ''T'' else CHR ''I'')"

definition auth_ok :: "(stream, unit) act" where
  "auth_ok = write_all (put_u8 CHR ''R'' @ put_i32 8 @ put_i32 0)"

definition md5_challenge :: "bytes \<Rightarrow> (stream, bytes) act" where
  "md5_challenge salt =
     act_bind (write_all (put_u8 CHR ''R'' @ put_i32 12 @ put_i32 5 @ salt)) (\<lambda>_. act_return salt)"

definition backend_key_data :: "i32 \<Rightarrow> i32 \<Rightarrow> (stream, unit) act" where
  "backend_key_data backend_id secret_key =
     write_all (''K'' @ put_i32 12 @ put_i32 backend_id @ put_i32 secret_key)"

definition simple_query :: "string \<Rightarrow> bytes" where
  "simple_query query =
     (let query = query @ [CHR 0x00]
      in ''Q'' @ put_i32 (of_nat (length query) + 4) @ query)"

definition send_ready_for_query :: "(stream, unit) act" where
  "send_ready_for_query = write_all (ready_for_query False)"

definition startup :: "string \<Rightarrow> string \<Rightarrow> (stream, unit) act" where
  "startup user database =
     (let bytes = put_i32 196608
            @ (''user'' @ [CHR 0x00]) @ user @ put_u8 CHR 0x00
            @ (''application_name'' @ [CHR 0x00]) @ (''pgcat'' @ [CHR 0x00])
            @ (''database'' @ [CHR 0x00]) @ database @ put_u8 CHR 0x00
            @ put_u8 CHR 0x00;
          len = of_nat (length bytes) + 4
      in act_io (stream_write_all (put_i32 len @ bytes))
           (socket_error ''Error writing startup to server socket - Error: ''))"

definition ssl_request :: "(stream, unit) act" where
  "ssl_request =
     act_io (stream_write_all (put_i32 8 @ put_i32 80877103))
       (socket_error ''Error writing SSLRequest to server socket - Error: '')"

text \<open>
  \<open>parse_params\<close>: \<open>read_param\<close> is the inner loop with its first \<open>get_u8\<close>; the pairs are inserted
  from left to right.
\<close>

fun read_param :: "string \<Rightarrow> bytes \<Rightarrow> (string \<times> bytes) result" where
  "read_param tmp [] = Panic"
| "read_param tmp (c # bytes) =
     (if c = CHR 0x00 then Ok (tmp, bytes) else read_param (tmp @ push_latin1 c) bytes)"

lemma read_param_length: "read_param tmp bytes = Ok (s, rest) \<Longrightarrow> length rest < length bytes"
  by (induction tmp bytes rule: read_param.induct) (auto split: if_splits)

function param_strings :: "bytes \<Rightarrow> string list result" where
  "param_strings bytes =
     (if bytes = [] then Ok []
      else rbind (read_param [] bytes) (\<lambda>(tmp, rest).
           rbind (param_strings rest) (\<lambda>buf. Ok (if tmp \<noteq> [] then tmp # buf else buf))))"
  by pat_completeness auto
termination
  by (relation "measure length") (auto dest: read_param_length)

declare param_strings.simps [simp del]

fun insert_pairs :: "string list \<Rightarrow> (string \<rightharpoonup> string) \<Rightarrow> (string \<rightharpoonup> string)" where
  "insert_pairs (name # value # buf) result = insert_pairs buf (result(name \<mapsto> value))"
| "insert_pairs _ result = result"

definition parse_params :: "bytes \<Rightarrow> (string \<rightharpoonup> string) result" where
  "parse_params bytes =
     rbind (param_strings bytes) (\<lambda>buf.
       if length buf mod 2 \<noteq> 0 \<or> length buf < 2 then Err ClientBadStartup
       else Ok (insert_pairs buf Map.empty))"

definition parse_startup :: "bytes \<Rightarrow> (string \<rightharpoonup> string) result" where
  "parse_startup bytes =
     rbind (parse_params bytes) (\<lambda>result.
       if result ''user'' = None then Err ClientBadStartup else Ok result)"

definition md5_hash_second_pass :: "(bytes \<Rightarrow> bytes) \<Rightarrow> string \<Rightarrow> bytes \<Rightarrow> bytes" where
  "md5_hash_second_pass md5 hash salt = ''md5'' @ lower_hex (md5 (hash @ salt)) @ [CHR 0x00]"

definition md5_hash_password :: "(bytes \<Rightarrow> bytes) \<Rightarrow> string \<Rightarrow> string \<Rightarrow> bytes \<Rightarrow> bytes" where
  "md5_hash_password md5 user password salt =
     (let output = md5 (password @ user)
      in md5_hash_second_pass md5 (lower_hex output) salt)"

definition md5_password :: "(bytes \<Rightarrow> bytes) \<Rightarrow> string \<Rightarrow> string \<Rightarrow> bytes \<Rightarrow> (stream, unit) act" where
  "md5_password md5 user password salt =
     (let password = md5_hash_password md5 user password salt
      in write_all (put_u8 CHR ''p'' @ put_i32 (of_nat (length password) + 4) @ password))"

definition md5_password_with_hash :: "(bytes \<Rightarrow> bytes) \<Rightarrow> string \<Rightarrow> bytes \<Rightarrow> (stream, unit) act" where
  "md5_password_with_hash md5 hash salt =
     (let password = md5_hash_second_pass md5 hash salt
      in write_all (put_u8 CHR ''p'' @ put_i32 (of_nat (length password) + 4) @ password))"

definition custom_protocol_response_ok :: "string \<Rightarrow> (stream, unit) act" where
  "custom_protocol_response_ok message =
     (let set_complete = message @ [CHR 0x00];
          len = of_nat (length set_complete + 4)
      in act_bind (write_all_half (put_u8 CHR ''C'' @ put_i32 len @ set_complete))
           (\<lambda>_. send_ready_for_query))"

definition error_response_terminal :: "string \<Rightarrow> (stream, unit) act" where
  "error_response_terminal message =
     (let error = put_u8 CHR ''S'' @ (''FATAL'' @ [CHR 0x00])
            @ put_u8 CHR ''V'' @ (''FATAL'' @ [CHR 0x00])
            @ put_u8 CHR ''C'' @ (''58000'' @ [CHR 0x00])
            @ put_u8 CHR ''M'' @ (message @ [CHR 0x00])
            @ put_u8 CHR 0x00
      in write_all_half (put_u8 CHR ''E'' @ put_i32 (of_nat (length error) + 4) @ error))"

definition error_response :: "string \<Rightarrow> (stream, unit) act" where
  "error_response message = act_bind (error_response_terminal message) (\<lambda>_. send_ready_for_query)"

definition wrong_password :: "string \<Rightarrow> (stream, unit) act" where
  "wrong_password user =
     (let error = put_u8 CHR ''S'' @ (''FATAL'' @ [CHR 0x00])
            @ put_u8 CHR ''V'' @ (''FATAL'' @ [CHR 0x00])
            @ put_u8 CHR ''C'' @ (''28P01'' @ [CHR 0x00])
            @ put_u8 CHR ''M''
            @ (''password authentication failed for user '' @ [CHR 0x22] @ user @ [CHR 0x22] @ [CHR 0x00])
            @ put_u8 CHR 0x00
      in write_all (put_u8 CHR ''E'' @ put_i32 (of_nat (length error) + 4) @ error))"

definition type_size :: "data_type \<Rightarrow> i16" where
  "type_size t =
     (case t of Text \<Rightarrow> - 1 | Int4 \<Rightarrow> 4 | Numeric \<Rightarrow> - 1 | Bool \<Rightarrow> 1 | Oid \<Rightarrow> 4
      | AnyArray \<Rightarrow> - 1 | Any \<Rightarrow> - 1)"

definition row_description :: "(string \<times> data_type) list \<Rightarrow> bytes" where
  "row_description columns =
     (let row_desc = put_i16 (of_nat (length columns)) @
            concat (map (\<lambda>(name, data_type).
              (name @ [CHR 0x00]) @ put_i32 0 @ put_i16 0 @ put_i32 (data_type_oid data_type)
              @ put_i16 (type_size data_type) @ put_i32 (- 1) @ put_i16 0) columns)
      in put_u8 CHR ''T'' @ put_i32 (of_nat (length row_desc) + 4) @ row_desc)"

definition data_row :: "string list \<Rightarrow> bytes" where
  "data_row row =
     (let data_row = put_i16 (of_nat (length row)) @
            concat (map (\<lambda>column. put_i32 (of_nat (length column)) @ column) row)
      in put_u8 CHR ''D'' @ put_i32 (of_nat (length data_row) + 4) @ data_row)"

definition data_row_nullable :: "string option list \<Rightarrow> bytes" where
  "data_row_nullable row =
     (let data_row = put_i16 (of_nat (length row)) @
            concat (map (\<lambda>column. case column of
                Some column \<Rightarrow> put_i32 (of_nat (length column)) @ column
              | None \<Rightarrow> put_i32 (- 1)) row)
      in put_u8 CHR ''D'' @ put_i32 (of_nat (length data_row) + 4) @ data_row)"

definition command_complete :: "string \<Rightarrow> bytes" where
  "command_complete command =
     (let cmd = command @ [CHR 0x00]
      in put_u8 CHR ''C'' @ put_i32 (of_nat (length cmd) + 4) @ cmd)"

definition show_response :: "string \<Rightarrow> string \<Rightarrow> (stream, unit) act" where
  "show_response name value =
     (let res = row_description [(name, Text)] @ data_row [value] @ command_complete ''SELECT 1''
      in act_bind (write_all_half res) (\<lambda>_. send_ready_for_query))"

definition notify :: "string \<Rightarrow> string \<Rightarrow> bytes" where
  "notify message details =
     (let notify_cmd = (''SNOTICE'' @ [CHR 0x00]) @ (''C00000'' @ [CHR 0x00])
            @ (''M'' @ message @ [CHR 0x00]) @ (''D'' @ details @ [CHR 0x00]) @ put_u8 CHR 0x00
      in put_u8 CHR ''N'' @ put_i32 (of_nat (length notify_cmd) + 4) @ notify_cmd)"

definition flush :: bytes where
  "flush = put_u8 CHR ''H'' @ put_i32 4"

definition sync :: bytes where
  "sync = put_u8 CHR ''S'' @ put_i32 4"

definition parse_complete :: bytes where
  "parse_complete = put_u8 CHR ''1'' @ put_i32 4"

definition close_complete :: bytes where
  "close_complete = put_u8 CHR ''3'' @ put_i32 4"

text \<open>\<open>len.try_into().unwrap()\<close> panics on a length that is not an \<open>i32\<close>.\<close>

definition server_parameter_message :: "string \<Rightarrow> string \<Rightarrow> bytes result" where
  "server_parameter_message key val =
     (let null_byte_size = 1;
          len = 4 + length key + null_byte_size + length val + null_byte_size
      in if 2147483647 < len then Panic
         else Ok (''S'' @ put_i32 (of_nat len) @ key @ [CHR 0x00] @ val @ [CHR 0x00]))"

section \<open>Reading a message\<close>

definition resize :: "bytes \<Rightarrow> nat \<Rightarrow> byte \<Rightarrow> bytes" where
  "resize bs n c = take n bs @ replicate (n - length bs) c"

text \<open>
  \<open>BytesMut::with_capacity\<close> panics above \<open>isize::MAX\<close>.  The \<open>usize\<close> arithmetic on the sign-extended
  length wraps.
\<close>

definition read_message :: "(stream, bytes) act" where
  "read_message =
     act_bind (act_io stream_read_u8 (socket_error ''Error reading message code from socket - Error '')) (\<lambda>code.
     act_bind (act_io stream_read_i32
       (socket_error (''Error reading message len from socket - Code: '' @ show_nat (of_char code) @ '', Error: ''))) (\<lambda>len.
     if 9223372036854775807 < unat (scast len + 1 :: usize) then act_lift Panic
     else
       let bytes = put_u8 code @ put_i32 len;
           bytes = resize bytes (unat (of_nat (length bytes) + scast len - 4 :: usize)) CHR ''0'';
           slice_start = 1 + 4 :: usize;
           slice_end = slice_start + scast len - 4
       in if slice_end < slice_start
          then act_lift (Err (SocketError (''Error reading message from socket - Code: '' @ show_nat (of_char code)
                 @ '' - Length '' @ show_int (sint len) @ '', Error: '' @ [CHR 0x22]
                 @ ''Unexpected length value for message'' @ [CHR 0x22])))
          else
            act_bind (act_io (stream_read_exact (unat (slice_end - slice_start)))
              (socket_error (''Error reading message from socket - Code: '' @ show_nat (of_char code) @ '', Error: '')))
              (\<lambda>body. act_return (take (unat slice_start) bytes @ body))))"

section \<open>Error responses\<close>

record pg_error_msg =
  em_severity_localized :: string
  em_severity :: string
  em_code :: string
  em_message :: string
  em_detail :: "string option"
  em_hint :: "string option"
  em_position :: "u32 option"
  em_internal_position :: "u32 option"
  em_internal_query :: "string option"
  em_where_context :: "string option"
  em_schema_name :: "string option"
  em_table_name :: "string option"
  em_column_name :: "string option"
  em_data_type_name :: "string option"
  em_constraint_name :: "string option"
  em_file_name :: "string option"
  em_line :: "u32 option"
  em_routine :: "string option"

definition show_field :: "string \<Rightarrow> string option \<Rightarrow> string" where
  "show_field label val = (case val of None \<Rightarrow> [] | Some v \<Rightarrow> ''['' @ label @ '': '' @ v @ '']'')"

definition show_u32_field :: "string \<Rightarrow> u32 option \<Rightarrow> string" where
  "show_u32_field label val = show_field label (map_option (\<lambda>v. show_nat (unat v)) val)"

definition pg_error_msg_display :: "pg_error_msg \<Rightarrow> string" where
  "pg_error_msg_display m =
     show_field ''severity'' (Some (em_severity m)) @ show_field ''code'' (Some (em_code m))
     @ show_field ''message'' (Some (em_message m))
     @ show_field ''detail'' (em_detail m) @ show_field ''hint'' (em_hint m)
     @ show_u32_field ''position'' (em_position m)
     @ show_u32_field ''internal_position'' (em_internal_position m)
     @ show_field ''internal_query'' (em_internal_query m)
     @ show_field ''internal_query'' (em_internal_query m)
     @ show_field ''where'' (em_where_context m)
     @ show_field ''schema_name'' (em_schema_name m) @ show_field ''table_name'' (em_table_name m)
     @ show_field ''column_name'' (em_column_name m)
     @ show_field ''data_type_name'' (em_data_type_name m)
     @ show_field ''constraint_name'' (em_constraint_name m)
     @ show_field ''file_name'' (em_file_name m) @ show_u32_field ''line'' (em_line m)
     @ show_field ''routine'' (em_routine m) @ '' ''"

definition pg_error_msg_empty :: pg_error_msg where
  "pg_error_msg_empty =
     \<lparr> em_severity_localized = [], em_severity = [], em_code = [], em_message = [], em_detail = None,
       em_hint = None, em_position = None, em_internal_position = None, em_internal_query = None,
       em_where_context = None, em_schema_name = None, em_table_name = None, em_column_name = None,
       em_data_type_name = None, em_constraint_name = None, em_file_name = None, em_line = None,
       em_routine = None \<rparr>"

definition parse_u32_or_0 :: "string \<Rightarrow> u32" where
  "parse_u32_or_0 s = (case parse_u32 s of Some n \<Rightarrow> n | None \<Rightarrow> 0)"

definition set_error_field :: "byte \<Rightarrow> string \<Rightarrow> pg_error_msg \<Rightarrow> pg_error_msg" where
  "set_error_field kind msg_content out =
     (if kind = CHR ''S'' then out\<lparr>em_severity_localized := msg_content\<rparr>
      else if kind = CHR ''V'' then out\<lparr>em_severity := msg_content\<rparr>
      else if kind = CHR ''C'' then out\<lparr>em_code := msg_content\<rparr>
      else if kind = CHR ''M'' then out\<lparr>em_message := msg_content\<rparr>
      else if kind = CHR ''D'' then out\<lparr>em_detail := Some msg_content\<rparr>
      else if kind = CHR ''H'' then out\<lparr>em_hint := Some msg_content\<rparr>
      else if kind = CHR ''P'' then out\<lparr>em_position := Some (parse_u32_or_0 msg_content)\<rparr>
      else if kind = CHR ''p'' then out\<lparr>em_internal_position := Some (parse_u32_or_0 msg_content)\<rparr>
      else if kind = CHR ''q'' then out\<lparr>em_internal_query := Some msg_content\<rparr>
      else if kind = CHR ''W'' then out\<lparr>em_where_context := Some msg_content\<rparr>
      else if kind = CHR ''s'' then out\<lparr>em_schema_name := Some msg_content\<rparr>
      else if kind = CHR ''t'' then out\<lparr>em_table_name := Some msg_content\<rparr>
      else if kind = CHR ''c'' then out\<lparr>em_column_name := Some msg_content\<rparr>
      else if kind = CHR ''d'' then out\<lparr>em_data_type_name := Some msg_content\<rparr>
      else if kind = CHR ''n'' then out\<lparr>em_constraint_name := Some msg_content\<rparr>
      else if kind = CHR ''F'' then out\<lparr>em_file_name := Some msg_content\<rparr>
      else if kind = CHR ''L'' then out\<lparr>em_line := Some (parse_u32_or_0 msg_content)\<rparr>
      else if kind = CHR ''R'' then out\<lparr>em_routine := Some msg_content\<rparr>
      else out)"

text \<open>The loop over the pieces between terminators; \<open>String::parse\<close> into a \<open>String\<close> never fails.\<close>

fun parse_error_fields :: "bytes list \<Rightarrow> pg_error_msg \<Rightarrow> pg_error_msg" where
  "parse_error_fields [] out = out"
| "parse_error_fields ([] # parts) out = parse_error_fields parts out"
| "parse_error_fields ((kind # content) # parts) out =
     parse_error_fields parts (set_error_field kind (from_utf8_lossy content) out)"

definition pg_error_msg_parse :: "bytes \<Rightarrow> pg_error_msg result" where
  "pg_error_msg_parse error_msg =
     Ok (parse_error_fields (split_on MESSAGE_TERMINATOR error_msg) pg_error_msg_empty)"

section \<open>Reading framed messages\<close>

text \<open>The \<open>usize\<close> computations of \<open>read_message\<close>, by the sign of the length.\<close>

lemma read_message_arith:
  fixes len :: i32
  shows "9223372036854775807 < unat (scast len + 1 :: usize) \<longleftrightarrow> sint len < - 1"
    and "\<not> sint len < - 1 \<Longrightarrow> scast len + 1 < (5 :: usize) \<longleftrightarrow> sint len < 4"
    and "\<not> sint len < 4 \<Longrightarrow> unat (scast len - 4 :: usize) = unat len - 4"
    and "\<not> sint len < 4 \<Longrightarrow> unat (scast len + 1 :: usize) = unat len + 1"
proof -
  define n where "n = unat len"
  have len: "len = of_nat n" and u: "n < 4294967296" using unat_less_pow [of len] by (simp_all add: n_def)
  have s: "sint len = (if n < 2147483648 then int n else int n - 4294967296)"
    using u by (simp add: len sint_i32)
  have c: "unat (scast len + 1 :: usize) =
      (if n < 2147483648 then n + 1 else if n = 4294967295 then 0 else n + 18446744069414584321)"
    using u by (simp add: len unat_word_ariths unat_scast_i32)
  show "9223372036854775807 < unat (scast len + 1 :: usize) \<longleftrightarrow> sint len < - 1"
    using u unfolding c s by auto
  show "\<not> sint len < - 1 \<Longrightarrow> scast len + 1 < (5 :: usize) \<longleftrightarrow> sint len < 4"
    using u unfolding word_less_nat_alt c s by (auto split: if_splits)
  assume "\<not> sint len < 4"
  with s u have n: "4 \<le> n" "n < 2147483648" by (auto split: if_splits)
  then show k: "unat (scast len + 1 :: usize) = unat len + 1"
    by (simp add: c n_def)
  have "scast len - 4 = (scast len + 1 - 5 :: usize)" by simp
  also have "unat \<dots> = unat (scast len + 1 :: usize) - unat (5 :: usize)"
    by (rule unat_sub) (use n k in \<open>simp add: word_le_nat_alt n_def\<close>)
  finally show "unat (scast len - 4 :: usize) = unat len - 4" using k by simp
qed


definition bad_length :: "byte \<Rightarrow> i32 \<Rightarrow> error" where
  "bad_length code len = SocketError (''Error reading message from socket - Code: '' @ show_nat (of_char code)
     @ '' - Length '' @ show_int (sint len) @ '', Error: '' @ [CHR 0x22]
     @ ''Unexpected length value for message'' @ [CHR 0x22])"

lemma read_message_split:
  assumes "rd_input s = c # put_i32 len @ rest"
  shows "read_message s =
    (if sint len < - 1 then (Panic, s\<lparr>rd_input := rest\<rparr>)
     else if sint len < 4 then (Err (bad_length c len), s\<lparr>rd_input := rest\<rparr>)
     else if unat len - 4 \<le> length rest
     then (Ok (c # put_i32 len @ take (unat len - 4) rest), s\<lparr>rd_input := drop (unat len - 4) rest\<rparr>)
     else (Err (socket_error (''Error reading message from socket - Code: '' @ show_nat (of_char c) @ '', Error: '') (rd_error s)),
           s\<lparr>rd_input := []\<rparr>))"
proof -
  have r: "act_io stream_read_u8 g s = (Ok c, s\<lparr>rd_input := put_i32 len @ rest\<rparr>)" for g
    using assms by (simp add: stream_read_u8_def)
  have e: "5 + scast len - 4 = (scast len + 1 :: usize)" by simp
  show ?thesis
  proof (cases "sint len < 4")
    case True
    then show ?thesis
      by (auto simp: read_message_def r read_message_arith e bad_length_def act_lift_def Let_def)
  next
    case False
    note l = i32_frame_length [OF False]
    have b: "take 5 (resize (c # put_i32 len) (Suc (unat len)) x) = c # put_i32 len" for x
      using l by (simp add: resize_def)
    show ?thesis
      using False l
      by (auto simp: read_message_def r read_message_arith e Let_def put_u8_def b stream_read_exact_def)
  qed
qed

lemma stream_short:
  assumes "length (rd_input s) < 5"
  shows "\<exists>e s'. read_message s = (Err e, s')"
proof (cases "rd_input s")
  case Nil
  then show ?thesis by (simp add: read_message_def stream_read_u8_def act_bind_def act_io_def)
next
  case (Cons c r)
  with assms show ?thesis
    by (simp add: read_message_def stream_read_u8_def act_bind_def act_io_def stream_read_i32_def stream_read_exact_def)
qed

lemma split_header:
  assumes "\<not> length bs < 5"
  obtains c len rest where "bs = c # put_i32 len @ rest"
proof -
  from assms obtain c r where c: "bs = c # r" "4 \<le> length r" by (cases bs) auto
  then have "r = put_i32 (of_nat (get_be (take 4 r))) @ drop 4 r"
    by (simp add: put_i32_def word_of_get_be)
  with c that show ?thesis by metis
qed

lemma of_nat_unat_sub4: "4 \<le> unat (len :: i32) \<Longrightarrow> of_nat (unat len - 4) + 4 = len"
  by (simp add: of_nat_diff)

lemma read_message_Ok_iff:
  "read_message s = (Ok m, t) \<longleftrightarrow>
     (\<exists>tag body rest. rd_input s = m @ rest \<and> m = frame tag body \<and> length body + 4 < 2147483648
        \<and> t = s\<lparr>rd_input := rest\<rparr>)" (is "?L \<longleftrightarrow> ?R")
proof
  assume L: ?L
  then have "\<not> length (rd_input s) < 5" using stream_short by fastforce
  then obtain c len rest where i: "rd_input s = c # put_i32 len @ rest" by (rule split_header)
  with L have l: "\<not> sint len < 4" and b: "unat len - 4 \<le> length rest"
    and m: "m = c # put_i32 len @ take (unat len - 4) rest" "t = s\<lparr>rd_input := drop (unat len - 4) rest\<rparr>"
    by (auto simp: read_message_split split: if_splits)
  have "m = frame c (take (unat len - 4) rest)"
    using b i32_frame_length(2) [OF l] by (simp add: m frame_def min_absorb2 of_nat_unat_sub4)
  moreover have "rd_input s = m @ drop (unat len - 4) rest" by (simp add: i m)
  moreover have "length (take (unat len - 4) rest) + 4 < 2147483648"
    using i32_frame_length [OF l] by simp
  ultimately show ?R using m by blast
next
  assume ?R
  then obtain tag body rest where i: "rd_input s = m @ rest" and m: "m = frame tag body"
    and b: "length body + 4 < 2147483648" and t: "t = s\<lparr>rd_input := rest\<rparr>" by blast
  define len :: i32 where "len = of_nat (length body + 4)"
  have l: "sint len = int (length body + 4)" "unat len = length body + 4"
    using b sint_i32 [of "length body + 4"]
    unfolding len_def by (simp_all only: unat_of_nat_small) simp_all
  have "of_nat (length body) + 4 = len" by (simp add: len_def)
  then have "rd_input s = tag # put_i32 len @ body @ rest" using i m by (simp add: frame_def)
  from read_message_split [OF this] show ?L
    using l m t \<open>of_nat (length body) + 4 = len\<close> by (simp add: frame_def)
qed

lemma read_message_Panic_iff:
  "fst (read_message s) = Panic \<longleftrightarrow> (\<exists>tag len rest. rd_input s = tag # put_i32 len @ rest \<and> sint len < - 1)"
proof (cases "length (rd_input s) < 5")
  case True
  with stream_short [OF True] show ?thesis by fastforce
next
  case False
  then obtain c len rest where "rd_input s = c # put_i32 len @ rest" by (rule split_header)
  then show ?thesis
    by (auto simp: read_message_split)
qed

lemma read_message_framed: "framed m \<Longrightarrow> rd_input s = m @ rest \<Longrightarrow> read_message s = (Ok m, s\<lparr>rd_input := rest\<rparr>)"
  unfolding read_message_Ok_iff framed_def by blast

text \<open>A builder of framed messages: the reader gives back the message, whatever follows it.\<close>

locale framed_message =
  fixes msg :: "'a \<Rightarrow> bytes" and tag :: byte and body :: "'a \<Rightarrow> bytes"
  assumes msg_frame: "msg x = frame tag (body x)"
begin

lemma read_back:
  "length (body x) + 4 < 2147483648 \<Longrightarrow> rd_input s = msg x @ rest \<Longrightarrow>
     read_message s = (Ok (msg x), s\<lparr>rd_input := rest\<rparr>)"
  by (rule read_message_framed) (auto simp: msg_frame)

lemma framed_msg: "length (body x) + 4 < 2147483648 \<Longrightarrow> framed (msg x)"
  by (auto simp: msg_frame)

lemma length_msg: "length (msg x) = length (body x) + 5"
  by (simp add: msg_frame frame_def)

lemma drop_header: "drop 5 (msg x) = body x"
  by (simp add: msg_frame frame_def)

end

interpretation simple_query: framed_message simple_query "CHR ''Q''" "\<lambda>q. q @ [CHR 0x00]"
  by unfold_locales (simp add: simple_query_def frame_def)

interpretation ready_for_query: framed_message ready_for_query "CHR ''Z''" "\<lambda>b. [if b then CHR ''T'' else CHR ''I'']"
  by unfold_locales (simp add: ready_for_query_def frame_def put_u8_def)

interpretation command_complete: framed_message command_complete "CHR ''C''" "\<lambda>c. c @ [CHR 0x00]"
  by unfold_locales (simp add: command_complete_def frame_def)

interpretation row_description: framed_message row_description "CHR ''T''" "\<lambda>c. drop 5 (row_description c)"
  by unfold_locales (simp add: row_description_def frame_def Let_def)

interpretation data_row: framed_message data_row "CHR ''D''" "\<lambda>r. drop 5 (data_row r)"
  by unfold_locales (simp add: data_row_def frame_def Let_def)

interpretation data_row_nullable: framed_message data_row_nullable "CHR ''D''" "\<lambda>r. drop 5 (data_row_nullable r)"
  by unfold_locales (simp add: data_row_nullable_def frame_def Let_def)

interpretation notify: framed_message "\<lambda>(m, d). notify m d" "CHR ''N''" "\<lambda>(m, d). drop 5 (notify m d)"
  by unfold_locales (auto simp: notify_def frame_def Let_def)

interpretation flush: framed_message "\<lambda>_. flush" "CHR ''H''" "\<lambda>_. []"
  by unfold_locales (simp add: flush_def frame_def)

interpretation sync: framed_message "\<lambda>_. sync" "CHR ''S''" "\<lambda>_. []"
  by unfold_locales (simp add: sync_def frame_def)

interpretation parse_complete: framed_message "\<lambda>_. parse_complete" "CHR ''1''" "\<lambda>_. []"
  by unfold_locales (simp add: parse_complete_def frame_def)

interpretation close_complete: framed_message "\<lambda>_. close_complete" "CHR ''3''" "\<lambda>_. []"
  by unfold_locales (simp add: close_complete_def frame_def)

text \<open>Error responses as byte lists.\<close>

definition error_fields :: "string \<Rightarrow> (byte \<times> bytes) list" where
  "error_fields message = [(CHR ''S'', ''FATAL''), (CHR ''V'', ''FATAL''), (CHR ''C'', ''58000''), (CHR ''M'', message)]"

definition put_fields :: "(byte \<times> bytes) list \<Rightarrow> bytes" where
  "put_fields fs = concat (map (\<lambda>(k, v). k # v @ [CHR 0x00]) fs)"

lemma put_fields_simps [simp]:
  "put_fields [] = []" "put_fields ((k, v) # fs) = k # v @ CHR 0x00 # put_fields fs"
  by (simp_all add: put_fields_def)

lemma error_response_terminal_frame:
  "error_response_terminal message = write_all_half (frame CHR ''E'' (put_fields (error_fields message) @ [CHR 0x00]))"
  by (simp add: error_response_terminal_def Let_def frame_def error_fields_def put_u8_def)

lemma parse_error_fields_put:
  "\<forall>(k, v) \<in> set fs. k \<noteq> CHR 0x00 \<and> CHR 0x00 \<notin> set v \<Longrightarrow>
   parse_error_fields (split_on (CHR 0x00) (put_fields fs @ rest)) out =
   parse_error_fields (split_on (CHR 0x00) rest) (fold (\<lambda>(k, v). set_error_field k (from_utf8_lossy v)) fs out)"
proof (induction fs arbitrary: out)
  case (Cons f fs)
  obtain k v where f: "f = (k, v)" by force
  with Cons.prems have "CHR 0x00 \<notin> set (k # v)" by auto
  from split_on_append_sep [OF this, of "put_fields fs @ rest"] Cons f
  show ?case by simp
qed simp

lemma parse_error_put_fields:
  assumes "\<forall>(k, v) \<in> set fs. k \<noteq> CHR 0x00 \<and> CHR 0x00 \<notin> set v"
  shows "pg_error_msg_parse (put_fields fs @ [CHR 0x00]) =
     Ok (fold (\<lambda>(k, v). set_error_field k (from_utf8_lossy v)) fs pg_error_msg_empty)"
  using parse_error_fields_put [OF assms, of "[CHR 0x00]" pg_error_msg_empty]
  by (simp add: pg_error_msg_parse_def MESSAGE_TERMINATOR_def)

text \<open>The value a field ends up with: the last one with its tag, or the initial value.\<close>

definition last_field :: "byte \<Rightarrow> (byte \<times> bytes) list \<Rightarrow> bytes option" where
  "last_field k fs = map_option from_utf8_lossy (map_of (rev fs) k)"

lemma last_field_Cons:
  "last_field k ((k', v) # fs) = (case last_field k fs of None \<Rightarrow> if k = k' then Some (from_utf8_lossy v) else None | r \<Rightarrow> r)"
  by (auto simp: last_field_def map_add_def split: option.splits)

lemma fold_error_field:
  assumes "\<And>k v out. f (set_error_field k v out) = (if k = K then g v else f out)"
  shows "f (fold (\<lambda>(k, v). set_error_field k (from_utf8_lossy v)) fs out)
    = (case last_field K fs of None \<Rightarrow> f out | Some v \<Rightarrow> g v)"
proof (induction fs arbitrary: out)
  case Nil
  then show ?case by (simp add: last_field_def)
next
  case (Cons p fs)
  obtain k v where "p = (k, v)" by force
  with Cons show ?case by (simp add: last_field_Cons assms split: option.split)
qed

lemma error_field_selectors:
  "em_severity (set_error_field k v out) = (if k = CHR ''V'' then v else em_severity out)"
  "em_code (set_error_field k v out) = (if k = CHR ''C'' then v else em_code out)"
  "em_message (set_error_field k v out) = (if k = CHR ''M'' then v else em_message out)"
  by (simp_all add: set_error_field_def)

lemmas fold_error_fields = error_field_selectors [THEN fold_error_field]


text \<open>The peer that reads \<open>n\<close> messages.\<close>

fun read_messages :: "nat \<Rightarrow> (stream, bytes list) act" where
  "read_messages 0 = act_return []"
| "read_messages (Suc n) = act_bind read_message (\<lambda>m. act_bind (read_messages n) (\<lambda>ms. act_return (m # ms)))"

lemma read_messages_frames:
  "\<forall>m \<in> set ms. framed m \<Longrightarrow>
   rd_input s = concat ms @ rest \<Longrightarrow> n = length ms \<Longrightarrow>
   read_messages n s = (Ok ms, s\<lparr>rd_input := rest\<rparr>)"
proof (induction ms arbitrary: s n)
  case (Cons m ms)
  from Cons.prems have "read_message s = (Ok m, s\<lparr>rd_input := concat ms @ rest\<rparr>)"
    by (intro read_message_framed) auto
  with Cons.prems Cons.IH [of "s\<lparr>rd_input := concat ms @ rest\<rparr>"] show ?case by simp
qed simp

lemma write_all_unlimited [simp]:
  assumes "wr_budget s = None"
  shows "write_all bs s = (Ok (), s\<lparr>wr_output := wr_output s @ bs\<rparr>)"
    "write_all_half bs s = (Ok (), s\<lparr>wr_output := wr_output s @ bs\<rparr>)"
  using assms by (simp_all add: write_all_def write_all_half_def stream_write_all_def)

text \<open>Startup parameters: the bytes are pushed as code points, so ASCII text is kept.\<close>

definition latin1 :: "bytes \<Rightarrow> string" where
  "latin1 s = concat (map push_latin1 s)"

lemma latin1_ascii: "ascii s \<Longrightarrow> latin1 s = s"
  by (induction s) (simp_all add: latin1_def)

lemma latin1_Nil_iff [simp]: "latin1 s = [] \<longleftrightarrow> s = []"
  by (cases s) (auto simp: latin1_def push_latin1_def Let_def)

lemma read_param_cstring: "CHR 0x00 \<notin> set s \<Longrightarrow> read_param tmp (s @ CHR 0x00 # rest) = Ok (tmp @ latin1 s, rest)"
  by (induction s arbitrary: tmp) (auto simp: latin1_def)

lemma param_strings_cons:
  "CHR 0x00 \<notin> set s \<Longrightarrow>
   param_strings (s @ CHR 0x00 # rest) = rbind (param_strings rest) (\<lambda>buf. Ok (if s \<noteq> [] then latin1 s # buf else buf))"
  by (subst param_strings.simps) (simp add: read_param_cstring)

lemma param_strings_Nil [simp]: "param_strings [] = Ok []"
  by (simp add: param_strings.simps)

definition put_params :: "(bytes \<times> bytes) list \<Rightarrow> bytes" where
  "put_params kvs = concat (map (\<lambda>(k, v). k @ CHR 0x00 # v @ [CHR 0x00]) kvs) @ [CHR 0x00]"

definition param_text :: "bytes \<Rightarrow> bool" where
  "param_text s \<longleftrightarrow> s \<noteq> [] \<and> CHR 0x00 \<notin> set s"

lemma param_strings_put:
  "\<forall>(k, v) \<in> set kvs. param_text k \<and> param_text v \<Longrightarrow>
   param_strings (put_params kvs) = Ok (concat (map (\<lambda>(k, v). [latin1 k, latin1 v]) kvs))"
proof (induction kvs)
  case Nil
  then show ?case using param_strings_cons [of "[]" "[]"] by (simp add: put_params_def)
next
  case (Cons p kvs)
  obtain k v where p: "p = (k, v)" by force
  have "put_params (p # kvs) = k @ CHR 0x00 # v @ CHR 0x00 # put_params kvs"
    by (simp add: put_params_def p)
  with Cons p show ?case by (simp add: param_strings_cons param_text_def)
qed

lemma length_pairs [simp]: "length (concat (map (\<lambda>(k, v). [f k, g v]) kvs)) = 2 * length kvs"
  by (induction kvs) auto

lemma insert_pairs_map_of:
  "insert_pairs (concat (map (\<lambda>(k, v). [f k, g v]) kvs)) m = m ++ map_of (rev (map (\<lambda>(k, v). (f k, g v)) kvs))"
  by (induction kvs arbitrary: m) (auto simp: map_add_assoc [symmetric])

lemma parse_params_put:
  assumes "\<forall>(k, v) \<in> set kvs. param_text k \<and> param_text v" "kvs \<noteq> []"
  shows "parse_params (put_params kvs) = Ok (map_of (rev (map (\<lambda>(k, v). (latin1 k, latin1 v)) kvs)))"
proof -
  have "0 < length kvs" using assms(2) by simp
  with assms(1) show ?thesis by (simp add: parse_params_def param_strings_put insert_pairs_map_of del: length_greater_0_conv, simp)
qed

lemma read_param_Panic: "read_param tmp bs = Panic \<longleftrightarrow> CHR 0x00 \<notin> set bs"
  by (induction tmp bs rule: read_param.induct) auto

lemma read_param_not_Err [simp]: "read_param tmp bs \<noteq> Err e"
  by (induction tmp bs rule: read_param.induct) auto

lemma param_strings_outcome:
  "(param_strings bs = Panic \<longleftrightarrow> bs \<noteq> [] \<and> last bs \<noteq> CHR 0x00) \<and> param_strings bs \<noteq> Err e"
proof (induction bs rule: param_strings.induct)
  case (1 bs)
  show ?case
  proof (cases "split_at_first (CHR 0x00) bs")
    case None
    then have "CHR 0x00 \<notin> set bs" by (simp add: split_at_first_None)
    then show ?thesis
      by (subst (1 2) param_strings.simps) (use read_param_Panic [of "[]" bs] last_in_set [of bs] in \<open>cases "bs = []"; simp; metis\<close>)
  next
    case (Some p)
    then obtain s r where s: "bs = s @ CHR 0x00 # r" "CHR 0x00 \<notin> set s"
      by (cases p) (auto simp: split_at_first_Some)
    then have "read_param [] bs = Ok (latin1 s, r)" using read_param_cstring [of s "[]" r] by simp
    with 1 s have IH: "(param_strings r = Panic \<longleftrightarrow> r \<noteq> [] \<and> last r \<noteq> CHR 0x00) \<and> param_strings r \<noteq> Err e" by auto
    show ?thesis
      unfolding s(1) param_strings_cons [OF s(2)] using IH
      by (cases r) (auto simp: rbind_Panic_iff rbind_Err_iff)
  qed
qed


section \<open>Properties\<close>

text \<open>
  C39: \<open>read_message\<close> returns a message exactly when the stream starts with a tag, the length of the
  message and as many bytes as the length says; it returns those bytes and consumes nothing else.
\<close>

theorem read_message_framing:
  "read_message s = (Ok m, t) \<longleftrightarrow>
     (\<exists>tag body rest. rd_input s = m @ rest \<and> m = tag # put_i32 (of_nat (length body) + 4) @ body
        \<and> length body + 4 < 2147483648 \<and> t = s\<lparr>rd_input := rest\<rparr>)"
  unfolding frame_def [symmetric] by (rule read_message_Ok_iff)

text \<open>
  \<open>read_message\<close> panics exactly on a length below -1: the capacity it asks for is then above
  the largest allocation.
\<close>

theorem read_message_panics:
  "fst (read_message s) = Panic \<longleftrightarrow> (\<exists>tag len rest. rd_input s = tag # put_i32 len @ rest \<and> sint len < - 1)"
  by (rule read_message_Panic_iff)

text \<open>
  What \<open>error_response\<close> writes, a peer reads as two messages: an ErrorResponse whose parsed
  fields are the severity FATAL, the code 58000 and the message given, and a ReadyForQuery that
  reports no transaction.
\<close>

theorem error_response_readable:
  assumes "wr_budget s = None" "wr_output s = []" "utf8 message" "CHR 0x00 \<notin> set message" "length message < 2147483000"
    and peer: "rd_input t = wr_output (snd (error_response message s))"
  shows "fst (error_response message s) = Ok () \<and>
    (\<exists>e m. fst (read_messages 2 t) = Ok [e, ready_for_query False] \<and> hd e = CHR ''E''
      \<and> pg_error_msg_parse (drop 5 e) = Ok m
      \<and> em_severity m = ''FATAL'' \<and> em_code m = ''58000'' \<and> em_message m = message)"
proof -
  define b where "b = put_fields (error_fields message) @ [CHR 0x00]"
  define e where "e = frame CHR ''E'' b"
  have out: "error_response message s =
      (Ok (), s\<lparr>wr_output := e @ ready_for_query False\<rparr>)"
    using assms(1,2) by (simp add: error_response_def error_response_terminal_frame send_ready_for_query_def e_def b_def)
  have "length b + 4 < 2147483648"
    using assms(5) by (simp add: b_def error_fields_def)
  then have "read_messages 2 t = (Ok [e, ready_for_query False], t\<lparr>rd_input := []\<rparr>)"
    using peer by (intro read_messages_frames) (auto simp: out e_def ready_for_query.framed_msg)
  moreover have "pg_error_msg_parse (drop 5 e) =
      Ok (fold (\<lambda>(k, v). set_error_field k (from_utf8_lossy v)) (error_fields message) pg_error_msg_empty)"
    using parse_error_put_fields [of "error_fields message"] assms(4)
    by (simp add: e_def frame_def b_def error_fields_def)
  moreover have "hd e = CHR ''E''" by (simp add: e_def frame_def)
  ultimately show ?thesis
    using assms(3) by (simp add: out error_field_selectors error_fields_def from_utf8_lossy_ascii utf8_def)
qed

theorem error_response_readable_witness:
  "\<exists>e m. fst (read_messages 2 (fresh_stream (wr_output (snd (error_response ''down'' (fresh_stream []))))))
      = Ok [e, ready_for_query False]
    \<and> pg_error_msg_parse (drop 5 e) = Ok m \<and> em_message m = ''down''"
  using error_response_readable [of "fresh_stream []" "''down''"
    "fresh_stream (wr_output (snd (error_response ''down'' (fresh_stream []))))"]
  by (auto simp: utf8_ascii)

text \<open>
  The startup packet pgcat sends to a server is a well-formed startup packet by its own parser:
  after the length and the protocol number, \<open>parse_startup\<close> finds the user, the database and the
  application name.
\<close>

theorem startup_parse_startup:
  assumes "wr_budget s = None" "param_text user" "param_text database" "ascii user" "ascii database"
  shows "\<exists>params. startup user database s =
      (Ok (), s\<lparr>wr_output := wr_output s @ put_i32 (of_nat (length params) + 8) @ put_i32 PROTOCOL_VERSION_NUMBER @ params\<rparr>)
    \<and> parse_startup params = Ok [''user'' \<mapsto> user, ''application_name'' \<mapsto> ''pgcat'', ''database'' \<mapsto> database]"
proof -
  define kvs where "kvs = [(''user'', user), (''application_name'', ''pgcat''), (''database'', database)]"
  have "\<forall>(k, v) \<in> set kvs. param_text k \<and> param_text v" using assms by (simp add: kvs_def param_text_def)
  from parse_params_put [OF this]
  have "parse_startup (put_params kvs) = Ok [''user'' \<mapsto> user, ''application_name'' \<mapsto> ''pgcat'', ''database'' \<mapsto> database]"
    using assms(4,5) by (simp add: parse_startup_def kvs_def latin1_ascii)
  moreover have "startup user database s = (Ok (), s\<lparr>wr_output := wr_output s
      @ put_i32 (of_nat (length (put_params kvs)) + 8) @ put_i32 PROTOCOL_VERSION_NUMBER @ put_params kvs\<rparr>)"
    using assms(1)
    by (simp add: startup_def Let_def stream_write_all_def put_params_def kvs_def put_u8_def PROTOCOL_VERSION_NUMBER_def add.commute)
  ultimately show ?thesis by blast
qed

theorem startup_parse_startup_witness:
  "\<exists>params. startup ''alice'' ''app'' (fresh_stream []) =
      (Ok (), (fresh_stream [])\<lparr>wr_output := put_i32 (of_nat (length params) + 8) @ put_i32 PROTOCOL_VERSION_NUMBER @ params\<rparr>)
    \<and> parse_startup params = Ok [''user'' \<mapsto> ''alice'', ''application_name'' \<mapsto> ''pgcat'', ''database'' \<mapsto> ''app'']"
  using startup_parse_startup [of "fresh_stream []" "''alice''" "''app''"] by (simp add: param_text_def)

text \<open>
  \<open>parse_params\<close> on any number of name and value pairs without empty strings returns the map
  with the last value of each name, each byte above 127 read as the code point of that number;
  on a buffer that does not end with NUL, and only then, it panics.
\<close>

theorem parse_params_pairs:
  assumes "\<forall>(k, v) \<in> set kvs. param_text k \<and> param_text v" "kvs \<noteq> []"
  shows "parse_params (put_params kvs) = Ok (map_of (rev (map (\<lambda>(k, v). (latin1 k, latin1 v)) kvs)))
    \<and> (parse_params bytes = Panic \<longleftrightarrow> bytes \<noteq> [] \<and> last bytes \<noteq> CHR 0x00)"
  using parse_params_put [OF assms] param_strings_outcome [of bytes]
  by (auto simp: parse_params_def rbind_Panic_iff split: if_splits)

theorem parse_params_pairs_witness:
  "parse_params (put_params [(''user'', [CHR 0xE9])]) = Ok [''user'' \<mapsto> [CHR 0xC3, CHR 0xA9]]
    \<and> parse_params ''user'' = Panic"
  using parse_params_pairs [of "[(''user'', [CHR 0xE9])]" "''user''"]
  by (simp add: param_text_def latin1_def push_latin1_def char_of_eval)

text \<open>
  \<open>PgErrorMsg::parse\<close> on the fields of an ErrorResponse, in any order and with any others, finds
  the last severity, code and message given, and leaves a field that is not there empty.
\<close>

theorem pg_error_msg_parse_last:
  assumes "\<forall>(k, v) \<in> set fs. k \<noteq> CHR 0x00 \<and> CHR 0x00 \<notin> set v"
  shows "\<exists>m. pg_error_msg_parse (put_fields fs @ [CHR 0x00]) = Ok m
    \<and> em_severity m = (case last_field CHR ''V'' fs of None \<Rightarrow> [] | Some v \<Rightarrow> v)
    \<and> em_code m = (case last_field CHR ''C'' fs of None \<Rightarrow> [] | Some v \<Rightarrow> v)
    \<and> em_message m = (case last_field CHR ''M'' fs of None \<Rightarrow> [] | Some v \<Rightarrow> v)"
  using parse_error_put_fields [OF assms] by (simp add: fold_error_fields pg_error_msg_empty_def cong: option.case_cong)

theorem pg_error_msg_parse_last_witness:
  "\<exists>m. pg_error_msg_parse (put_fields [(CHR ''V'', ''ERROR''), (CHR ''X'', ''?''), (CHR ''C'', ''42601'')] @ [CHR 0x00]) = Ok m
    \<and> em_severity m = ''ERROR'' \<and> em_code m = ''42601'' \<and> em_message m = []"
  using pg_error_msg_parse_last [of "[(CHR ''V'', ''ERROR''), (CHR ''X'', ''?''), (CHR ''C'', ''42601'')]"]
  by (simp add: last_field_def from_utf8_lossy_ascii)

end
