(* ===== verification/Config.thy ===== *)
theory Config
  imports Sharding Messages
begin

text \<open>
  \<open>src/src/config.rs\<close>: the configuration, its defaults, its validation, and the load of a
  configuration file.  A \<open>BTreeMap\<close> or \<open>HashMap\<close> of the configuration is the list of its entries in
  iteration order (for a \<open>HashMap\<close> the source leaves the order open; what is proved here holds for
  every order).  Opening and reading files, the TOML parser, the regular expression compiler and
  the certificate loaders are arguments.
\<close>

section \<open>Roles, addresses, users\<close>

datatype role = Primary | Replica | Mirror

fun role_display :: "role \<Rightarrow> string" where
  "role_display Primary = ''primary''"
| "role_display Replica = ''replica''"
| "role_display Mirror = ''mirror''"

text \<open>\<open>Role == Option<Role>\<close> and \<open>Option<Role> == Role\<close>: no role matches every role.\<close>

fun role_matches :: "role \<Rightarrow> role option \<Rightarrow> bool" where
  "role_matches r None = True"
| "role_matches r (Some other) = (r = other)"

text \<open>
  An address without its statistics and error counter, which are shared by all copies of the
  address, are skipped by its equality, and are state of the pool here.
\<close>

datatype address = Address
  (a_id: usize) (a_host: string) (a_port: u16) (a_shard: usize) (a_database: string) (a_role: role)
  (a_replica_number: usize) (a_address_index: usize) (a_username: string) (a_pool_name: string)
  (a_mirrors: "address list")

definition address_default :: address where
  "address_default =
     Address 0 ''127.0.0.1'' 5432 0 ''database'' Replica 0 0 ''username'' ''pool_name'' []"

definition address_display :: "address \<Rightarrow> string" where
  "address_display a =
     ''[address: '' @ a_host a @ '':'' @ show_nat (unat (a_port a)) @ ''][database: '' @ a_database a
     @ ''][user: '' @ a_username a @ '']''"

definition address_name :: "address \<Rightarrow> string" where
  "address_name a =
     (case a_role a of
        Primary \<Rightarrow> a_pool_name a @ ''_shard_'' @ show_nat (unat (a_shard a)) @ ''_primary''
      | Replica \<Rightarrow> a_pool_name a @ ''_shard_'' @ show_nat (unat (a_shard a)) @ ''_replica_'' @ show_nat (unat (a_replica_number a))
      | Mirror \<Rightarrow> a_pool_name a @ ''_shard_'' @ show_nat (unat (a_shard a)) @ ''_mirror_'' @ show_nat (unat (a_replica_number a)))"

datatype pool_mode = Transaction | Session
datatype auth_type = Trust | MD5
datatype load_balancing_mode = RandomMode | LeastOutstandingConnections

fun pool_mode_display :: "pool_mode \<Rightarrow> string" where
  "pool_mode_display Transaction = ''transaction''"
| "pool_mode_display Session = ''session''"

fun load_balancing_mode_display :: "load_balancing_mode \<Rightarrow> string" where
  "load_balancing_mode_display RandomMode = ''random''"
| "load_balancing_mode_display LeastOutstandingConnections = ''least_outstanding_connections''"

record user =
  u_username :: string
  u_password :: "string option"
  u_auth_type :: auth_type
  u_server_username :: "string option"
  u_server_password :: "string option"
  u_pool_size :: u32
  u_min_pool_size :: "u32 option"
  u_pool_mode :: "pool_mode option"
  u_server_lifetime :: "u64 option"
  u_statement_timeout :: u64
  u_connect_timeout :: "u64 option"
  u_idle_timeout :: "u64 option"

definition user_default :: user where
  "user_default =
     \<lparr> u_username = ''postgres'', u_password = None, u_auth_type = MD5, u_server_username = None,
       u_server_password = None, u_pool_size = 15, u_min_pool_size = None, u_pool_mode = None,
       u_server_lifetime = None, u_statement_timeout = 0, u_connect_timeout = None,
       u_idle_timeout = None \<rparr>"

definition user_validate :: "user \<Rightarrow> unit result" where
  "user_validate self =
     (case u_min_pool_size self of
        Some min_pool_size \<Rightarrow> if u_pool_size self < min_pool_size then Err BadConfig else Ok ()
      | None \<Rightarrow> Ok ())"

section \<open>General settings\<close>

record general =
  g_host :: string
  g_port :: u16
  g_enable_prometheus_exporter :: "bool option"
  g_prometheus_exporter_port :: i16
  g_connect_timeout :: u64
  g_idle_timeout :: u64
  g_tcp_keepalives_idle :: u64
  g_tcp_keepalives_count :: u32
  g_tcp_keepalives_interval :: u64
  g_tcp_user_timeout :: u64
  g_log_client_connections :: bool
  g_log_client_disconnections :: bool
  g_dns_cache_enabled :: bool
  g_dns_max_ttl :: u64
  g_shutdown_timeout :: u64
  g_healthcheck_timeout :: u64
  g_healthcheck_delay :: u64
  g_ban_time :: i64
  g_idle_client_in_transaction_timeout :: u64
  g_server_lifetime :: u64
  g_server_round_robin :: bool
  g_worker_threads :: usize
  g_autoreload :: "u64 option"
  g_tls_certificate :: "string option"
  g_tls_private_key :: "string option"
  g_server_tls :: bool
  g_verify_server_certificate :: bool
  g_admin_username :: string
  g_admin_password :: string
  g_admin_auth_type :: auth_type
  g_validate_config :: bool
  g_auth_query :: "string option"
  g_auth_query_user :: "string option"
  g_auth_query_password :: "string option"

definition general_default :: general where
  "general_default =
     \<lparr> g_host = ''0.0.0.0'', g_port = 5432, g_enable_prometheus_exporter = Some False,
       g_prometheus_exporter_port = 9930, g_connect_timeout = 1000, g_idle_timeout = 600000,
       g_tcp_keepalives_idle = 5, g_tcp_keepalives_count = 5, g_tcp_keepalives_interval = 5,
       g_tcp_user_timeout = 10000, g_log_client_connections = False,
       g_log_client_disconnections = False, g_dns_cache_enabled = False, g_dns_max_ttl = 30,
       g_shutdown_timeout = 60000, g_healthcheck_timeout = 1000, g_healthcheck_delay = 30000,
       g_ban_time = 60, g_idle_client_in_transaction_timeout = 0,
       g_server_lifetime = 1000 * 60 * 60, g_server_round_robin = True, g_worker_threads = 4,
       g_autoreload = None, g_tls_certificate = None, g_tls_private_key = None,
       g_server_tls = False, g_verify_server_certificate = False, g_admin_username = ''admin'',
       g_admin_password = ''admin'', g_admin_auth_type = MD5, g_validate_config = True,
       g_auth_query = None, g_auth_query_user = None, g_auth_query_password = None \<rparr>"

section \<open>Shards\<close>

datatype default_shard = Shard usize | RandomShard | RandomHealthy

definition default_shard_serialize :: "default_shard \<Rightarrow> string" where
  "default_shard_serialize d =
     (case d of
        Shard n \<Rightarrow> ''shard_'' @ show_nat (unat n)
      | RandomShard \<Rightarrow> ''random''
      | RandomHealthy \<Rightarrow> ''random_healthy'')"

text \<open>\<open>None\<close> is the deserialisation error.\<close>

definition default_shard_deserialize :: "string \<Rightarrow> default_shard option" where
  "default_shard_deserialize s =
     (case strip_prefix ''shard_'' s of
        Some r \<Rightarrow> map_option Shard (parse_usize r)
      | None \<Rightarrow>
          if s = ''random'' then Some RandomShard
          else if s = ''random_healthy'' then Some RandomHealthy
          else None)"

record server_config =
  sc_host :: string
  sc_port :: u16
  sc_role :: role

record mirror_server_config =
  ms_host :: string
  ms_port :: u16
  ms_mirroring_target_index :: usize

record shard_config =
  sh_database :: string
  sh_mirrors :: "mirror_server_config list option"
  sh_servers :: "server_config list"

definition shard_validate :: "shard_config \<Rightarrow> unit result" where
  "shard_validate self =
     (let primary_count = length (filter (\<lambda>server. sc_role server = Primary) (sh_servers self));
          dup_check = remdups (sh_servers self)
      in if sh_servers self = [] then Err BadConfig
         else if 1 < primary_count then Err BadConfig
         else if length dup_check \<noteq> length (sh_servers self) then Err BadConfig
         else Ok ())"

definition shard_default :: shard_config where
  "shard_default =
     \<lparr> sh_database = ''postgres'', sh_mirrors = None,
       sh_servers = [\<lparr> sc_host = ''localhost'', sc_port = 5432, sc_role = Primary \<rparr>] \<rparr>"

section \<open>Plugins\<close>

record query_rule =
  qr_query :: string
  qr_schema :: "string list list"
  qr_result :: "string list list"

record intercept =
  in_enabled :: bool
  in_queries :: "(string \<times> query_rule) list"

record table_access =
  ta_enabled :: bool
  ta_tables :: "string list"

record query_logger =
  ql_enabled :: bool

record prewarmer =
  pw_enabled :: bool
  pw_queries :: "string list"

record plugins =
  pl_intercept :: "intercept option"
  pl_table_access :: "table_access option"
  pl_query_logger :: "query_logger option"
  pl_prewarmer :: "prewarmer option"

definition show_bool :: "bool \<Rightarrow> string" where
  "show_bool b = (if b then ''true'' else ''false'')"

definition plugins_display :: "plugins \<Rightarrow> string" where
  "plugins_display p =
     ''interceptor: '' @ show_bool (case pl_intercept p of Some i \<Rightarrow> in_enabled i | None \<Rightarrow> False)
     @ '', table_access: '' @ show_bool (case pl_table_access p of Some t \<Rightarrow> ta_enabled t | None \<Rightarrow> False)
     @ '', query_logger: '' @ show_bool (case pl_query_logger p of Some q \<Rightarrow> ql_enabled q | None \<Rightarrow> False)
     @ '', prewarmer: '' @ show_bool (case pl_prewarmer p of Some w \<Rightarrow> pw_enabled w | None \<Rightarrow> False)"

text \<open>The literals \<open>${USER}\<close> and \<open>${DATABASE}\<close> of the intercepted results.\<close>

definition query_substitute :: "string \<Rightarrow> string \<Rightarrow> query_rule \<Rightarrow> query_rule" where
  "query_substitute db user self =
     self\<lparr>qr_result := map (map (\<lambda>cell.
       replace_all ''${DATABASE}'' db (replace_all ''${USER}'' user cell))) (qr_result self)\<rparr>"

definition intercept_substitute :: "string \<Rightarrow> string \<Rightarrow> intercept \<Rightarrow> intercept" where
  "intercept_substitute db user self =
     self\<lparr>in_queries := map (\<lambda>(name, query).
       (name, let query = query_substitute db user query
              in query\<lparr>qr_query := ascii_lower (qr_query query)\<rparr>)) (in_queries self)\<rparr>"

section \<open>Pools\<close>

record pool_config =
  pc_pool_mode :: pool_mode
  pc_load_balancing_mode :: load_balancing_mode
  pc_default_role :: string
  pc_query_parser_enabled :: bool
  pc_query_parser_max_length :: "usize option"
  pc_query_parser_read_write_splitting :: bool
  pc_primary_reads_enabled :: bool
  pc_connect_timeout :: "u64 option"
  pc_idle_timeout :: "u64 option"
  pc_checkout_failure_limit :: "u64 option"
  pc_server_lifetime :: "u64 option"
  pc_sharding_function :: sharding_function
  pc_automatic_sharding_key :: "string option"
  pc_sharding_key_regex :: "string option"
  pc_shard_id_regex :: "string option"
  pc_regex_search_limit :: "usize option"
  pc_default_shard :: default_shard
  pc_auth_query :: "string option"
  pc_auth_query_user :: "string option"
  pc_auth_query_password :: "string option"
  pc_cleanup_server_connections :: bool
  pc_log_client_parameter_status_changes :: bool
  pc_prepared_statements_cache_size :: usize
  pc_db_activity_based_routing :: bool
  pc_db_activity_init_delay :: u64
  pc_db_activity_ttl :: u64
  pc_table_mutation_cache_ms_ttl :: u64
  pc_plugins :: "plugins option"
  pc_shards :: "(string \<times> shard_config) list"
  pc_users :: "(string \<times> user) list"

definition pool_default :: pool_config where
  "pool_default =
     \<lparr> pc_pool_mode = Transaction, pc_load_balancing_mode = RandomMode, pc_default_role = ''any'',
       pc_query_parser_enabled = False, pc_query_parser_max_length = None,
       pc_query_parser_read_write_splitting = False, pc_primary_reads_enabled = False,
       pc_connect_timeout = None, pc_idle_timeout = None, pc_checkout_failure_limit = None,
       pc_server_lifetime = None, pc_sharding_function = PgBigintHash,
       pc_automatic_sharding_key = None, pc_sharding_key_regex = None, pc_shard_id_regex = None,
       pc_regex_search_limit = Some 1000, pc_default_shard = Shard 0, pc_auth_query = None,
       pc_auth_query_user = None, pc_auth_query_password = None,
       pc_cleanup_server_connections = True, pc_log_client_parameter_status_changes = False,
       pc_prepared_statements_cache_size = 0, pc_db_activity_based_routing = False,
       pc_db_activity_init_delay = 100, pc_db_activity_ttl = 15 * 60,
       pc_table_mutation_cache_ms_ttl = 50, pc_plugins = None,
       pc_shards = [(''1'', shard_default)], pc_users = [] \<rparr>"

definition pool_is_auth_query_configured :: "pool_config \<Rightarrow> bool" where
  "pool_is_auth_query_configured self =
     (pc_auth_query_password self \<noteq> None \<and> pc_auth_query_user self \<noteq> None
      \<and> pc_auth_query_password self \<noteq> None)"

text \<open>The loops of \<open>validate\<close>: the first error ends them.\<close>

fun check_all :: "('a \<Rightarrow> unit result) \<Rightarrow> 'a list \<Rightarrow> unit result" where
  "check_all f [] = Ok ()"
| "check_all f (x # xs) = rbind (f x) (\<lambda>_. check_all f xs)"

definition check :: "bool \<Rightarrow> unit result" where
  "check bad = (if bad then Err BadConfig else Ok ())"

definition sharding_key_validate :: "string option \<Rightarrow> string option result" where
  "sharding_key_validate automatic_sharding_key =
     (case automatic_sharding_key of
        Some key \<Rightarrow>
          let key = filter (\<lambda>c. c \<noteq> CHR 0x22) key
          in if length (split_on (CHR ''.'') key) \<noteq> 2 then Err BadConfig else Ok (Some key)
      | None \<Rightarrow> Ok None)"

definition pool_validate :: "(string \<Rightarrow> bool) \<Rightarrow> pool_config \<Rightarrow> pool_config result" where
  "pool_validate regex_ok self =
     rbind (check (pc_default_role self \<notin> {''any'', ''primary'', ''replica''})) (\<lambda>_.
     rbind (check_all (\<lambda>(shard_idx, shard).
              case parse_usize shard_idx of
                Some _ \<Rightarrow> shard_validate shard
              | None \<Rightarrow> Err BadConfig) (pc_shards self)) (\<lambda>_.
     rbind (check_all (\<lambda>option.
              case option of
                Some regex \<Rightarrow> check (\<not> regex_ok regex)
              | None \<Rightarrow> Ok ()) [pc_shard_id_regex self, pc_sharding_key_regex self]) (\<lambda>_.
     rbind (check (pc_query_parser_read_write_splitting self \<and> \<not> pc_query_parser_enabled self)) (\<lambda>_.
     rbind (check (pc_plugins self \<noteq> None \<and> \<not> pc_query_parser_enabled self)) (\<lambda>_.
     rbind (sharding_key_validate (pc_automatic_sharding_key self)) (\<lambda>key.
     let self = self\<lparr>pc_automatic_sharding_key := key\<rparr>
     in
     rbind (case pc_default_shard self of
              Shard shard_number \<Rightarrow> check (length (pc_shards self) \<le> unat shard_number)
            | _ \<Rightarrow> Ok ()) (\<lambda>_.
     rbind (check_all user_validate (map snd (pc_users self))) (\<lambda>_.
     rbind (if pc_db_activity_based_routing self
            then rbind (check (pc_db_activity_init_delay self = 0)) (\<lambda>_.
                 rbind (check (pc_table_mutation_cache_ms_ttl self = 0)) (\<lambda>_.
                 check (pc_db_activity_ttl self = 0)))
            else Ok ()) (\<lambda>_.
     Ok self)))))))))"

section \<open>The configuration\<close>

record config =
  cf_path :: string
  cf_general :: general
  cf_plugins :: "plugins option"
  cf_pools :: "(string \<times> pool_config) list"

definition config_default :: config where
  "config_default =
     \<lparr> cf_path = ''pgcat.toml'', cf_general = general_default, cf_plugins = None, cf_pools = [] \<rparr>"

definition config_is_auth_query_configured :: "config \<Rightarrow> bool" where
  "config_is_auth_query_configured self =
     list_ex (\<lambda>(_, pool). pool_is_auth_query_configured pool) (cf_pools self)"

definition or_else :: "'a option \<Rightarrow> 'a option \<Rightarrow> 'a option" where
  "or_else x y = (case x of None \<Rightarrow> y | Some _ \<Rightarrow> x)"

definition fill_up_auth_query_config :: "config \<Rightarrow> config" where
  "fill_up_auth_query_config self =
     self\<lparr>cf_pools := map (\<lambda>(name, pool).
       (name, pool\<lparr>
          pc_auth_query := or_else (pc_auth_query pool) (g_auth_query (cf_general self)),
          pc_auth_query_user := or_else (pc_auth_query_user pool) (g_auth_query_user (cf_general self)),
          pc_auth_query_password := or_else (pc_auth_query_password pool) (g_auth_query_password (cf_general self))\<rparr>))
       (cf_pools self)\<rparr>"

text \<open>\<open>From<&Config> for HashMap<String, String>\<close>, with the \<open>Debug\<close> text of a pool's name as an argument.\<close>

definition pool_settings_entries :: "(string \<Rightarrow> string) \<Rightarrow> string \<times> pool_config \<Rightarrow> (string \<times> string) list" where
  "pool_settings_entries debug entry =
     (let (pool_name, pool) = entry in
      [(''pools.'' @ pool_name @ ''.pool_mode'', pool_mode_display (pc_pool_mode pool)),
       (''pools.'' @ pool_name @ ''.load_balancing_mode'', load_balancing_mode_display (pc_load_balancing_mode pool)),
       (''pools.'' @ pool_name @ ''.primary_reads_enabled'', show_bool (pc_primary_reads_enabled pool)),
       (''pools.'' @ pool_name @ ''.query_parser_enabled'', show_bool (pc_query_parser_enabled pool)),
       (''pools.'' @ pool_name @ ''.query_parser_max_length'',
        case pc_query_parser_max_length pool of Some max_length \<Rightarrow> show_nat (unat max_length) | None \<Rightarrow> ''unlimited''),
       (''pools.'' @ pool_name @ ''.query_parser_read_write_splitting'', show_bool (pc_query_parser_read_write_splitting pool)),
       (''pools.'' @ pool_name @ ''.default_role'', pc_default_role pool),
       (''pools.'' @ pool_name @ ''.sharding_function'', sharding_function_display (pc_sharding_function pool)),
       (''pools.'' @ debug pool_name @ ''.shard_count'', show_nat (length (pc_shards pool))),
       (''pools.'' @ debug pool_name @ ''.users'', join '', '' (map (u_username \<circ> snd) (pc_users pool)))])"

definition config_to_map :: "(string \<Rightarrow> string) \<Rightarrow> config \<Rightarrow> (string \<rightharpoonup> string)" where
  "config_to_map debug config =
     (let g = cf_general config;
          static_settings =
           [(''host'', g_host g), (''port'', show_nat (unat (g_port g))),
            (''prometheus_exporter_port'', show_int (sint (g_prometheus_exporter_port g))),
            (''connect_timeout'', show_nat (unat (g_connect_timeout g))),
            (''idle_timeout'', show_nat (unat (g_idle_timeout g))),
            (''healthcheck_timeout'', show_nat (unat (g_healthcheck_timeout g))),
            (''shutdown_timeout'', show_nat (unat (g_shutdown_timeout g))),
            (''healthcheck_delay'', show_nat (unat (g_healthcheck_delay g))),
            (''ban_time'', show_int (sint (g_ban_time g))),
            (''idle_client_in_transaction_timeout'', show_nat (unat (g_idle_client_in_transaction_timeout g)))];
          r = concat (map (pool_settings_entries debug) (cf_pools config)) @ static_settings
      in map_of (rev r))"

fun map_pools :: "('a \<Rightarrow> 'a result) \<Rightarrow> (string \<times> 'a) list \<Rightarrow> (string \<times> 'a) list result" where
  "map_pools f [] = Ok []"
| "map_pools f ((name, pool) # pools) =
     rbind (f pool) (\<lambda>pool. rbind (map_pools f pools) (\<lambda>pools. Ok ((name, pool) # pools)))"

definition auth_query_validate :: "string option \<Rightarrow> string option \<Rightarrow> string option \<Rightarrow> unit result" where
  "auth_query_validate auth_query auth_query_user auth_query_password =
     check (auth_query \<noteq> None \<and> (auth_query_user = None \<or> auth_query_password = None))"

definition tls_validate :: "(string \<Rightarrow> bool) \<Rightarrow> (string \<Rightarrow> bool) \<Rightarrow> general \<Rightarrow> unit result" where
  "tls_validate certs_ok keys_ok g =
     (case g_tls_certificate g of
        Some tls_certificate \<Rightarrow>
          if certs_ok tls_certificate
          then (case g_tls_private_key g of
                  Some tls_private_key \<Rightarrow> check (\<not> keys_ok tls_private_key)
                | None \<Rightarrow> Err BadConfig)
          else Err BadConfig
      | None \<Rightarrow> Ok ())"

definition config_validate ::
  "(string \<Rightarrow> bool) \<Rightarrow> (string \<Rightarrow> bool) \<Rightarrow> (string \<Rightarrow> bool) \<Rightarrow> config \<Rightarrow> config result" where
  "config_validate regex_ok certs_ok keys_ok self =
     rbind (auth_query_validate (g_auth_query (cf_general self)) (g_auth_query_user (cf_general self))
              (g_auth_query_password (cf_general self))) (\<lambda>_.
     rbind (check_all (\<lambda>(name, pool).
              rbind (auth_query_validate (pc_auth_query pool) (pc_auth_query_user pool) (pc_auth_query_password pool)) (\<lambda>_.
              check_all (\<lambda>(name, user_data).
                check ((pc_auth_query pool = None \<or> pc_auth_query_password pool = None \<or> pc_auth_query_user pool = None)
                       \<and> u_password user_data = None)) (pc_users pool)))
              (cf_pools self)) (\<lambda>_.
     rbind (tls_validate certs_ok keys_ok (cf_general self)) (\<lambda>_.
     rbind (map_pools (pool_validate regex_ok) (cf_pools self)) (\<lambda>pools.
     Ok (self\<lparr>cf_pools := pools\<rparr>)))))"

text \<open>
  \<open>parse(path)\<close> on the stored configuration \<open>current\<close>; \<open>read_file\<close> opens and reads a file.  A
  configuration that \<open>validate\<close> rejects is dropped half-changed, and is never stored.
\<close>

definition parse_config ::
  "(string \<Rightarrow> string option) \<Rightarrow> (string \<Rightarrow> config option) \<Rightarrow> (string \<Rightarrow> bool) \<Rightarrow> (string \<Rightarrow> bool) \<Rightarrow>
   (string \<Rightarrow> bool) \<Rightarrow> string \<Rightarrow> (config, unit) act" where
  "parse_config read_file toml regex_ok certs_ok keys_ok path current =
     (case read_file path of
        None \<Rightarrow> (Err BadConfig, current)
      | Some contents \<Rightarrow>
          (case toml contents of
             None \<Rightarrow> (Err BadConfig, current)
           | Some config \<Rightarrow>
               (case config_validate regex_ok certs_ok keys_ok (fill_up_auth_query_config config) of
                  Ok config \<Rightarrow> (Ok (), config\<lparr>cf_path := path\<rparr>)
                | Err e \<Rightarrow> (Err e, current)
                | Panic \<Rightarrow> (Panic, current))))"

section \<open>What validation accepts\<close>

definition wf_shard :: "shard_config \<Rightarrow> bool" where
  "wf_shard s \<longleftrightarrow> sh_servers s \<noteq> [] \<and> distinct (sh_servers s)
     \<and> length (filter (\<lambda>server. sc_role server = Primary) (sh_servers s)) \<le> 1"

definition wf_sharding_key :: "string option \<Rightarrow> bool" where
  "wf_sharding_key key \<longleftrightarrow> (case key of None \<Rightarrow> True | Some k \<Rightarrow> \<exists>t c. k = t @ CHR ''.'' # c \<and> CHR ''.'' \<notin> set t \<and> CHR ''.'' \<notin> set c)"

definition wf_user :: "user \<Rightarrow> bool" where
  "wf_user u \<longleftrightarrow> (case u_min_pool_size u of None \<Rightarrow> True | Some m \<Rightarrow> m \<le> u_pool_size u)"

definition wf_pool :: "(string \<Rightarrow> bool) \<Rightarrow> pool_config \<Rightarrow> bool" where
  "wf_pool regex_ok p \<longleftrightarrow>
     pc_default_role p \<in> {''any'', ''primary'', ''replica''}
     \<and> list_all (\<lambda>(i, s). parse_usize i \<noteq> None \<and> wf_shard s) (pc_shards p)
     \<and> list_all (\<lambda>r. case r of Some r \<Rightarrow> regex_ok r | None \<Rightarrow> True) [pc_shard_id_regex p, pc_sharding_key_regex p]
     \<and> ((pc_query_parser_read_write_splitting p \<or> pc_plugins p \<noteq> None) \<longrightarrow> pc_query_parser_enabled p)
     \<and> wf_sharding_key (pc_automatic_sharding_key p)
     \<and> (case pc_default_shard p of Shard n \<Rightarrow> unat n < length (pc_shards p) | _ \<Rightarrow> True)
     \<and> list_all (\<lambda>(_, u). wf_user u) (pc_users p)
     \<and> (pc_db_activity_based_routing p \<longrightarrow>
          pc_db_activity_init_delay p \<noteq> 0 \<and> pc_table_mutation_cache_ms_ttl p \<noteq> 0 \<and> pc_db_activity_ttl p \<noteq> 0)"

text \<open>The normal form of a pool: no quotes in the sharding key.\<close>

definition unquote_pool :: "pool_config \<Rightarrow> pool_config" where
  "unquote_pool p = p\<lparr>pc_automatic_sharding_key := map_option (filter (\<lambda>c. c \<noteq> CHR 0x22)) (pc_automatic_sharding_key p)\<rparr>"

definition wf_auth :: "string option \<Rightarrow> string option \<Rightarrow> string option \<Rightarrow> bool" where
  "wf_auth q u p \<longleftrightarrow> (q \<noteq> None \<longrightarrow> u \<noteq> None \<and> p \<noteq> None)"

definition wf_pool_auth :: "pool_config \<Rightarrow> bool" where
  "wf_pool_auth p \<longleftrightarrow> wf_auth (pc_auth_query p) (pc_auth_query_user p) (pc_auth_query_password p)
     \<and> list_all (\<lambda>(_, u). u_password u \<noteq> None \<or> pc_auth_query p \<noteq> None) (pc_users p)"

definition wf_config :: "(string \<Rightarrow> bool) \<Rightarrow> (string \<Rightarrow> bool) \<Rightarrow> (string \<Rightarrow> bool) \<Rightarrow> config \<Rightarrow> bool" where
  "wf_config regex_ok certs_ok keys_ok c \<longleftrightarrow>
     wf_auth (g_auth_query (cf_general c)) (g_auth_query_user (cf_general c)) (g_auth_query_password (cf_general c))
     \<and> list_all (\<lambda>(_, p). wf_pool_auth p \<and> wf_pool regex_ok p) (cf_pools c)
     \<and> (case g_tls_certificate (cf_general c) of
          None \<Rightarrow> True
        | Some f \<Rightarrow> certs_ok f \<and> (\<exists>k. g_tls_private_key (cf_general c) = Some k \<and> keys_ok k))"

definition unquote_config :: "config \<Rightarrow> config" where
  "unquote_config c = c\<lparr>cf_pools := map (\<lambda>(n, p). (n, unquote_pool p)) (cf_pools c)\<rparr>"

lemma check_eq: "check b = (if \<not> b then Ok () else Err BadConfig)"
  by (simp add: check_def)

lemma rbind_if: "rbind (if P then Ok x else Err e) f = (if P then f x else Err e)"
  by simp

lemma if_nest: "(if P then if Q then x else y else y) = (if P \<and> Q then x else y)"
  by simp

lemma check_all_eq:
  assumes "\<And>x. f x = (if P x then Ok () else Err BadConfig)"
  shows "check_all f xs = (if list_all P xs then Ok () else Err BadConfig)"
  by (induction xs) (simp_all add: assms)

lemma map_pools_eq:
  assumes "\<And>p. f p = (if P (g p) then Ok (g p) else Err BadConfig)"
  shows "map_pools f ps = (if list_all (\<lambda>(_, p). P (g p)) ps then Ok (map (\<lambda>(n, p). (n, g p)) ps) else Err BadConfig)"
  by (induction ps) (auto simp: assms)

lemma split_on_two:
  "length (split_on c k) = 2 \<longleftrightarrow> (\<exists>t r. k = t @ c # r \<and> c \<notin> set t \<and> c \<notin> set r)"
proof
  assume "length (split_on c k) = 2"
  then obtain t r where s: "split_on c k = [t, r]" by (auto simp: numeral_2_eq_2 length_Suc_conv)
  then have "k = t @ c # r" using join_split_on [of c k] by simp
  moreover have "c \<notin> set t" "c \<notin> set r" using split_on_pieces [of _ c k] s by auto
  ultimately show "\<exists>t r. k = t @ c # r \<and> c \<notin> set t \<and> c \<notin> set r" by blast
qed (auto simp: split_on_append_sep split_on_none)

lemma shard_validate_eq: "shard_validate s = (if wf_shard s then Ok () else Err BadConfig)"
  by (auto simp: shard_validate_def wf_shard_def length_remdups_eq)

lemma user_validate_eq: "user_validate u = (if wf_user u then Ok () else Err BadConfig)"
  by (auto simp: user_validate_def wf_user_def split: option.splits)

lemma sharding_key_validate_eq:
  "sharding_key_validate k =
    (let k = map_option (filter (\<lambda>c. c \<noteq> CHR 0x22)) k in if wf_sharding_key k then Ok k else Err BadConfig)"
  by (auto simp: sharding_key_validate_def wf_sharding_key_def split_on_two Let_def split: option.splits)

lemma pool_validate_eq:
  "pool_validate regex_ok p = (if wf_pool regex_ok (unquote_pool p) then Ok (unquote_pool p) else Err BadConfig)"
proof -
  have s: "check_all (\<lambda>(shard_idx, shard). case parse_usize shard_idx of Some _ \<Rightarrow> shard_validate shard | None \<Rightarrow> Err BadConfig) xs
      = (if list_all (\<lambda>(i, s). parse_usize i \<noteq> None \<and> wf_shard s) xs then Ok () else Err BadConfig)" for xs
    by (rule check_all_eq) (auto simp: shard_validate_eq split: option.splits if_splits)
  have r: "check_all (\<lambda>option. case option of Some regex \<Rightarrow> check (\<not> regex_ok regex) | None \<Rightarrow> Ok ()) xs
      = (if list_all (\<lambda>r. case r of Some r \<Rightarrow> regex_ok r | None \<Rightarrow> True) xs then Ok () else Err BadConfig)" for xs
    by (rule check_all_eq) (auto simp: check_eq split: option.splits)
  have u: "check_all user_validate (map snd xs) = (if list_all (\<lambda>(_, u). wf_user u) xs then Ok () else Err BadConfig)" for xs :: "(string \<times> user) list"
    by (simp add: check_all_eq [OF user_validate_eq] list_all_iff case_prod_unfold)
  have d: "(case d of Shard n \<Rightarrow> check (l \<le> unat n) | _ \<Rightarrow> Ok ())
      = (if (case d of Shard n \<Rightarrow> unat n < l | _ \<Rightarrow> True) then Ok () else Err BadConfig)" for d l
    by (auto simp: check_eq split: default_shard.splits)
  have m: "(if a then rbind (check x) (\<lambda>_. rbind (check y) (\<lambda>_. check z)) else Ok ())
      = (if a \<longrightarrow> \<not> x \<and> \<not> y \<and> \<not> z then Ok () else Err BadConfig)" for a x y z
    by (auto simp: check_eq)
  show ?thesis
    unfolding pool_validate_def Let_def s r u m d
    unfolding check_eq sharding_key_validate_eq Let_def rbind_if if_nest unquote_pool_def wf_pool_def
    by (rule if_cong) (auto split: default_shard.splits)
qed

lemma config_validate_eq:
  "config_validate regex_ok certs_ok keys_ok c =
    (if wf_config regex_ok certs_ok keys_ok (unquote_config c) then Ok (unquote_config c) else Err BadConfig)"
proof -
  have a: "auth_query_validate q u p = (if wf_auth q u p then Ok () else Err BadConfig)" for q u p
    by (auto simp: auth_query_validate_def wf_auth_def check_eq)
  have users: "check_all (\<lambda>(name, user_data).
        check ((pc_auth_query pool = None \<or> pc_auth_query_password pool = None \<or> pc_auth_query_user pool = None)
          \<and> u_password user_data = None)) us
      = (if list_all (\<lambda>(_, u). u_password u \<noteq> None \<or> (pc_auth_query pool \<noteq> None \<and> pc_auth_query_password pool \<noteq> None \<and> pc_auth_query_user pool \<noteq> None)) us
         then Ok () else Err BadConfig)" for pool us
    by (rule check_all_eq) (auto simp: check_eq split: if_splits)
  have pools: "check_all (\<lambda>(name, pool).
        rbind (auth_query_validate (pc_auth_query pool) (pc_auth_query_user pool) (pc_auth_query_password pool)) (\<lambda>_.
        check_all (\<lambda>(name, user_data).
          check ((pc_auth_query pool = None \<or> pc_auth_query_password pool = None \<or> pc_auth_query_user pool = None)
            \<and> u_password user_data = None)) (pc_users pool))) ps
      = (if list_all (\<lambda>(_, p). wf_pool_auth p) ps then Ok () else Err BadConfig)" for ps :: "(string \<times> pool_config) list"
    by (rule check_all_eq) (auto simp: a users rbind_if wf_pool_auth_def wf_auth_def list_all_iff split: if_splits)
  have tls: "tls_validate certs_ok keys_ok g = (if (case g_tls_certificate g of None \<Rightarrow> True
        | Some f \<Rightarrow> certs_ok f \<and> (\<exists>k. g_tls_private_key g = Some k \<and> keys_ok k)) then Ok () else Err BadConfig)" for g
    by (auto simp: tls_validate_def check_eq split: option.splits)
  have unq: "wf_pool_auth (unquote_pool p) = wf_pool_auth p" for p
    by (simp add: unquote_pool_def wf_pool_auth_def)
  show ?thesis
    unfolding config_validate_def pools
    unfolding a tls rbind_if if_nest map_pools_eq [where P = "wf_pool regex_ok" and g = unquote_pool, OF pool_validate_eq]
    by (rule if_cong) (auto simp: wf_config_def unquote_config_def list_all_iff unq split: option.splits)
qed

lemma unquote_pool_idem [simp]: "unquote_pool (unquote_pool p) = unquote_pool p"
  by (simp add: unquote_pool_def option.map_comp comp_def)

section \<open>Properties\<close>

text \<open>
  C29: loading a configuration file either stores a configuration that satisfies every rule of
  \<open>validate\<close>, with the path of the file, or fails and keeps the configuration that was there.  The
  rules: each pool's default role is one of three, each shard has servers, no duplicates and at most
  one primary, the default shard is below the number of shards, the sharding key is \<open>table.column\<close>,
  read/write splitting and plugins need the query parser, and each user has a password or an
  authentication query.
\<close>

theorem parse_config_valid_or_unchanged:
  "case parse_config read_file toml regex_ok certs_ok keys_ok path current of
     (Ok _, config) \<Rightarrow> wf_config regex_ok certs_ok keys_ok config \<and> cf_path config = path
   | (Err e, config) \<Rightarrow> e = BadConfig \<and> config = current
   | (Panic, config) \<Rightarrow> False"
  by (auto simp: parse_config_def config_validate_eq wf_config_def split: option.splits)

text \<open>
  C30: \<open>validate\<close> accepts a configuration exactly when its pools satisfy the rules after the quotes are
  removed from the sharding keys; it changes nothing else, and a validated configuration is
  accepted again unchanged.
\<close>

theorem config_validate_spec:
  "config_validate regex_ok certs_ok keys_ok c =
     (if wf_config regex_ok certs_ok keys_ok (unquote_config c) then Ok (unquote_config c) else Err BadConfig)
   \<and> unquote_config (unquote_config c) = unquote_config c"
  by (auto simp: config_validate_eq unquote_config_def case_prod_unfold comp_def)

text \<open>
  A default shard survives being written to a configuration file and read back.
\<close>

theorem default_shard_roundtrip:
  "default_shard_deserialize (default_shard_serialize d) = Some d"
  by (cases d) (simp_all add: default_shard_serialize_def default_shard_deserialize_def parse_usize_show)

text \<open>
  Validation lets through a pool whose shards are not numbered from 0: the default pool has one
  shard, 1, and shard 0 as its default.
\<close>

theorem pool_validate_shard_ids:
  "pool_validate regex_ok pool_default = Ok pool_default
   \<and> pc_default_shard pool_default = Shard 0 \<and> map_of (pc_shards pool_default) ''0'' = None"
proof -
  have "parse_usize ''1'' \<noteq> None" by (simp add: parse_usize_def parse_unsigned_def parse_digits_def is_digit_def digits_val_def digit_val_def)
  then show ?thesis
    by (simp add: pool_validate_eq wf_pool_def unquote_pool_def pool_default_def wf_sharding_key_def wf_shard_def shard_default_def)
qed

end
