(* ===== verification/Pool_Settings.thy ===== *)
theory Pool_Settings
  imports Config
begin

text \<open>
  The settings of a pool in \<open>src/src/pool.rs\<close>, which the query router and the pool share, and the
  identifiers of pools.  A compiled regular expression is its pattern.
\<close>

record pool_identifier =
  pi_db :: string
  pi_user :: string

definition pool_identifier_new :: "string \<Rightarrow> string \<Rightarrow> pool_identifier" where
  "pool_identifier_new db user = \<lparr> pi_db = db, pi_user = user \<rparr>"

definition pool_identifier_display :: "pool_identifier \<Rightarrow> string" where
  "pool_identifier_display i = pi_user i @ ''@'' @ pi_db i"

definition pool_identifier_from_address :: "address \<Rightarrow> pool_identifier" where
  "pool_identifier_from_address address = pool_identifier_new (a_database address) (a_username address)"

record pool_settings =
  ps_pool_mode :: pool_mode
  ps_load_balancing_mode :: load_balancing_mode
  ps_checkout_failure_limit :: "u64 option"
  ps_shards :: usize
  ps_user :: user
  ps_db :: string
  ps_default_role :: "role option"
  ps_query_parser_enabled :: bool
  ps_query_parser_max_length :: "usize option"
  ps_query_parser_read_write_splitting :: bool
  ps_primary_reads_enabled :: bool
  ps_db_activity_based_routing :: bool
  ps_db_activity_init_delay :: u64
  ps_db_activity_ttl :: u64
  ps_table_mutation_cache_ms_ttl :: u64
  ps_sharding_function :: sharding_function
  ps_automatic_sharding_key :: "string option"
  ps_healthcheck_timeout :: u64
  ps_healthcheck_delay :: u64
  ps_ban_time :: i64
  ps_sharding_key_regex :: "string option"
  ps_shard_id_regex :: "string option"
  ps_default_shard :: default_shard
  ps_regex_search_limit :: usize
  ps_auth_query :: "string option"
  ps_auth_query_user :: "string option"
  ps_auth_query_password :: "string option"
  ps_plugins :: "plugins option"

definition pool_settings_default :: pool_settings where
  "pool_settings_default =
     \<lparr> ps_pool_mode = Transaction, ps_load_balancing_mode = RandomMode,
       ps_checkout_failure_limit = None, ps_shards = 1, ps_user = user_default, ps_db = [],
       ps_default_role = None, ps_query_parser_enabled = False, ps_query_parser_max_length = None,
       ps_query_parser_read_write_splitting = False, ps_primary_reads_enabled = True,
       ps_db_activity_based_routing = False, ps_db_activity_init_delay = 100,
       ps_db_activity_ttl = 15 * 60, ps_table_mutation_cache_ms_ttl = 50,
       ps_sharding_function = PgBigintHash, ps_automatic_sharding_key = None,
       ps_healthcheck_timeout = g_healthcheck_timeout general_default,
       ps_healthcheck_delay = g_healthcheck_delay general_default,
       ps_ban_time = g_ban_time general_default, ps_sharding_key_regex = None,
       ps_shard_id_regex = None, ps_default_shard = Shard 0, ps_regex_search_limit = 1000,
       ps_auth_query = None, ps_auth_query_user = None, ps_auth_query_password = None,
       ps_plugins = None \<rparr>"

end
