(* ===== verification/Stats.thy ===== *)
theory Stats
  imports Pool_Settings
begin

text \<open>
  \<open>src/src/stats.rs\<close> and \<open>src/src/stats\<close>: the counters of servers, clients and pools, the
  registration of both kinds of connection, and the collector's averages.

  The counters are atomic 64-bit integers, whose additions wrap around.  What is shared through
  \<open>Arc\<close> is passed in and returned.  The time since a connection was made is an argument, in
  microseconds.
\<close>

section \<open>Addresses\<close>

record address_stat_fields =
  sf_xact_count :: u64
  sf_query_count :: u64
  sf_bytes_received :: u64
  sf_bytes_sent :: u64
  sf_xact_time :: u64
  sf_query_time :: u64
  sf_wait_time :: u64
  sf_errors :: u64

definition no_counts :: address_stat_fields where
  "no_counts =
     \<lparr> sf_xact_count = 0, sf_query_count = 0, sf_bytes_received = 0, sf_bytes_sent = 0,
       sf_xact_time = 0, sf_query_time = 0, sf_wait_time = 0, sf_errors = 0 \<rparr>"

record address_stats =
  as_total :: address_stat_fields
  as_current :: address_stat_fields
  as_averages :: address_stat_fields
  as_averages_updated :: bool

definition address_stats_default :: address_stats where
  "address_stats_default =
     \<lparr> as_total = no_counts, as_current = no_counts, as_averages = no_counts, as_averages_updated = False \<rparr>"

definition address_stats_into_iter :: "address_stats \<Rightarrow> (string \<times> u64) list" where
  "address_stats_into_iter self =
     (let total = as_total self; averages = as_averages self
      in [(''total_xact_count'', sf_xact_count total),
          (''total_query_count'', sf_query_count total),
          (''total_received'', sf_bytes_received total),
          (''total_sent'', sf_bytes_sent total),
          (''total_xact_time'', sf_xact_time total),
          (''total_query_time'', sf_query_time total),
          (''total_wait_time'', sf_wait_time total),
          (''total_errors'', sf_errors total),
          (''avg_xact_count'', sf_xact_count averages),
          (''avg_query_count'', sf_query_count averages),
          (''avg_recv'', sf_bytes_received averages),
          (''avg_sent'', sf_bytes_sent averages),
          (''avg_errors'', sf_errors averages),
          (''avg_xact_time'', sf_xact_time averages),
          (''avg_query_time'', sf_query_time averages),
          (''avg_wait_time'', sf_wait_time averages)])"

text \<open>A counter is increased in the totals and in the current period.\<close>

definition add_both :: "(address_stat_fields \<Rightarrow> address_stat_fields) \<Rightarrow> address_stats \<Rightarrow> address_stats" where
  "add_both f self = self\<lparr>as_total := f (as_total self), as_current := f (as_current self)\<rparr>"

definition xact_count_add :: "address_stats \<Rightarrow> address_stats" where
  "xact_count_add = add_both (\<lambda>s. s\<lparr>sf_xact_count := sf_xact_count s + 1\<rparr>)"

definition query_count_add :: "address_stats \<Rightarrow> address_stats" where
  "query_count_add = add_both (\<lambda>s. s\<lparr>sf_query_count := sf_query_count s + 1\<rparr>)"

definition bytes_received_add :: "u64 \<Rightarrow> address_stats \<Rightarrow> address_stats" where
  "bytes_received_add n = add_both (\<lambda>s. s\<lparr>sf_bytes_received := sf_bytes_received s + n\<rparr>)"

definition bytes_sent_add :: "u64 \<Rightarrow> address_stats \<Rightarrow> address_stats" where
  "bytes_sent_add n = add_both (\<lambda>s. s\<lparr>sf_bytes_sent := sf_bytes_sent s + n\<rparr>)"

definition xact_time_add :: "u64 \<Rightarrow> address_stats \<Rightarrow> address_stats" where
  "xact_time_add n = add_both (\<lambda>s. s\<lparr>sf_xact_time := sf_xact_time s + n\<rparr>)"

definition query_time_add :: "u64 \<Rightarrow> address_stats \<Rightarrow> address_stats" where
  "query_time_add n = add_both (\<lambda>s. s\<lparr>sf_query_time := sf_query_time s + n\<rparr>)"

definition wait_time_add :: "u64 \<Rightarrow> address_stats \<Rightarrow> address_stats" where
  "wait_time_add n = add_both (\<lambda>s. s\<lparr>sf_wait_time := sf_wait_time s + n\<rparr>)"

definition address_stats_error :: "address_stats \<Rightarrow> address_stats" where
  "address_stats_error = add_both (\<lambda>s. s\<lparr>sf_errors := sf_errors s + 1\<rparr>)"

definition STAT_PERIOD :: u64 where
  "STAT_PERIOD = 15000"

definition update_averages :: "address_stats \<Rightarrow> address_stats" where
  "update_averages self =
     (let stat_period_per_second = STAT_PERIOD div 1000;
          cur = as_current self
      in self\<lparr>as_averages :=
           \<lparr> sf_xact_count = sf_xact_count cur div stat_period_per_second,
             sf_query_count = sf_query_count cur div stat_period_per_second,
             sf_bytes_received = sf_bytes_received cur div stat_period_per_second,
             sf_bytes_sent = sf_bytes_sent cur div stat_period_per_second,
             sf_xact_time = (if sf_xact_count cur = 0 then 0 else sf_xact_time cur div sf_xact_count cur),
             sf_query_time = (if sf_query_count cur = 0 then 0 else sf_query_time cur div sf_query_count cur),
             sf_wait_time = sf_wait_time cur div stat_period_per_second,
             sf_errors = sf_errors cur div stat_period_per_second \<rparr>\<rparr>)"

definition reset_current_counts :: "address_stats \<Rightarrow> address_stats" where
  "reset_current_counts self = self\<lparr>as_current := no_counts\<rparr>"

definition populate_row :: "address_stats \<Rightarrow> string list \<Rightarrow> string list" where
  "populate_row self row = row @ map (\<lambda>(key, val). show_nat (unat val)) (address_stats_into_iter self)"

section \<open>Clients\<close>

datatype client_state = ClientIdle | ClientWaiting | ClientActive

fun client_state_display :: "client_state \<Rightarrow> string" where
  "client_state_display ClientIdle = ''idle''"
| "client_state_display ClientWaiting = ''waiting''"
| "client_state_display ClientActive = ''active''"

record client_stats =
  ct_client_id :: i32
  ct_application_name :: string
  ct_username :: string
  ct_pool_name :: string
  ct_total_wait_time :: u64
  ct_max_wait_time :: u64
  ct_wait_start_us :: u64
  ct_state :: client_state
  ct_transaction_count :: u64
  ct_query_count :: u64
  ct_error_count :: u64

definition client_stats_default :: client_stats where
  "client_stats_default =
     \<lparr> ct_client_id = 0, ct_application_name = [], ct_username = [], ct_pool_name = [],
       ct_total_wait_time = 0, ct_max_wait_time = 0, ct_wait_start_us = 0, ct_state = ClientIdle,
       ct_transaction_count = 0, ct_query_count = 0, ct_error_count = 0 \<rparr>"

definition client_stats_new :: "i32 \<Rightarrow> string \<Rightarrow> string \<Rightarrow> string \<Rightarrow> client_stats" where
  "client_stats_new client_id application_name username pool_name =
     client_stats_default\<lparr>ct_client_id := client_id, ct_application_name := application_name,
       ct_username := username, ct_pool_name := pool_name\<rparr>"

definition client_idle :: "client_stats \<Rightarrow> client_stats" where
  "client_idle self = self\<lparr>ct_state := ClientIdle\<rparr>"

text \<open>\<open>elapsed\<close> is the time since the client connected, when the function reads the clock.\<close>

definition client_waiting :: "u64 \<Rightarrow> client_stats \<Rightarrow> client_stats" where
  "client_waiting elapsed self = self\<lparr>ct_wait_start_us := elapsed, ct_state := ClientWaiting\<rparr>"

definition client_active :: "client_stats \<Rightarrow> client_stats" where
  "client_active self = self\<lparr>ct_state := ClientActive\<rparr>"

definition get_current_wait_time_us :: "u64 \<Rightarrow> client_stats \<Rightarrow> u64" where
  "get_current_wait_time_us elapsed self =
     (if ct_wait_start_us self = 0 \<or> elapsed < ct_wait_start_us self then 0
      else elapsed - ct_wait_start_us self)"

definition update_wait_times :: "u64 \<Rightarrow> client_stats \<Rightarrow> client_stats" where
  "update_wait_times elapsed self =
     (if ct_wait_start_us self = 0 then self
      else let wait_time_us = get_current_wait_time_us elapsed self
           in self\<lparr>ct_total_wait_time := ct_total_wait_time self + wait_time_us,
                   ct_max_wait_time := max (ct_max_wait_time self) wait_time_us,
                   ct_wait_start_us := 0\<rparr>)"

definition checkout_error :: "u64 \<Rightarrow> client_stats \<Rightarrow> client_stats" where
  "checkout_error elapsed self = update_wait_times elapsed (self\<lparr>ct_state := ClientIdle\<rparr>)"

definition checkout_success :: "u64 \<Rightarrow> client_stats \<Rightarrow> client_stats" where
  "checkout_success elapsed self = update_wait_times elapsed (self\<lparr>ct_state := ClientActive\<rparr>)"

definition ban_error :: "client_stats \<Rightarrow> client_stats" where
  "ban_error self = self\<lparr>ct_state := ClientIdle, ct_error_count := ct_error_count self + 1\<rparr>"

definition client_query :: "client_stats \<Rightarrow> client_stats" where
  "client_query self = self\<lparr>ct_query_count := ct_query_count self + 1\<rparr>"

definition client_transaction :: "client_stats \<Rightarrow> client_stats" where
  "client_transaction self = self\<lparr>ct_transaction_count := ct_transaction_count self + 1\<rparr>"

section \<open>Servers\<close>

datatype server_state = ServerLogin | ServerActive | ServerTested | ServerIdle

fun server_state_display :: "server_state \<Rightarrow> string" where
  "server_state_display ServerLogin = ''login''"
| "server_state_display ServerActive = ''active''"
| "server_state_display ServerTested = ''tested''"
| "server_state_display ServerIdle = ''idle''"

text \<open>\<open>ss_address_stats\<close> is the \<open>stats\<close> field of the address.\<close>

record server_stats =
  ss_server_id :: i32
  ss_address :: address
  ss_address_stats :: address_stats
  ss_application_name :: string
  ss_state :: server_state
  ss_bytes_sent :: u64
  ss_bytes_received :: u64
  ss_transaction_count :: u64
  ss_query_count :: u64
  ss_error_count :: u64
  ss_prepared_hit_count :: u64
  ss_prepared_miss_count :: u64
  ss_prepared_eviction_count :: u64
  ss_prepared_cache_size :: u64

definition server_stats_default :: server_stats where
  "server_stats_default =
     \<lparr> ss_server_id = 0, ss_address = address_default, ss_address_stats = address_stats_default,
       ss_application_name = [], ss_state = ServerLogin, ss_bytes_sent = 0, ss_bytes_received = 0,
       ss_transaction_count = 0, ss_query_count = 0, ss_error_count = 0, ss_prepared_hit_count = 0,
       ss_prepared_miss_count = 0, ss_prepared_eviction_count = 0, ss_prepared_cache_size = 0 \<rparr>"

definition server_stats_new :: "i32 \<Rightarrow> address \<Rightarrow> address_stats \<Rightarrow> server_stats" where
  "server_stats_new random address stats =
     server_stats_default\<lparr>ss_address := address, ss_address_stats := stats, ss_server_id := random\<rparr>"

definition set_application :: "string \<Rightarrow> server_stats \<Rightarrow> server_stats" where
  "set_application name self = self\<lparr>ss_application_name := name\<rparr>"

definition set_undefined_application :: "server_stats \<Rightarrow> server_stats" where
  "set_undefined_application = set_application ''Undefined''"

definition server_idle :: "server_stats \<Rightarrow> server_stats" where
  "server_idle self = self\<lparr>ss_state := ServerIdle\<rparr>"

definition server_tested :: "server_stats \<Rightarrow> server_stats" where
  "server_tested self = (set_undefined_application self)\<lparr>ss_state := ServerTested\<rparr>"

definition server_login :: "server_stats \<Rightarrow> server_stats" where
  "server_login self = set_undefined_application (self\<lparr>ss_state := ServerLogin\<rparr>)"

definition server_active :: "string \<Rightarrow> server_stats \<Rightarrow> server_stats" where
  "server_active application_name self = set_application application_name (self\<lparr>ss_state := ServerActive\<rparr>)"

definition at_address :: "(address_stats \<Rightarrow> address_stats) \<Rightarrow> server_stats \<Rightarrow> server_stats" where
  "at_address f self = self\<lparr>ss_address_stats := f (ss_address_stats self)\<rparr>"

definition checkout_time :: "u64 \<Rightarrow> string \<Rightarrow> server_stats \<Rightarrow> server_stats" where
  "checkout_time microseconds application_name self =
     at_address (wait_time_add microseconds) (set_application application_name self)"

definition server_query_stats :: "u64 \<Rightarrow> string \<Rightarrow> server_stats \<Rightarrow> server_stats" where
  "server_query_stats milliseconds application_name self =
     (let self = at_address (query_time_add milliseconds \<circ> query_count_add) (set_application application_name self)
      in self\<lparr>ss_query_count := ss_query_count self + 1\<rparr>)"

definition server_transaction :: "string \<Rightarrow> server_stats \<Rightarrow> server_stats" where
  "server_transaction application_name self =
     (let self = set_application application_name self
      in at_address xact_count_add (self\<lparr>ss_transaction_count := ss_transaction_count self + 1\<rparr>))"

definition data_sent :: "usize \<Rightarrow> server_stats \<Rightarrow> server_stats" where
  "data_sent amount_bytes self =
     at_address (bytes_sent_add amount_bytes) (self\<lparr>ss_bytes_sent := ss_bytes_sent self + amount_bytes\<rparr>)"

definition data_received :: "usize \<Rightarrow> server_stats \<Rightarrow> server_stats" where
  "data_received amount_bytes self =
     at_address (bytes_received_add amount_bytes) (self\<lparr>ss_bytes_received := ss_bytes_received self + amount_bytes\<rparr>)"

definition prepared_cache_hit :: "server_stats \<Rightarrow> server_stats" where
  "prepared_cache_hit self = self\<lparr>ss_prepared_hit_count := ss_prepared_hit_count self + 1\<rparr>"

definition prepared_cache_miss :: "server_stats \<Rightarrow> server_stats" where
  "prepared_cache_miss self = self\<lparr>ss_prepared_miss_count := ss_prepared_miss_count self + 1\<rparr>"

definition prepared_cache_add :: "server_stats \<Rightarrow> server_stats" where
  "prepared_cache_add self = self\<lparr>ss_prepared_cache_size := ss_prepared_cache_size self + 1\<rparr>"

definition prepared_cache_remove :: "server_stats \<Rightarrow> server_stats" where
  "prepared_cache_remove self =
     self\<lparr>ss_prepared_eviction_count := ss_prepared_eviction_count self + 1,
          ss_prepared_cache_size := ss_prepared_cache_size self - 1\<rparr>"

section \<open>Registration\<close>

text \<open>\<open>CLIENT_STATS\<close> and \<open>SERVER_STATS\<close>, from the identifiers to the entries.\<close>

type_synonym client_states_lookup = "i32 \<rightharpoonup> client_stats"
type_synonym server_states_lookup = "i32 \<rightharpoonup> server_stats"

definition reporter_client_register :: "i32 \<Rightarrow> client_stats \<Rightarrow> client_states_lookup \<Rightarrow> client_states_lookup" where
  "reporter_client_register client_id stats lookup =
     (if lookup client_id \<noteq> None then lookup else lookup(client_id \<mapsto> stats))"

definition reporter_client_disconnecting :: "i32 \<Rightarrow> client_states_lookup \<Rightarrow> client_states_lookup" where
  "reporter_client_disconnecting client_id lookup = lookup(client_id := None)"

definition reporter_server_register :: "i32 \<Rightarrow> server_stats \<Rightarrow> server_states_lookup \<Rightarrow> server_states_lookup" where
  "reporter_server_register server_id stats lookup = lookup(server_id \<mapsto> stats)"

definition reporter_server_disconnecting :: "i32 \<Rightarrow> server_states_lookup \<Rightarrow> server_states_lookup" where
  "reporter_server_disconnecting server_id lookup = lookup(server_id := None)"

text \<open>The entry that is registered is the object itself, so that its new state is seen through the lookup.\<close>

definition client_register :: "client_stats \<Rightarrow> client_states_lookup \<Rightarrow> client_stats \<times> client_states_lookup" where
  "client_register self lookup =
     (let self = self\<lparr>ct_state := ClientIdle\<rparr>
      in (self, reporter_client_register (ct_client_id self) self lookup))"

definition client_disconnect :: "client_stats \<Rightarrow> client_states_lookup \<Rightarrow> client_states_lookup" where
  "client_disconnect self = reporter_client_disconnecting (ct_client_id self)"

definition server_register :: "server_stats \<Rightarrow> server_states_lookup \<Rightarrow> server_stats \<times> server_states_lookup" where
  "server_register self lookup =
     (let self = server_login self
      in (self, reporter_server_register (ss_server_id self) self lookup))"

definition server_disconnect :: "server_stats \<Rightarrow> server_states_lookup \<Rightarrow> server_states_lookup" where
  "server_disconnect self = reporter_server_disconnecting (ss_server_id self)"

section \<open>The collector\<close>

text \<open>
  One round of the loop in \<open>collect\<close>: \<open>servers\<close> lists, for each registered server connection, the
  identity of its address's counters, which several connections share.
\<close>

definition collect_server :: "'k \<Rightarrow> ('k \<Rightarrow> address_stats) \<Rightarrow> 'k \<Rightarrow> address_stats" where
  "collect_server k stats =
     (if as_averages_updated (stats k) then stats
      else stats(k := (reset_current_counts (update_averages (stats k)))\<lparr>as_averages_updated := True\<rparr>))"

definition clear_updated :: "'k \<Rightarrow> ('k \<Rightarrow> address_stats) \<Rightarrow> 'k \<Rightarrow> address_stats" where
  "clear_updated k stats = stats(k := (stats k)\<lparr>as_averages_updated := False\<rparr>)"

definition collect_tick :: "'k list \<Rightarrow> ('k \<Rightarrow> address_stats) \<Rightarrow> 'k \<Rightarrow> address_stats" where
  "collect_tick servers stats = fold clear_updated servers (fold collect_server servers stats)"

section \<open>Pools\<close>

record pool_stats =
  po_identifier :: pool_identifier
  po_mode :: pool_mode
  po_cl_idle :: u64
  po_cl_active :: u64
  po_cl_waiting :: u64
  po_cl_cancel_req :: u64
  po_sv_active :: u64
  po_sv_idle :: u64
  po_sv_used :: u64
  po_sv_tested :: u64
  po_sv_login :: u64
  po_maxwait :: u64

definition pool_stats_new :: "pool_identifier \<Rightarrow> pool_mode \<Rightarrow> pool_stats" where
  "pool_stats_new identifier mode =
     \<lparr> po_identifier = identifier, po_mode = mode, po_cl_idle = 0, po_cl_active = 0, po_cl_waiting = 0,
       po_cl_cancel_req = 0, po_sv_active = 0, po_sv_idle = 0, po_sv_used = 0, po_sv_tested = 0,
       po_sv_login = 0, po_maxwait = 0 \<rparr>"

type_synonym pool_lookup = "pool_identifier \<rightharpoonup> pool_stats"

text \<open>One client, with the time since it connected.\<close>

definition count_client :: "client_stats \<times> u64 \<Rightarrow> pool_stats \<Rightarrow> pool_stats" where
  "count_client = (\<lambda>(client, elapsed) p.
     let p = (case ct_state client of
                ClientActive \<Rightarrow> p\<lparr>po_cl_active := po_cl_active p + 1\<rparr>
              | ClientIdle \<Rightarrow> p\<lparr>po_cl_idle := po_cl_idle p + 1\<rparr>
              | ClientWaiting \<Rightarrow> p\<lparr>po_cl_waiting := po_cl_waiting p + 1\<rparr>)
     in if 0 < ct_wait_start_us client
        then p\<lparr>po_maxwait := max (po_maxwait p) (get_current_wait_time_us elapsed client)\<rparr>
        else p)"

definition count_server :: "server_stats \<Rightarrow> pool_stats \<Rightarrow> pool_stats" where
  "count_server server p =
     (case ss_state server of
        ServerActive \<Rightarrow> p\<lparr>po_sv_active := po_sv_active p + 1\<rparr>
      | ServerIdle \<Rightarrow> p\<lparr>po_sv_idle := po_sv_idle p + 1\<rparr>
      | ServerLogin \<Rightarrow> p\<lparr>po_sv_login := po_sv_login p + 1\<rparr>
      | ServerTested \<Rightarrow> p\<lparr>po_sv_tested := po_sv_tested p + 1\<rparr>)"

text \<open>\<open>if let Some(v) = map.get_mut(&k)\<close>: change the entry of a key that is there.\<close>

definition map_adjust :: "'k \<Rightarrow> ('v \<Rightarrow> 'v) \<Rightarrow> ('k \<rightharpoonup> 'v) \<Rightarrow> 'k \<rightharpoonup> 'v" where
  "map_adjust k f m = (case m k of None \<Rightarrow> m | Some v \<Rightarrow> m(k \<mapsto> f v))"

definition client_pool :: "client_stats \<Rightarrow> pool_identifier" where
  "client_pool client = \<lparr> pi_db = ct_pool_name client, pi_user = ct_username client \<rparr>"

definition server_pool :: "server_stats \<Rightarrow> pool_identifier" where
  "server_pool server = \<lparr> pi_db = a_pool_name (ss_address server), pi_user = a_username (ss_address server) \<rparr>"

definition construct_pool_lookup ::
  "(pool_identifier \<times> pool_mode) list \<Rightarrow> (client_stats \<times> u64) list \<Rightarrow> server_stats list \<Rightarrow> pool_lookup" where
  "construct_pool_lookup pools clients servers =
     (let m = fold (\<lambda>(identifier, mode) m. m(identifier \<mapsto> pool_stats_new identifier mode)) pools Map.empty;
          m = fold (\<lambda>c m. map_adjust (client_pool (fst c)) (count_client c) m) clients m
      in fold (\<lambda>s m. map_adjust (server_pool s) (count_server s) m) servers m)"

definition pool_stats_header :: "(string \<times> data_type) list" where
  "pool_stats_header =
     [(''database'', Text), (''user'', Text), (''pool_mode'', Text), (''cl_idle'', Numeric),
      (''cl_active'', Numeric), (''cl_waiting'', Numeric), (''cl_cancel_req'', Numeric),
      (''sv_active'', Numeric), (''sv_idle'', Numeric), (''sv_used'', Numeric), (''sv_tested'', Numeric),
      (''sv_login'', Numeric), (''maxwait'', Numeric), (''maxwait_us'', Numeric)]"

definition pool_stats_row :: "pool_stats \<Rightarrow> string list" where
  "pool_stats_row self =
     [pi_db (po_identifier self), pi_user (po_identifier self), pool_mode_display (po_mode self)]
     @ map (\<lambda>n. show_nat (unat n))
         [po_cl_idle self, po_cl_active self, po_cl_waiting self, po_cl_cancel_req self,
          po_sv_active self, po_sv_idle self, po_sv_used self, po_sv_tested self, po_sv_login self,
          po_maxwait self div 1000000, po_maxwait self mod 1000000]"

definition pool_stats_into_iter :: "pool_stats \<Rightarrow> (string \<times> u64) list" where
  "pool_stats_into_iter self =
     [(''cl_idle'', po_cl_idle self), (''cl_active'', po_cl_active self), (''cl_waiting'', po_cl_waiting self),
      (''cl_cancel_req'', po_cl_cancel_req self), (''sv_active'', po_sv_active self), (''sv_idle'', po_sv_idle self),
      (''sv_used'', po_sv_used self), (''sv_tested'', po_sv_tested self), (''sv_login'', po_sv_login self),
      (''maxwait'', po_maxwait self div 1000000), (''maxwait_us'', po_maxwait self mod 1000000)]"

section \<open>Averages\<close>

lemma collect_server_once: "collect_server k (collect_server k stats) = collect_server k stats"
  by (auto simp: collect_server_def)

lemma fold_collect_server:
  "fold collect_server servers stats k = (if k \<in> set servers then collect_server k stats k else stats k)"
proof (induction servers arbitrary: stats)
  case (Cons s servers)
  have "collect_server k (collect_server s stats) k = collect_server k stats k"
    by (auto simp: collect_server_def)
  moreover have "collect_server s stats k = stats k" if "k \<noteq> s"
    using that by (simp add: collect_server_def)
  ultimately show ?case using Cons by auto
qed simp

lemma fold_clear_updated:
  "fold clear_updated servers stats k = (if k \<in> set servers then (stats k)\<lparr>as_averages_updated := False\<rparr> else stats k)"
proof (induction servers arbitrary: stats)
  case (Cons s servers)
  show ?case by (simp only: fold_Cons comp_apply Cons.IH) (auto simp: clear_updated_def)
qed simp

section \<open>Counting connections\<close>

lemma map_adjust_apply: "map_adjust k f m i = (if i = k then map_option f (m i) else m i)"
  by (auto simp: map_adjust_def split: option.split)

text \<open>Adjusting the entries of a list of keys applies, to each entry, the changes of its own key.\<close>

lemma fold_map_adjust:
  "fold (\<lambda>x m. map_adjust (k x) (f x) m) xs m i = map_option (fold f (filter (\<lambda>x. k x = i) xs)) (m i)"
proof (induction xs arbitrary: m)
  case (Cons x xs)
  then show ?case by (simp add: map_adjust_apply option.map_comp comp_def)
qed (simp add: option.map_id)

definition clients_of :: "pool_stats \<Rightarrow> u64" where
  "clients_of p = po_cl_idle p + po_cl_active p + po_cl_waiting p"

definition servers_of :: "pool_stats \<Rightarrow> u64" where
  "servers_of p = po_sv_active p + po_sv_idle p + po_sv_login p + po_sv_tested p"

lemma count_client_total: "clients_of (count_client c p) = clients_of p + 1" "servers_of (count_client c p) = servers_of p"
  by (cases c; cases "ct_state (fst c)"; simp add: count_client_def clients_of_def servers_of_def Let_def)+

lemma count_server_total: "servers_of (count_server s p) = servers_of p + 1" "clients_of (count_server s p) = clients_of p"
  by (cases "ss_state s"; simp add: count_server_def clients_of_def servers_of_def)+

lemma fold_count_clients:
  "clients_of (fold count_client cs p) = clients_of p + of_nat (length cs)"
  "servers_of (fold count_client cs p) = servers_of p"
  by (induction cs arbitrary: p) (simp_all add: count_client_total)

lemma fold_count_servers:
  "servers_of (fold count_server ss p) = servers_of p + of_nat (length ss)"
  "clients_of (fold count_server ss p) = clients_of p"
  by (induction ss arbitrary: p) (simp_all add: count_server_total)

lemma fold_new_pools:
  "fold (\<lambda>(identifier, mode) m. m(identifier \<mapsto> pool_stats_new identifier mode)) pools m i = Some p \<Longrightarrow>
   (\<exists>mode. (i, mode) \<in> set pools \<and> p = pool_stats_new i mode) \<or> m i = Some p"
  by (induction pools arbitrary: m) (fastforce split: if_splits)+

section \<open>Properties\<close>

text \<open>
  C37: each period, the averages of an address are computed once from the counts of the period, which
  then start again at zero, however many server connections share the address; the counters of
  addresses without connections stay as they are.
\<close>

theorem collect_tick_once:
  assumes "\<forall>k. \<not> as_averages_updated (stats k)"
  shows "collect_tick servers stats k =
    (if k \<in> set servers then reset_current_counts (update_averages (stats k)) else stats k)"
  using assms
  by (simp add: collect_tick_def fold_clear_updated fold_collect_server collect_server_def reset_current_counts_def update_averages_def Let_def)

theorem collect_tick_once_witness:
  "collect_tick [True, True] (\<lambda>_. address_stats_default\<lparr>as_current := no_counts\<lparr>sf_errors := 45\<rparr>\<rparr>) True
     = address_stats_default\<lparr>as_averages := no_counts\<lparr>sf_errors := 3\<rparr>\<rparr>
   \<and> collect_tick [True, True] (\<lambda>_. address_stats_default\<lparr>as_current := no_counts\<lparr>sf_errors := 45\<rparr>\<rparr>) False
     = address_stats_default\<lparr>as_current := no_counts\<lparr>sf_errors := 45\<rparr>\<rparr>"
  using collect_tick_once [of "\<lambda>_. address_stats_default\<lparr>as_current := no_counts\<lparr>sf_errors := 45\<rparr>\<rparr>" "[True, True]"]
  by (simp add: address_stats_default_def no_counts_def update_averages_def reset_current_counts_def STAT_PERIOD_def Let_def)

text \<open>
  \<open>SHOW POOLS\<close> accounts for every connection: in each row, the clients in the three states are the
  registered clients of that database and user, and the servers in the four states are the
  registered servers of the pool.
\<close>

theorem pool_lookup_accounts:
  assumes "construct_pool_lookup pools clients servers i = Some p"
  shows "clients_of p = of_nat (length (filter (\<lambda>c. client_pool (fst c) = i) clients))
    \<and> servers_of p = of_nat (length (filter (\<lambda>s. server_pool s = i) servers))
    \<and> i \<in> fst ` set pools"
proof -
  from assms obtain p0 where p0:
    "fold (\<lambda>(identifier, mode) m. m(identifier \<mapsto> pool_stats_new identifier mode)) pools Map.empty i = Some p0"
    and p: "p = fold count_server (filter (\<lambda>s. server_pool s = i) servers)
      (fold count_client (filter (\<lambda>c. client_pool (fst c) = i) clients) p0)"
    by (auto simp: construct_pool_lookup_def Let_def fold_map_adjust)
  from fold_new_pools [OF p0] obtain mode where "(i, mode) \<in> set pools" "p0 = pool_stats_new i mode" by auto
  moreover have "clients_of (pool_stats_new i mode) = 0" "servers_of (pool_stats_new i mode) = 0"
    by (simp_all add: clients_of_def servers_of_def pool_stats_new_def)
  ultimately show ?thesis
    by (auto simp: p fold_count_clients fold_count_servers intro: rev_image_eqI)
qed

theorem pool_lookup_accounts_witness:
  "map_option clients_of (construct_pool_lookup [(pool_identifier_new ''db'' ''u'', Session)]
     [(client_stats_new 1 ''app'' ''u'' ''db'', 5), (client_stats_new 2 ''app'' ''v'' ''db'', 5)] [] (pool_identifier_new ''db'' ''u'')) = Some 1"
proof -
  let ?i = "pool_identifier_new ''db'' ''u''"
  let ?cs = "[(client_stats_new 1 ''app'' ''u'' ''db'', 5 :: u64), (client_stats_new 2 ''app'' ''v'' ''db'', 5)]"
  have "construct_pool_lookup [(?i, Session)] ?cs [] ?i \<noteq> None"
    by (simp add: construct_pool_lookup_def map_adjust_apply)
  then obtain p where p: "construct_pool_lookup [(?i, Session)] ?cs [] ?i = Some p" by auto
  from pool_lookup_accounts [OF p] show ?thesis
    unfolding p by (simp add: client_pool_def client_stats_new_def client_stats_default_def pool_identifier_new_def)
qed

end
