(* ===== verification/Extended_Protocol.thy ===== *)
theory Extended_Protocol
  imports Messages
begin

text \<open>
  The messages of the extended query protocol in \<open>src/src/messages.rs\<close>: \<open>Parse\<close>, \<open>Bind\<close>, \<open>Describe\<close>
  and \<open>Close\<close> with their conversions from and to bytes, the renaming of prepared statements, and the
  key of the statement cache.  A \<open>char\<close> field holds a byte (\<open>u8 as char\<close> and back).  Lengths are
  computed in wrapping \<open>usize\<close> arithmetic and truncated to \<open>i32\<close>, as in the source.  The hash
  function of \<open>DefaultHasher\<close>, which Rust leaves unspecified, is an argument.
\<close>

section \<open>Parse\<close>

record parse_msg =
  p_code :: byte
  p_len :: i32
  p_name :: string
  p_query :: string
  p_num_params :: i16
  p_param_types :: "i32 list"

definition parse_try_from :: "bytes \<Rightarrow> parse_msg result" where
  "parse_try_from buf =
     rbind (get_u8 buf) (\<lambda>(code, cursor).
     rbind (get_i32 cursor) (\<lambda>(len, cursor).
     rbind (cursor_read_string cursor) (\<lambda>(name, cursor).
     rbind (cursor_read_string cursor) (\<lambda>(query, cursor).
     rbind (get_i16 cursor) (\<lambda>(num_params, cursor).
     rbind (get_many (range_count num_params) get_i32 cursor) (\<lambda>(param_types, cursor).
     Ok \<lparr> p_code = code, p_len = len, p_name = name, p_query = query, p_num_params = num_params,
          p_param_types = param_types \<rparr>))))))"

definition parse_to_bytes :: "parse_msg \<Rightarrow> bytes result" where
  "parse_to_bytes parse =
     rbind (cstring_new (p_name parse)) (\<lambda>name.
     rbind (cstring_new (p_query parse)) (\<lambda>query.
     let len = 4 + of_nat (length name) + of_nat (length query) + 2 + 4 * scast (p_num_params parse) :: usize
     in Ok (put_u8 (p_code parse) @ put_i32 (ucast len) @ name @ query @ put_i16 (p_num_params parse)
            @ concat (map put_i32 (p_param_types parse)))))"

text \<open>\<open>PREPARED_STATEMENT_COUNTER\<close> is passed in and returned.\<close>

definition parse_rewrite :: "usize \<Rightarrow> parse_msg \<Rightarrow> parse_msg \<times> usize" where
  "parse_rewrite counter self = (self\<lparr>p_name := ''PGCAT_'' @ show_nat (unat counter)\<rparr>, counter + 1)"

definition parse_get_name :: "bytes \<Rightarrow> string result" where
  "parse_get_name buf =
     rbind (advance (1 + 4) buf) (\<lambda>cursor.
     rbind (cursor_read_string cursor) (\<lambda>(name, cursor). Ok name))"

definition parse_hash_input :: "parse_msg \<Rightarrow> string" where
  "parse_hash_input self =
     p_query self @ show_int (sint (p_num_params self))
     @ join '','' (map (\<lambda>t. show_int (sint t)) (p_param_types self))"

definition parse_get_hash :: "(string \<Rightarrow> u64) \<Rightarrow> parse_msg \<Rightarrow> u64" where
  "parse_get_hash hasher self = hasher (parse_hash_input self)"

definition parse_anonymous :: "parse_msg \<Rightarrow> bool" where
  "parse_anonymous self = (p_name self = [])"

section \<open>Bind\<close>

record bind_msg =
  b_code :: byte
  b_len :: i64
  b_portal :: string
  b_prepared_statement :: string
  b_num_param_format_codes :: i16
  b_param_format_codes :: "i16 list"
  b_num_param_values :: i16
  b_param_values :: "(i32 \<times> bytes) list"
  b_num_result_column_format_codes :: i16
  b_result_columns_format_codes :: "i16 list"

definition get_param :: "bytes \<Rightarrow> ((i32 \<times> bytes) \<times> bytes) result" where
  "get_param cursor =
     rbind (get_i32 cursor) (\<lambda>(param_len, cursor).
       if 0 < sint param_len
       then rbind (get_bytes (unat param_len) cursor) (\<lambda>(param, cursor). Ok ((param_len, param), cursor))
       else Ok ((param_len, []), cursor))"

definition bind_try_from :: "bytes \<Rightarrow> bind_msg result" where
  "bind_try_from buf =
     rbind (get_u8 buf) (\<lambda>(code, cursor).
     rbind (get_i32 cursor) (\<lambda>(len, cursor).
     rbind (cursor_read_string cursor) (\<lambda>(portal, cursor).
     rbind (cursor_read_string cursor) (\<lambda>(prepared_statement, cursor).
     rbind (get_i16 cursor) (\<lambda>(num_param_format_codes, cursor).
     rbind (get_many (range_count num_param_format_codes) get_i16 cursor) (\<lambda>(param_format_codes, cursor).
     rbind (get_i16 cursor) (\<lambda>(num_param_values, cursor).
     rbind (get_many (range_count num_param_values) get_param cursor) (\<lambda>(param_values, cursor).
     rbind (get_i16 cursor) (\<lambda>(num_result_column_format_codes, cursor).
     rbind (get_many (range_count num_result_column_format_codes) get_i16 cursor)
       (\<lambda>(result_columns_format_codes, cursor).
     Ok \<lparr> b_code = code, b_len = scast len, b_portal = portal,
          b_prepared_statement = prepared_statement,
          b_num_param_format_codes = num_param_format_codes,
          b_param_format_codes = param_format_codes,
          b_num_param_values = num_param_values, b_param_values = param_values,
          b_num_result_column_format_codes = num_result_column_format_codes,
          b_result_columns_format_codes = result_columns_format_codes \<rparr>))))))))))"

definition bind_to_bytes :: "bind_msg \<Rightarrow> bytes result" where
  "bind_to_bytes bind =
     rbind (cstring_new (b_portal bind)) (\<lambda>portal.
     rbind (cstring_new (b_prepared_statement bind)) (\<lambda>prepared_statement.
     let len = 4 + of_nat (length portal) + of_nat (length prepared_statement)
               + 2 + 2 * scast (b_num_param_format_codes bind) + 2 :: usize;
         len = foldl (\<lambda>len (param_len, _). len + (4 + scast param_len)) len (b_param_values bind);
         len = len + 2;
         len = len + 2 * scast (b_num_result_column_format_codes bind)
     in Ok (put_u8 (b_code bind) @ put_i32 (ucast len) @ portal @ prepared_statement
            @ put_i16 (b_num_param_format_codes bind)
            @ concat (map put_i16 (b_param_format_codes bind))
            @ put_i16 (b_num_param_values bind)
            @ concat (map (\<lambda>(param_len, param). put_i32 param_len @ param) (b_param_values bind))
            @ put_i16 (b_num_result_column_format_codes bind)
            @ concat (map put_i16 (b_result_columns_format_codes bind)))))"

definition bind_get_name :: "bytes \<Rightarrow> string result" where
  "bind_get_name buf =
     rbind (advance (1 + 4) buf) (\<lambda>cursor.
     rbind (cursor_read_string cursor) (\<lambda>(_, cursor).
     rbind (cursor_read_string cursor) (\<lambda>(name, cursor). Ok name)))"

definition bind_rename :: "bytes \<Rightarrow> string \<Rightarrow> bytes result" where
  "bind_rename buf new_name =
     rbind (get_u8 buf) (\<lambda>(code, cursor).
     rbind (get_i32 cursor) (\<lambda>(current_len, cursor).
     rbind (cursor_read_string cursor) (\<lambda>(portal, cursor).
     rbind (cursor_read_string cursor) (\<lambda>(prepared_statement, cursor).
     let new_len = current_len + of_nat (length new_name) - of_nat (length prepared_statement)
     in if 9223372036854775807 < unat (scast new_len + 1 :: usize) then Panic
        else rbind (cstring_new portal) (\<lambda>portal.
             rbind (cstring_new new_name) (\<lambda>new_name.
             Ok (put_u8 code @ put_i32 new_len @ portal @ new_name @ cursor)))))))"

definition bind_anonymous :: "bind_msg \<Rightarrow> bool" where
  "bind_anonymous self = (b_prepared_statement self = [])"

section \<open>Describe\<close>

record describe_msg =
  d_code :: byte
  d_len :: i32
  d_target :: byte
  d_statement_name :: string

definition describe_try_from :: "bytes \<Rightarrow> describe_msg result" where
  "describe_try_from bytes =
     rbind (get_u8 bytes) (\<lambda>(code, cursor).
     rbind (get_i32 cursor) (\<lambda>(len, cursor).
     rbind (get_u8 cursor) (\<lambda>(target, cursor).
     rbind (cursor_read_string cursor) (\<lambda>(statement_name, cursor).
     Ok \<lparr> d_code = code, d_len = len, d_target = target, d_statement_name = statement_name \<rparr>))))"

definition describe_to_bytes :: "describe_msg \<Rightarrow> bytes result" where
  "describe_to_bytes describe =
     rbind (cstring_new (d_statement_name describe)) (\<lambda>statement_name.
     let len = 4 + 1 + of_nat (length statement_name) :: usize
     in Ok (put_u8 (d_code describe) @ put_i32 (ucast len) @ put_u8 (d_target describe) @ statement_name))"

definition describe_empty_new :: describe_msg where
  "describe_empty_new = \<lparr> d_code = CHR ''D'', d_len = 4 + 1 + 1, d_target = CHR ''S'', d_statement_name = [] \<rparr>"

definition describe_rename :: "describe_msg \<Rightarrow> string \<Rightarrow> describe_msg" where
  "describe_rename self name = self\<lparr>d_statement_name := name\<rparr>"

definition describe_anonymous :: "describe_msg \<Rightarrow> bool" where
  "describe_anonymous self = (d_statement_name self = [])"

section \<open>Close\<close>

record close_msg =
  c_code :: byte
  c_len :: i32
  c_close_type :: byte
  c_name :: string

definition close_try_from :: "bytes \<Rightarrow> close_msg result" where
  "close_try_from bytes =
     rbind (get_u8 bytes) (\<lambda>(code, cursor).
     rbind (get_i32 cursor) (\<lambda>(len, cursor).
     rbind (get_u8 cursor) (\<lambda>(close_type, cursor).
     rbind (cursor_read_string cursor) (\<lambda>(name, cursor).
     Ok \<lparr> c_code = code, c_len = len, c_close_type = close_type, c_name = name \<rparr>))))"

definition close_to_bytes :: "close_msg \<Rightarrow> bytes result" where
  "close_to_bytes close =
     rbind (cstring_new (c_name close)) (\<lambda>name.
     let len = 4 + 1 + of_nat (length name) :: usize
     in Ok (put_u8 (c_code close) @ put_i32 (ucast len) @ put_u8 (c_close_type close) @ name))"

definition close_new :: "string \<Rightarrow> close_msg" where
  "close_new name =
     \<lparr> c_code = CHR ''C'', c_len = 4 + 1 + of_nat (length name) + 1, c_close_type = CHR ''S'', c_name = name \<rparr>"

definition close_is_prepared_statement :: "close_msg \<Rightarrow> bool" where
  "close_is_prepared_statement self = (c_close_type self = CHR ''S'')"

definition close_anonymous :: "close_msg \<Rightarrow> bool" where
  "close_anonymous self = (c_name self = [])"

section \<open>The client's buffer of extended protocol messages\<close>

datatype extended_protocol_data =
    ExtParse bytes "(parse_msg \<times> u64) option"
  | ExtBind bytes "string option"
  | ExtDescribe bytes "string option"
  | ExtExecute bytes
  | ExtClose bytes close_msg

definition create_new_parse :: "bytes \<Rightarrow> (parse_msg \<times> u64) option \<Rightarrow> extended_protocol_data" where
  "create_new_parse data metadata = ExtParse data metadata"

definition create_new_bind :: "bytes \<Rightarrow> string option \<Rightarrow> extended_protocol_data" where
  "create_new_bind data metadata = ExtBind data metadata"

definition create_new_describe :: "bytes \<Rightarrow> string option \<Rightarrow> extended_protocol_data" where
  "create_new_describe data metadata = ExtDescribe data metadata"

definition create_new_execute :: "bytes \<Rightarrow> extended_protocol_data" where
  "create_new_execute data = ExtExecute data"

definition create_new_close :: "bytes \<Rightarrow> close_msg \<Rightarrow> extended_protocol_data" where
  "create_new_close data close = ExtClose data close"

section \<open>Conversions\<close>

lemma get_u8_put [simp]: "get_u8 (put_u8 c @ r) = Ok (c, r)"
  by (rule byte_codec.dec_enc) simp

lemma get_i16_put [simp]: "get_i16 (put_i16 w @ r) = Ok (w, r)"
  by (rule i16_codec.dec_enc) simp

lemma get_i32_put [simp]: "get_i32 (put_i32 w @ r) = Ok (w, r)"
  by (rule i32_codec.dec_enc) simp

lemma read_put_cstring [simp]: "wf_cstring s \<Longrightarrow> cursor_read_string (put_cstring s @ r) = Ok (s, r)"
  by (rule cursor_string.dec_enc)

lemma wf_cstringD [simp]: "wf_cstring s \<Longrightarrow> cstring_new s = Ok (put_cstring s)"
  by (simp add: wf_cstring_def)

lemma sint_of_nat16: "n < 32768 \<Longrightarrow> sint (of_nat n :: i16) = int n"
  by (simp add: signed_of_nat signed_take_bit_int_eq_self)

lemma range_count_of_nat [simp]: "n < 32768 \<Longrightarrow> range_count (of_nat n) = n"
  by (simp add: range_count_def sint_of_nat16)

lemma scast_of_nat16 [simp]: "n < 32768 \<Longrightarrow> (scast (of_nat n :: i16) :: usize) = of_nat n"
  by (simp add: scast_eq sint_of_nat16)

text \<open>Truncation from \<open>usize\<close> to \<open>i32\<close> respects the ring operations.\<close>

lemma of_nat_mod64: "(of_nat (n mod 18446744073709551616) :: i32) = of_nat n"
proof -
  have "(4294967296 :: nat) dvd 18446744073709551616" by simp
  from mod_mod_cancel [OF this, of n] show ?thesis
    by (simp only: word_unat_eq_iff unat_of_nat) simp
qed

lemma ucast_usize: "(ucast (x :: usize) :: i32) = of_nat (unat x)"
  by (simp add: word_unat_eq_iff unsigned_ucast_eq unsigned_of_nat)

lemma ucast_usize_simps [simp]:
  "(ucast (of_nat n :: usize) :: i32) = of_nat n"
  "(ucast (x + y :: usize) :: i32) = ucast x + ucast y"
  "(ucast (x * y :: usize) :: i32) = ucast x * ucast y"
  by (simp_all add: ucast_usize unat_word_ariths unat_of_nat of_nat_mod64 del: of_nat_unat)

lemma ucast_scast_i32 [simp]: "(ucast (scast (w :: i32) :: usize) :: i32) = w"
  by (rule bit_word_eqI) (simp add: bit_simps)

text \<open>
  The contract of the four messages: what is written for a well-formed message, the decoder reads
  back with the length of the bytes in the length field, and the length field is not an input of
  the encoder.
\<close>

locale message_codec =
  fixes to_bytes :: "'a \<Rightarrow> bytes result" and try_from :: "bytes \<Rightarrow> 'a result" and wf :: "'a \<Rightarrow> bool"
    and set_len :: "i32 \<Rightarrow> 'a \<Rightarrow> 'a"
  assumes encode: "wf x \<Longrightarrow> \<exists>b. to_bytes x = Ok b \<and> try_from b = Ok (set_len (of_nat (length b - 1)) x)"
    and len_ignored: "to_bytes (set_len l x) = to_bytes x"
    and set_len_twice: "set_len l (set_len l' x) = set_len l x"
begin

lemma reencode: "wf x \<Longrightarrow> rbind (to_bytes x) (\<lambda>b. rbind (try_from b) to_bytes) = to_bytes x"
  using encode [of x] len_ignored by auto

lemma to_bytes_inj:
  assumes "wf x" "wf y" "to_bytes x = to_bytes y"
  shows "set_len l x = set_len l y"
proof -
  obtain b where "to_bytes x = Ok b" "try_from b = Ok (set_len (of_nat (length b - 1)) x)"
    using encode [OF assms(1)] by blast
  moreover obtain c where "to_bytes y = Ok c" "try_from c = Ok (set_len (of_nat (length c - 1)) y)"
    using encode [OF assms(2)] by blast
  ultimately have "set_len (of_nat (length b - 1)) x = set_len (of_nat (length b - 1)) y"
    using assms(3) by simp
  then show ?thesis using set_len_twice by metis
qed

end

definition parse_body :: "parse_msg \<Rightarrow> bytes" where
  "parse_body p = put_cstring (p_name p) @ put_cstring (p_query p) @ put_i16 (p_num_params p)
     @ concat (map put_i32 (p_param_types p))"

definition wf_parse :: "parse_msg \<Rightarrow> bool" where
  "wf_parse p \<longleftrightarrow> wf_cstring (p_name p) \<and> wf_cstring (p_query p) \<and> length (p_param_types p) < 32768
     \<and> p_num_params p = of_nat (length (p_param_types p))"

lemma length_concat_const: "(\<And>x. length (f x) = n) \<Longrightarrow> length (concat (map f xs)) = n * length xs"
  by (induction xs) auto

lemma parse_to_bytes_frame: "wf_parse p \<Longrightarrow> parse_to_bytes p = Ok (frame (p_code p) (parse_body p))"
proof -
  assume wf: "wf_parse p"
  have "(ucast (4 + of_nat (length (put_cstring (p_name p))) + of_nat (length (put_cstring (p_query p))) + 2
      + 4 * scast (p_num_params p) :: usize) :: i32) = of_nat (length (parse_body p)) + 4"
    using wf by (simp add: wf_parse_def parse_body_def length_concat_const)
  with wf show ?thesis
    by (simp add: parse_to_bytes_def wf_parse_def frame_def parse_body_def Let_def)
qed

lemma parse_try_from_body:
  "wf_parse p \<Longrightarrow> parse_try_from (c # put_i32 len @ parse_body p) = Ok (p\<lparr>p_code := c, p_len := len\<rparr>)"
  using i32_codec.get_many_enc [of "p_param_types p" "length (p_param_types p)" "[]"]
  by (simp add: parse_try_from_def wf_parse_def parse_body_def)

interpretation parse_codec: message_codec parse_to_bytes parse_try_from wf_parse "\<lambda>l p. p\<lparr>p_len := l\<rparr>"
proof
  fix p assume "wf_parse p"
  then show "\<exists>b. parse_to_bytes p = Ok b \<and> parse_try_from b = Ok (p\<lparr>p_len := of_nat (length b - 1)\<rparr>)"
    by (simp add: parse_to_bytes_frame frame_def parse_try_from_body add.commute)
qed (simp_all add: parse_to_bytes_def)

definition wf_describe :: "describe_msg \<Rightarrow> bool" where
  "wf_describe d \<longleftrightarrow> wf_cstring (d_statement_name d)"

interpretation describe_codec: message_codec describe_to_bytes describe_try_from wf_describe "\<lambda>l d. d\<lparr>d_len := l\<rparr>"
proof
  fix d assume "wf_describe d"
  then show "\<exists>b. describe_to_bytes d = Ok b \<and> describe_try_from b = Ok (d\<lparr>d_len := of_nat (length b - 1)\<rparr>)"
    using read_put_cstring [of "d_statement_name d" "[]"]
    by (simp add: describe_to_bytes_def wf_describe_def describe_try_from_def)
qed (simp_all add: describe_to_bytes_def)

definition wf_close :: "close_msg \<Rightarrow> bool" where
  "wf_close c \<longleftrightarrow> wf_cstring (c_name c)"

interpretation close_codec: message_codec close_to_bytes close_try_from wf_close "\<lambda>l c. c\<lparr>c_len := l\<rparr>"
proof
  fix c assume "wf_close c"
  then show "\<exists>b. close_to_bytes c = Ok b \<and> close_try_from b = Ok (c\<lparr>c_len := of_nat (length b - 1)\<rparr>)"
    using read_put_cstring [of "c_name c" "[]"]
    by (simp add: close_to_bytes_def wf_close_def close_try_from_def)
qed (simp_all add: close_to_bytes_def)

text \<open>The values of a Bind: a positive length and as many bytes, or a length that is not positive and none.\<close>

definition put_param :: "i32 \<times> bytes \<Rightarrow> bytes" where
  "put_param v = put_i32 (fst v) @ snd v"

definition wf_param :: "i32 \<times> bytes \<Rightarrow> bool" where
  "wf_param v \<longleftrightarrow> (if 0 < sint (fst v) then length (snd v) = unat (fst v) else snd v = [])"

interpretation param_codec: wire_bijection put_param get_param wf_param
proof
  show "wf_param v \<Longrightarrow> get_param (put_param v @ rest) = Ok (v, rest)" for v rest
    by (cases v) (auto simp: wf_param_def put_param_def get_param_def get_bytes_def)
  show "get_param bs = Ok (v, rest) \<Longrightarrow> wf_param v \<and> bs = put_param v @ rest" for bs v rest
    by (auto simp: get_param_def wf_param_def put_param_def dest!: i32_codec.enc_dec split: if_splits)
qed


definition bind_body :: "bind_msg \<Rightarrow> bytes" where
  "bind_body b = put_cstring (b_portal b) @ put_cstring (b_prepared_statement b)
     @ put_i16 (b_num_param_format_codes b) @ concat (map put_i16 (b_param_format_codes b))
     @ put_i16 (b_num_param_values b) @ concat (map put_param (b_param_values b))
     @ put_i16 (b_num_result_column_format_codes b) @ concat (map put_i16 (b_result_columns_format_codes b))"

definition counted :: "i16 \<Rightarrow> 'a list \<Rightarrow> bool" where
  "counted n xs \<longleftrightarrow> length xs < 32768 \<and> n = of_nat (length xs)"

text \<open>A length is that of the value, or -1 for NULL.\<close>

definition wf_bind :: "bind_msg \<Rightarrow> bool" where
  "wf_bind b \<longleftrightarrow> wf_cstring (b_portal b) \<and> wf_cstring (b_prepared_statement b)
     \<and> counted (b_num_param_format_codes b) (b_param_format_codes b)
     \<and> counted (b_num_param_values b) (b_param_values b)
     \<and> counted (b_num_result_column_format_codes b) (b_result_columns_format_codes b)
     \<and> list_all (\<lambda>(l, v). if l = - 1 then v = [] else length v < 2147483648 \<and> l = of_nat (length v)) (b_param_values b)"

definition null_params :: "bind_msg \<Rightarrow> nat" where
  "null_params b = length (filter (\<lambda>(l, v). l = - 1) (b_param_values b))"

lemma wf_param_bound:
  assumes "if l = - 1 then v = [] else length v < 2147483648 \<and> l = of_nat (length v)"
  shows "wf_param (l, v)"
proof (cases "l = - 1")
  case False
  then have "length v < 2147483648" "l = of_nat (length v)" using assms by auto
  then show ?thesis using sint_i32 [of "length v"] by (auto simp: wf_param_def unat_of_nat_small)
qed (use assms in \<open>simp add: wf_param_def\<close>)

lemma params_length:
  "list_all (\<lambda>(l, v). if l = - 1 then v = [] else length v < 2147483648 \<and> l = of_nat (length v)) vs \<Longrightarrow>
   (ucast (foldl (\<lambda>len (param_len, _). len + (4 + scast param_len)) len vs :: usize) :: i32)
   = ucast len + of_nat (length (concat (map put_param vs))) - of_nat (length (filter (\<lambda>(l, v). l = - 1) vs))"
proof (induction vs arbitrary: len)
  case (Cons p vs)
  obtain l v where p: "p = (l, v)" by force
  show ?case using Cons.prems Cons.IH [of "len + (4 + scast l)"]
    by (auto simp: p put_param_def)
qed simp

lemma bind_to_bytes_body:
  assumes "wf_bind b"
  shows "bind_to_bytes b = Ok (b_code b # put_i32 (of_nat (length (bind_body b)) + 4 - of_nat (null_params b)) @ bind_body b)"
proof -
  have *: "(\<lambda>(l, v). put_i32 l @ v) = put_param" by (auto simp: put_param_def)
  show ?thesis
    using assms
    by (simp add: bind_to_bytes_def wf_bind_def counted_def Let_def params_length * length_concat_const
        bind_body_def null_params_def)
qed

lemma bind_try_from_body:
  assumes "wf_bind b"
  shows "bind_try_from (c # put_i32 len @ bind_body b) = Ok (b\<lparr>b_code := c, b_len := scast len\<rparr>)"
proof -
  have "\<forall>v \<in> set (b_param_values b). wf_param v"
    using assms wf_param_bound by (auto simp: wf_bind_def list_all_iff)
  then show ?thesis
    using assms i16_codec.get_many_enc [of "b_result_columns_format_codes b" _ "[]"]
    by (simp add: bind_try_from_def wf_bind_def counted_def bind_body_def i16_codec.get_many_enc param_codec.get_many_enc)
qed

lemma bind_rename_body:
  assumes "wf_cstring portal" "wf_cstring statement" "CHR 0x00 \<notin> set new_name"
    and "length portal + length statement + length new_name + length rest < 2147483000"
  shows "bind_rename (frame c (put_cstring portal @ put_cstring statement @ rest)) new_name
    = Ok (frame c (put_cstring portal @ put_cstring new_name @ rest))"
proof -
  define new_len :: i32 where "new_len = of_nat (length portal + length new_name + length rest + 6)"
  have "sint new_len = int (length portal + length new_name + length rest + 6)"
    using assms(4) sint_i32 [of "length portal + length new_name + length rest + 6"] by (simp only: new_len_def) simp
  then have cap: "\<not> 9223372036854775807 < unat (scast new_len + 1 :: usize)"
    by (simp only: read_message_arith(1))
  have "of_nat (length (put_cstring portal @ put_cstring statement @ rest)) + 4
      + of_nat (length new_name) - of_nat (length statement) = new_len"
    by (simp add: new_len_def)
  moreover have "of_nat (length (put_cstring portal @ put_cstring new_name @ rest)) + 4 = new_len"
    by (simp add: new_len_def)
  ultimately show ?thesis
    using assms cap by (simp add: bind_rename_def frame_def Let_def)
qed


lemma bind_get_name_frame:
  "wf_cstring portal \<Longrightarrow> wf_cstring statement \<Longrightarrow>
   bind_get_name (frame c (put_cstring portal @ put_cstring statement @ rest)) = Ok statement"
  by (simp add: bind_get_name_def frame_def advance_def)

text \<open>Two messages for the examples: a Parse with one parameter, a Bind with a NULL.\<close>

definition sample_parse :: parse_msg where
  "sample_parse = \<lparr>p_code = CHR ''P'', p_len = 0, p_name = ''s1'', p_query = ''SELECT $1'', p_num_params = 1, p_param_types = [20]\<rparr>"

definition sample_bind :: bind_msg where
  "sample_bind = \<lparr>b_code = CHR ''B'', b_len = 0, b_portal = [], b_prepared_statement = ''s1'', b_num_param_format_codes = 0,
     b_param_format_codes = [], b_num_param_values = 2, b_param_values = [(- 1, []), (3, ''abc'')],
     b_num_result_column_format_codes = 1, b_result_columns_format_codes = [0]\<rparr>"

lemma sample_wf: "wf_parse sample_parse" "wf_bind sample_bind" "null_params sample_bind = 1"
  by (simp_all add: sample_parse_def sample_bind_def wf_parse_def wf_bind_def wf_cstring_def utf8_ascii counted_def null_params_def)

section \<open>Properties\<close>

text \<open>
  C40: a Parse message survives the conversion to bytes and back: the bytes are one framed message,
  and parsing them gives the message with its length filled in.
\<close>

theorem parse_roundtrip:
  assumes "wf_parse p" "length (p_name p) + length (p_query p) < 2147000000"
  shows "\<exists>b. parse_to_bytes p = Ok b \<and> framed b \<and> parse_try_from b = Ok (p\<lparr>p_len := of_nat (length b - 1)\<rparr>)"
proof -
  have "length (parse_body p) + 4 < 2147483648"
    using assms by (simp add: wf_parse_def parse_body_def length_concat_const)
  then show ?thesis
    using parse_codec.encode [OF assms(1)] assms(1) by (auto simp: parse_to_bytes_frame)
qed

theorem parse_roundtrip_witness:
  "\<exists>b. parse_to_bytes sample_parse = Ok b \<and> framed b
     \<and> parse_try_from b = Ok (sample_parse\<lparr>p_len := of_nat (length b - 1)\<rparr>)"
  using parse_roundtrip [OF sample_wf(1)] by (simp add: sample_parse_def)

text \<open>
  C38: a Bind message survives the conversion to bytes and back, NULL values included; the length
  it writes is short by one for each NULL (whose length of -1 is added in), and right without NULLs.
\<close>

theorem bind_roundtrip:
  assumes "wf_bind b"
  shows "\<exists>len rest. bind_to_bytes b = Ok (b_code b # put_i32 len @ rest)
    \<and> bind_try_from (b_code b # put_i32 len @ rest) = Ok (b\<lparr>b_len := scast len\<rparr>)
    \<and> len + of_nat (null_params b) = of_nat (4 + length rest)"
  using bind_to_bytes_body [OF assms] bind_try_from_body [OF assms] by fastforce

theorem bind_roundtrip_witness:
  "\<exists>len rest. bind_to_bytes sample_bind = Ok (CHR ''B'' # put_i32 len @ rest)
    \<and> bind_try_from (CHR ''B'' # put_i32 len @ rest) = Ok (sample_bind\<lparr>b_len := scast len\<rparr>)
    \<and> len + 1 = of_nat (4 + length rest)"
  using bind_roundtrip [OF sample_wf(2)] by (simp add: sample_wf) (simp add: sample_bind_def)

text \<open>
  Describe and Close messages survive the conversion to bytes and back.
\<close>

theorem describe_close_roundtrip:
  assumes "wf_describe d" "wf_close c"
  shows "(\<exists>b. describe_to_bytes d = Ok b \<and> describe_try_from b = Ok (d\<lparr>d_len := of_nat (length b - 1)\<rparr>))
    \<and> (\<exists>b. close_to_bytes c = Ok b \<and> close_try_from b = Ok (c\<lparr>c_len := of_nat (length b - 1)\<rparr>))"
  using describe_codec.encode [OF assms(1)] close_codec.encode [OF assms(2)] by blast

theorem describe_close_roundtrip_witness:
  "(\<exists>b. describe_to_bytes describe_empty_new = Ok b
      \<and> describe_try_from b = Ok (describe_empty_new\<lparr>d_len := of_nat (length b - 1)\<rparr>))
    \<and> (\<exists>b. close_to_bytes (close_new ''s1'') = Ok b
      \<and> close_try_from b = Ok (close_new ''s1''\<lparr>c_len := of_nat (length b - 1)\<rparr>))"
  using describe_close_roundtrip [of describe_empty_new "close_new ''s1''"]
  by (simp add: wf_describe_def describe_empty_new_def wf_close_def close_new_def wf_cstring_def utf8_ascii)

text \<open>
  C36: renaming the prepared statement of a Bind message changes the name and the length and
  nothing else: the result is framed, its name is the new one, and the portal and all that follows
  the name are kept.
\<close>

theorem bind_rename_correct:
  assumes "wf_cstring portal" "wf_cstring statement" "wf_cstring new_name"
    and "length portal + length statement + length new_name + length rest < 2147483000"
  shows "\<exists>b. bind_rename (frame CHR ''B'' (put_cstring portal @ put_cstring statement @ rest)) new_name = Ok b
    \<and> framed b \<and> bind_get_name b = Ok new_name
    \<and> b = frame CHR ''B'' (put_cstring portal @ put_cstring new_name @ rest)"
  using assms bind_rename_body [of portal statement new_name rest]
  by (auto simp: wf_cstring_def bind_get_name_frame)

theorem bind_rename_correct_witness:
  "bind_rename (frame CHR ''B'' (put_cstring [] @ put_cstring ''s1'' @ [CHR 0x00])) ''PGCAT_7''
    = Ok (frame CHR ''B'' (put_cstring [] @ put_cstring ''PGCAT_7'' @ [CHR 0x00]))"
  using bind_rename_correct [of "[]" "''s1''" "''PGCAT_7''" "[CHR 0x00]"]
  by (simp add: wf_cstring_def utf8_ascii)

text \<open>
  The name that \<open>Bind::get_name\<close> reads without parsing the message, and the one of
  \<open>Parse::get_name\<close>, are the names of the parsed messages.
\<close>

theorem get_name_agrees:
  "(bind_try_from buf = Ok b \<longrightarrow> bind_get_name buf = Ok (b_prepared_statement b)) \<and>
   (parse_try_from buf = Ok p \<longrightarrow> parse_get_name buf = Ok (p_name p))"
  by (auto simp: bind_try_from_def parse_try_from_def bind_get_name_def parse_get_name_def advance_def
      put_u8_def dest!: byte_codec.enc_dec i32_codec.enc_dec)

theorem get_name_agrees_witness:
  "bind_get_name (CHR ''B'' # put_i32 9 @ bind_body sample_bind) = Ok ''s1''
   \<and> parse_get_name (CHR ''P'' # put_i32 9 @ parse_body sample_parse) = Ok ''s1''"
  using get_name_agrees [of "CHR ''B'' # put_i32 9 @ bind_body sample_bind"]
    get_name_agrees [of "CHR ''P'' # put_i32 9 @ parse_body sample_parse"]
    bind_try_from_body [OF sample_wf(2)] parse_try_from_body [OF sample_wf(1)]
  by (simp add: sample_bind_def sample_parse_def)

text \<open>
  The key of the statement cache is ambiguous: for every query, the Parse message with one
  parameter type 20 (bigint) and the one with the text 12 appended to the query and no parameter
  types have the same key under every hash function; with equal parameter types the key determines
  the query.
\<close>

theorem parse_hash_collision:
  "parse_get_hash hasher \<lparr>p_code = CHR ''P'', p_len = l, p_name = n, p_query = query, p_num_params = 1, p_param_types = [20]\<rparr>
   = parse_get_hash hasher \<lparr>p_code = CHR ''P'', p_len = l', p_name = n', p_query = query @ ''12'', p_num_params = 0, p_param_types = []\<rparr>
   \<and> (parse_hash_input p = parse_hash_input (p\<lparr>p_query := q\<rparr>) \<longleftrightarrow> q = p_query p)"
  by (auto simp: parse_get_hash_def parse_hash_input_def show_int_def show_nat.simps digit_char_def char_of_eval)

text \<open>
  The global counter gives every rewritten Parse message a name of its own, which a server
  reads back from the bytes.
\<close>

theorem parse_rewrite_fresh:
  assumes "wf_parse p"
  shows "(fst (parse_rewrite i p) = fst (parse_rewrite j p) \<longleftrightarrow> i = j)
    \<and> (\<exists>b. parse_to_bytes (fst (parse_rewrite i p)) = Ok b \<and> parse_get_name b = Ok (p_name (fst (parse_rewrite i p))))"
proof -
  have "fst (parse_rewrite i p) = fst (parse_rewrite j p) \<longleftrightarrow> i = j"
    by (auto simp: parse_rewrite_def word_unat_eq_iff dest!: arg_cong [of _ _ p_name] show_nat_inj)
  moreover have wf: "wf_parse (fst (parse_rewrite i p))"
    using assms show_nat_no_zero by (auto simp: parse_rewrite_def wf_parse_def wf_cstring_def utf8_ascii)
  then have "parse_get_name (frame c (parse_body (fst (parse_rewrite i p)))) = Ok (p_name (fst (parse_rewrite i p)))" for c
    by (simp add: parse_get_name_def frame_def parse_body_def advance_def wf_parse_def)
  ultimately show ?thesis using parse_to_bytes_frame [OF wf] by blast
qed

theorem parse_rewrite_fresh_witness:
  "fst (parse_rewrite 3 sample_parse) \<noteq> fst (parse_rewrite 4 sample_parse)"
  using parse_rewrite_fresh [OF sample_wf(1), of 3 4] by simp

end
