(* ===== verification/Statement_Cache.thy ===== *)
theory Statement_Cache
  imports Extended_Protocol
begin

text \<open>
  The cache of prepared statements of a pool, \<open>PreparedStatementCache\<close> in \<open>src/src/pool.rs\<close>, and
  the interface of the \<open>LruCache\<close> it is made of, which the server connections use as well.

  \<open>LruCache\<close> belongs to another package: its operations are an argument, a record of functions on an
  arbitrary type of caches, and the locale \<open>lru_cache\<close> states what its documentation promises.
\<close>

section \<open>The interface of \<open>LruCache\<close>\<close>

record ('k, 'v, 'c) lru_ops =
  lru_new :: "usize \<Rightarrow> 'c"
  lru_get :: "'k \<Rightarrow> 'c \<Rightarrow> 'v option \<times> 'c"
  lru_push :: "'k \<Rightarrow> 'v \<Rightarrow> 'c \<Rightarrow> ('k \<times> 'v) option \<times> 'c"
  lru_pop :: "'k \<Rightarrow> 'c \<Rightarrow> 'v option \<times> 'c"
  lru_promote :: "'k \<Rightarrow> 'c \<Rightarrow> 'c"
  lru_clear :: "'c \<Rightarrow> 'c"

text \<open>
  \<open>entries\<close> are the entries of a cache.  \<open>push\<close> returns the entry it replaced: the old one of
  the same key, or the one it evicted.
\<close>

locale lru_cache =
  fixes ops :: "('k, 'v, 'c) lru_ops" and entries :: "'c \<Rightarrow> 'k \<rightharpoonup> 'v"
  assumes new: "entries (lru_new ops n) = Map.empty"
    and get: "lru_get ops k c = (r, c') \<Longrightarrow> r = entries c k \<and> entries c' = entries c"
    and push: "lru_push ops k v c = (old, c') \<Longrightarrow>
      (case old of
         None \<Rightarrow> entries c k = None \<and> entries c' = (entries c)(k \<mapsto> v)
       | Some (k', v') \<Rightarrow> entries c k' = Some v' \<and> (k' = k \<or> entries c k = None)
           \<and> entries c' = (entries c)(k' := None, k \<mapsto> v))"
    and pop: "lru_pop ops k c = (r, c') \<Longrightarrow> r = entries c k \<and> entries c' = (entries c)(k := None)"
    and promote: "entries (lru_promote ops k c) = entries c"
    and clear: "entries (lru_clear ops c) = Map.empty"
begin

lemma get_simps [simp]: "fst (lru_get ops k c) = entries c k" "entries (snd (lru_get ops k c)) = entries c"
  using get [of k c] by (cases "lru_get ops k c"; simp)+

lemma pop_simps [simp]: "entries (snd (lru_pop ops k c)) = (entries c)(k := None)"
  using pop [of k c] by (cases "lru_pop ops k c") simp

lemma push_lookup: "entries (snd (lru_push ops k v c)) k = Some v"
  using push [of k v c] by (cases "lru_push ops k v c") (auto split: option.splits)

lemma push_other: "k' \<noteq> k \<Longrightarrow> entries (snd (lru_push ops k v c)) k' = Some v' \<Longrightarrow> entries c k' = Some v'"
  using push [of k v c] by (cases "lru_push ops k v c") (auto split: option.splits if_splits)

end

section \<open>A cache as a list\<close>

text \<open>The most recently used entry comes first; the capacity is kept beside the entries.\<close>

type_synonym ('k, 'v) lru_list = "nat \<times> ('k \<times> 'v) list"

definition list_entries :: "('k, 'v) lru_list \<Rightarrow> 'k \<rightharpoonup> 'v" where
  "list_entries c = map_of (snd c)"

definition list_without :: "'k \<Rightarrow> ('k \<times> 'v) list \<Rightarrow> ('k \<times> 'v) list" where
  "list_without k xs = filter (\<lambda>(k', _). k' \<noteq> k) xs"

definition list_push :: "'k \<Rightarrow> 'v \<Rightarrow> ('k, 'v) lru_list \<Rightarrow> ('k \<times> 'v) option \<times> ('k, 'v) lru_list" where
  "list_push k v c =
     (case c of (cap, xs) \<Rightarrow>
        case map_of xs k of
          Some old \<Rightarrow> (Some (k, old), (cap, (k, v) # list_without k xs))
        | None \<Rightarrow>
            if length xs < cap \<or> xs = [] then (None, (cap, (k, v) # xs))
            else let k' = fst (last xs) in (Some (k', the (map_of xs k')), (cap, (k, v) # list_without k' xs)))"

definition list_promote :: "'k \<Rightarrow> ('k, 'v) lru_list \<Rightarrow> ('k, 'v) lru_list" where
  "list_promote k c =
     (case map_of (snd c) k of None \<Rightarrow> c | Some v \<Rightarrow> (fst c, (k, v) # list_without k (snd c)))"

definition lru_list_ops :: "('k, 'v, ('k, 'v) lru_list) lru_ops" where
  "lru_list_ops =
     \<lparr> lru_new = (\<lambda>n. (unat n, [])),
       lru_get = (\<lambda>k c. (list_entries c k, list_promote k c)),
       lru_push = list_push,
       lru_pop = (\<lambda>k c. (list_entries c k, (fst c, list_without k (snd c)))),
       lru_promote = list_promote,
       lru_clear = (\<lambda>c. (fst c, [])) \<rparr>"

lemma map_of_list_without: "map_of (list_without k xs) = (map_of xs)(k := None)"
  by (induction xs) (auto simp: list_without_def)

lemma map_of_list_promote [simp]: "map_of (snd (list_promote k c)) = map_of (snd c)"
  by (auto simp: list_promote_def map_of_list_without split: option.splits)

interpretation lru_list: lru_cache lru_list_ops list_entries
proof
  fix k :: 'k and v :: 'v and c :: "('k, 'v) lru_list" and r c'
  assume p: "lru_push lru_list_ops k v c = (r, c')"
  obtain cap xs where c: "c = (cap, xs)" by force
  have "map_of xs (fst (last xs)) \<noteq> None" if "xs \<noteq> []"
    using that by (simp add: map_of_eq_None_iff)
  with p show "case r of
         None \<Rightarrow> list_entries c k = None \<and> list_entries c' = (list_entries c)(k \<mapsto> v)
       | Some (k', v') \<Rightarrow> list_entries c k' = Some v' \<and> (k' = k \<or> list_entries c k = None)
           \<and> list_entries c' = (list_entries c)(k' := None, k \<mapsto> v)"
    by (auto simp: lru_list_ops_def list_push_def c list_entries_def map_of_list_without Let_def split: option.splits if_splits)
qed (auto simp: lru_list_ops_def list_entries_def map_of_list_without)

section \<open>The cache of prepared statements\<close>

text \<open>\<open>PREPARED_STATEMENT_COUNTER\<close> is passed in and returned.\<close>

definition statement_cache_new :: "(u64, parse_msg, 'c) lru_ops \<Rightarrow> usize \<Rightarrow> 'c" where
  "statement_cache_new ops sz = lru_new ops (if sz = 0 then 1 else sz)"

definition get_or_insert ::
  "(u64, parse_msg, 'c) lru_ops \<Rightarrow> parse_msg \<Rightarrow> u64 \<Rightarrow> 'c \<times> usize \<Rightarrow> parse_msg \<times> 'c \<times> usize" where
  "get_or_insert ops parse hash = (\<lambda>(cache, counter).
     case lru_get ops hash cache of
       (Some rewritten_parse, cache) \<Rightarrow> (rewritten_parse, cache, counter)
     | (None, cache) \<Rightarrow>
         (let (new_parse, counter) = parse_rewrite counter parse;
              (evicted, cache) = lru_push ops hash new_parse cache
          in (new_parse, cache, counter)))"

definition statement_cache_promote :: "(u64, parse_msg, 'c) lru_ops \<Rightarrow> u64 \<Rightarrow> 'c \<Rightarrow> 'c" where
  "statement_cache_promote ops hash cache = lru_promote ops hash cache"

section \<open>The invariant of the cache\<close>

text \<open>
  Each entry is filed under the hash of its statement, and has a generated name, which no other
  entry has.
\<close>

definition cache_inv :: "(string \<Rightarrow> u64) \<Rightarrow> (u64 \<rightharpoonup> parse_msg) \<Rightarrow> usize \<Rightarrow> bool" where
  "cache_inv hasher m counter \<longleftrightarrow>
     (\<forall>h p. m h = Some p \<longrightarrow> parse_get_hash hasher p = h \<and> (\<exists>n < unat counter. p_name p = ''PGCAT_'' @ show_nat n))
     \<and> (\<forall>h h' p p'. m h = Some p \<longrightarrow> m h' = Some p' \<longrightarrow> p_name p = p_name p' \<longrightarrow> h = h')"

lemma parse_rewrite_hash: "parse_get_hash hasher (fst (parse_rewrite counter parse)) = parse_get_hash hasher parse"
  by (simp add: parse_rewrite_def parse_get_hash_def parse_hash_input_def)

lemma cache_inv_rewrite:
  assumes inv: "cache_inv hasher m counter" and "unat counter + 1 < 2 ^ 64"
    and sub: "\<And>h p. m' h = Some p \<Longrightarrow> h = parse_get_hash hasher parse \<and> p = fst (parse_rewrite counter parse) \<or> m h = Some p"
  shows "cache_inv hasher m' (counter + 1)"
proof -
  let ?new = "fst (parse_rewrite counter parse)"
  have suc: "unat (counter + 1) = unat counter + 1" using assms(2) by (simp add: unat_word_ariths)
  have new: "p_name ?new = ''PGCAT_'' @ show_nat (unat counter)" by (simp add: parse_rewrite_def)
  have fresh: "p_name p \<noteq> p_name ?new" if p: "m h = Some p" for h p
  proof -
    from inv p obtain n where "n < unat counter" "p_name p = ''PGCAT_'' @ show_nat n" unfolding cache_inv_def by blast
    with new show ?thesis using show_nat_inj [of n "unat counter"] by auto
  qed
  have old: "parse_get_hash hasher p = h" "\<exists>n < unat (counter + 1). p_name p = ''PGCAT_'' @ show_nat n" if p: "m h = Some p" for h p
  proof -
    from inv p show "parse_get_hash hasher p = h" unfolding cache_inv_def by blast
    from inv p obtain n where "n < unat counter" "p_name p = ''PGCAT_'' @ show_nat n" unfolding cache_inv_def by blast
    then show "\<exists>n < unat (counter + 1). p_name p = ''PGCAT_'' @ show_nat n"
      using suc by (intro exI [of _ n]) simp
  qed
  have uniq: "h = h'" if "m h = Some p" "m h' = Some p'" "p_name p = p_name p'" for h h' p p'
    using inv that unfolding cache_inv_def by blast
  show ?thesis
    unfolding cache_inv_def
  proof (intro conjI allI impI)
    fix h p assume "m' h = Some p"
    from sub [OF this] show "parse_get_hash hasher p = h"
      using old(1) by (auto simp: parse_rewrite_hash)
    from sub [OF \<open>m' h = Some p\<close>] show "\<exists>n < unat (counter + 1). p_name p = ''PGCAT_'' @ show_nat n"
    proof
      assume "h = parse_get_hash hasher parse \<and> p = ?new"
      then show ?thesis using new suc by auto
    qed (rule old(2))
  next
    fix h h' p p' assume "m' h = Some p" "m' h' = Some p'" and n: "p_name p = p_name p'"
    from sub [OF this(1)] sub [OF this(2)] show "h = h'"
    proof (elim disjE)
      assume "m h = Some p" "m h' = Some p'"
      then show ?thesis using n by (rule uniq)
    qed (use fresh n in auto)
  qed
qed

lemma get_or_insert_spec:
  assumes lru: "lru_cache ops entries" and inv: "cache_inv hasher (entries cache) counter"
    and "unat counter + 1 < 2 ^ 64" and hash: "hash = parse_get_hash hasher parse"
    and run: "get_or_insert ops parse hash (cache, counter) = (p, cache', counter')"
  shows "cache_inv hasher (entries cache') counter' \<and> entries cache' hash = Some p \<and> parse_get_hash hasher p = hash
    \<and> (case entries cache hash of
         Some q \<Rightarrow> p = q \<and> counter' = counter
       | None \<Rightarrow> p = parse\<lparr>p_name := ''PGCAT_'' @ show_nat (unat counter)\<rparr> \<and> counter' = counter + 1)"
proof -
  obtain r c1 where g: "lru_get ops hash cache = (r, c1)" by force
  from lru_cache.get [OF lru g] have r: "r = entries cache hash" and c1: "entries c1 = entries cache" by auto
  show ?thesis
  proof (cases r)
    case (Some q)
    with run g have "p = q" "cache' = c1" "counter' = counter" by (auto simp: get_or_insert_def)
    moreover have "parse_get_hash hasher q = hash" using inv Some r unfolding cache_inv_def by metis
    moreover have "entries cache hash = Some q" using r Some by simp
    ultimately show ?thesis using inv c1 by simp
  next
    case None
    with run g have p: "p = fst (parse_rewrite counter parse)" "counter' = counter + 1"
      and c': "cache' = snd (lru_push ops hash p c1)"
      by (auto simp: get_or_insert_def parse_rewrite_def split: prod.splits)
    have look: "entries cache' hash = Some p" unfolding c' by (rule lru_cache.push_lookup [OF lru])
    have "h = parse_get_hash hasher parse \<and> q = fst (parse_rewrite counter parse) \<or> entries cache h = Some q"
      if "entries cache' h = Some q" for h q
      using that look lru_cache.push_other [OF lru, of h hash p c1 q] p(1) hash c1 unfolding c' by (cases "h = hash") auto
    from cache_inv_rewrite [OF inv assms(3) this] look p r None hash show ?thesis
      by (simp add: parse_rewrite_hash) (simp add: parse_rewrite_def)
  qed
qed

section \<open>Properties\<close>

text \<open>
  C18: the cache gives one server-side name to each statement hash.  It returns the cached message when the
  hash is known, and otherwise the statement under a new name; in both cases the result has the
  hash asked for and is found under it afterwards, and the cache keeps its invariant: entries are
  filed under their own hashes, with generated names that differ from one another.
\<close>

theorem get_or_insert_correct:
  assumes lru: "lru_cache ops entries" and inv: "cache_inv hasher (entries cache) counter"
    and "unat counter + 1 < 2 ^ 64" and hash: "hash = parse_get_hash hasher parse"
    and run: "get_or_insert ops parse hash (cache, counter) = (p, cache', counter')"
  shows "cache_inv hasher (entries cache') counter' \<and> entries cache' hash = Some p \<and> parse_get_hash hasher p = hash
    \<and> (case entries cache hash of
         Some q \<Rightarrow> p = q \<and> counter' = counter
       | None \<Rightarrow> p = parse\<lparr>p_name := ''PGCAT_'' @ show_nat (unat counter)\<rparr> \<and> counter' = counter + 1)"
  by (rule get_or_insert_spec [OF assms])

theorem get_or_insert_correct_witness:
  "list_entries (fst (snd (get_or_insert lru_list_ops sample_parse (parse_get_hash (\<lambda>s. of_nat (length s)) sample_parse) (lru_new lru_list_ops 2, 0))))
     (parse_get_hash (\<lambda>s. of_nat (length s)) sample_parse) = Some (sample_parse\<lparr>p_name := ''PGCAT_0''\<rparr>)"
  using get_or_insert_correct [OF lru_list.lru_cache_axioms, of "\<lambda>s. of_nat (length s)" "lru_new lru_list_ops 2" 0
      "parse_get_hash (\<lambda>s. of_nat (length s)) sample_parse" sample_parse]
  by (cases "get_or_insert lru_list_ops sample_parse (parse_get_hash (\<lambda>s. of_nat (length s)) sample_parse) (lru_new lru_list_ops 2, 0)")
     (simp add: lru_list.new cache_inv_def show_nat.simps digit_char_def char_of_eval)

end
