(* ===== verification/Server_Parameters.thy ===== *)
theory Server_Parameters
  imports Messages "HOL-Library.AList"
begin

text \<open>
  The parameters of a session, \<open>ServerParameters\<close> in \<open>src/src/server.rs\<close>, and the state that tells
  how a connection has to be cleaned up, \<open>CleanupState\<close>.  A hash map is an association list with
  distinct keys, in the order in which it is iterated.
\<close>

section \<open>Clean-up\<close>

record cleanup_state =
  cs_needs_cleanup_set :: bool
  cs_needs_cleanup_prepare :: bool

definition cleanup_state_new :: cleanup_state where
  "cleanup_state_new = \<lparr> cs_needs_cleanup_set = False, cs_needs_cleanup_prepare = False \<rparr>"

definition needs_cleanup :: "cleanup_state \<Rightarrow> bool" where
  "needs_cleanup self \<longleftrightarrow> cs_needs_cleanup_set self \<or> cs_needs_cleanup_prepare self"

definition cleanup_set_true :: "cleanup_state \<Rightarrow> cleanup_state" where
  "cleanup_set_true self = self\<lparr>cs_needs_cleanup_set := True, cs_needs_cleanup_prepare := True\<rparr>"

definition cleanup_reset :: "cleanup_state \<Rightarrow> cleanup_state" where
  "cleanup_reset self = self\<lparr>cs_needs_cleanup_set := False, cs_needs_cleanup_prepare := False\<rparr>"

section \<open>Parameters\<close>

definition TRACKED_PARAMETERS :: "string list" where
  "TRACKED_PARAMETERS =
     [''client_encoding'', ''DateStyle'', ''TimeZone'', ''standard_conforming_strings'', ''application_name'']"

type_synonym server_parameters = "(string \<times> string) list"

definition parameter_key :: "string \<Rightarrow> string" where
  "parameter_key key =
     (if key = ''timezone'' then ''TimeZone'' else if key = ''datestyle'' then ''DateStyle'' else key)"

definition set_param :: "string \<Rightarrow> string \<Rightarrow> bool \<Rightarrow> server_parameters \<Rightarrow> server_parameters" where
  "set_param key val at_startup self =
     (let key = parameter_key key
      in if key \<in> set TRACKED_PARAMETERS \<or> at_startup then AList.update key val self else self)"

definition server_parameters_new :: server_parameters where
  "server_parameters_new =
     set_param ''application_name'' ''pgcat'' False
       (set_param ''standard_conforming_strings'' ''on'' False
         (set_param ''TimeZone'' ''Etc/UTC'' False
           (set_param ''DateStyle'' ''ISO, MDY'' False
             (set_param ''client_encoding'' ''UTF8'' False []))))"

definition set_from_hashmap :: "(string \<times> string) list \<Rightarrow> bool \<Rightarrow> server_parameters \<Rightarrow> server_parameters" where
  "set_from_hashmap parameters at_startup self =
     fold (\<lambda>(key, val) self. set_param key val at_startup self) parameters self"

definition compare_params :: "server_parameters \<Rightarrow> server_parameters \<Rightarrow> (string \<times> string) list" where
  "compare_params self incoming =
     List.map_filter (\<lambda>key.
       case (map_of incoming key, map_of self key) of
         (Some incoming_value, Some val) \<Rightarrow> if val \<noteq> incoming_value then Some (key, incoming_value) else None
       | _ \<Rightarrow> None) TRACKED_PARAMETERS"

text \<open>\<open>get_application_name\<close> unwraps.\<close>

definition get_application_name :: "server_parameters \<Rightarrow> string result" where
  "get_application_name self = unwrap (map_of self ''application_name'')"

definition add_parameter_message :: "string \<Rightarrow> string \<Rightarrow> bytes" where
  "add_parameter_message key val =
     put_u8 CHR ''S'' @ put_i32 (of_nat (4 + length key + 1 + length val + 1))
     @ key @ put_u8 CHR 0x00 @ val @ put_u8 CHR 0x00"

definition server_parameters_bytes :: "server_parameters \<Rightarrow> bytes" where
  "server_parameters_bytes self = concat (map (\<lambda>(key, val). add_parameter_message key val) self)"

section \<open>Lemmas\<close>

lemma map_of_set_param:
  "map_of (set_param k v s self) x =
     (if x = parameter_key k \<and> (x \<in> set TRACKED_PARAMETERS \<or> s) then Some v else map_of self x)"
  by (auto simp: set_param_def Let_def AList.update_conv')

lemma parameter_key_tracked [simp]: "k \<in> set TRACKED_PARAMETERS \<Longrightarrow> parameter_key k = k"
  by (auto simp: TRACKED_PARAMETERS_def parameter_key_def)

lemma set_param_tracked: "k \<in> set TRACKED_PARAMETERS \<Longrightarrow> map_of (set_param k v s self) = (map_of self)(k \<mapsto> v)"
  by (auto simp: map_of_set_param)

lemma map_filter_iff: "y \<in> set (List.map_filter f xs) \<longleftrightarrow> (\<exists>x \<in> set xs. f x = Some y)"
  by (force simp: List.map_filter_def image_iff)

lemma difference_iff:
  "(case (i, w) of (Some i, Some w) \<Rightarrow> if w \<noteq> i then Some (key, i) else None | _ \<Rightarrow> None) = Some (k, v)
   \<longleftrightarrow> key = k \<and> i = Some v \<and> (\<exists>x. w = Some x \<and> x \<noteq> v)"
  by (cases i; cases w) auto

lemma compare_params_iff:
  "(k, v) \<in> set (compare_params self incoming) \<longleftrightarrow>
     k \<in> set TRACKED_PARAMETERS \<and> map_of incoming k = Some v \<and> (\<exists>w. map_of self k = Some w \<and> w \<noteq> v)"
  unfolding compare_params_def map_filter_iff difference_iff by auto

lemma compare_params_Nil_iff:
  "compare_params self incoming = [] \<longleftrightarrow>
     (\<forall>k \<in> set TRACKED_PARAMETERS. \<forall>v w. map_of incoming k = Some v \<longrightarrow> map_of self k = Some w \<longrightarrow> v = w)"
proof -
  have "compare_params self incoming = [] \<longleftrightarrow> (\<forall>k v. (k, v) \<notin> set (compare_params self incoming))"
    by (cases "compare_params self incoming") auto
  also have "\<dots> \<longleftrightarrow> (\<forall>k \<in> set TRACKED_PARAMETERS. \<forall>v w. map_of incoming k = Some v \<longrightarrow> map_of self k = Some w \<longrightarrow> v = w)"
    unfolding compare_params_iff by auto
  finally show ?thesis .
qed

text \<open>Setting tracked parameters to values of a map leaves every other parameter, and sets these.\<close>

lemma map_of_set_from_hashmap:
  assumes "\<forall>(k, v) \<in> set ps. k \<in> set TRACKED_PARAMETERS \<and> m k = Some v"
  shows "map_of (set_from_hashmap ps s self) x = (if x \<in> fst ` set ps then m x else map_of self x)"
  using assms unfolding set_from_hashmap_def
proof (induction ps arbitrary: self)
  case (Cons p ps)
  obtain k v where p: "p = (k, v)" by force
  from Cons show ?case by (auto simp: p set_param_tracked)
qed simp

section \<open>Properties\<close>

text \<open>
  Synchronising parameters converges: after a server has adopted the differences that \<open>compare_params\<close>
  finds between its session and a client's, there are no differences left, and the parameters that are not
  tracked have not changed.
\<close>

theorem compare_params_converges:
  "compare_params (set_from_hashmap (compare_params self incoming) False self) incoming = []
   \<and> (\<forall>k. k \<in> set TRACKED_PARAMETERS
        \<or> map_of (set_from_hashmap (compare_params self incoming) False self) k = map_of self k)"
proof -
  let ?d = "compare_params self incoming"
  have d: "\<forall>(k, v) \<in> set ?d. k \<in> set TRACKED_PARAMETERS \<and> map_of incoming k = Some v"
    by (auto simp: compare_params_iff)
  have sel: "map_of (set_from_hashmap ?d False self) k = (if k \<in> fst ` set ?d then map_of incoming k else map_of self k)" for k
    by (rule map_of_set_from_hashmap [OF d])
  have "v = w" if "k \<in> set TRACKED_PARAMETERS" "map_of incoming k = Some v" "map_of (set_from_hashmap ?d False self) k = Some w" for k v w
  proof (cases "k \<in> fst ` set ?d")
    case False
    with that(3) sel have w: "map_of self k = Some w" by simp
    show ?thesis
    proof (rule ccontr)
      assume "v \<noteq> w"
      with that(1,2) w have "(k, v) \<in> set ?d" by (simp add: compare_params_iff)
      with False show False by force
    qed
  qed (use that sel in simp)
  moreover have "k \<notin> fst ` set ?d" if "k \<notin> set TRACKED_PARAMETERS" for k
    using that d by auto
  ultimately show ?thesis unfolding compare_params_Nil_iff using sel by metis
qed

end
