(* ===== verification/Dns_Cache.thy ===== *)
theory Dns_Cache
  imports Config
begin

text \<open>
  \<open>src/src/dns_cache.rs\<close>: the cache of name lookups.  A set of addresses is a set of their texts.
  The resolver of the operating system is an argument, \<open>resolve host\<close>, which gives the addresses of
  a host or fails; the task that refreshes the cache is modelled by one round of its loop.
\<close>

section \<open>Model\<close>

type_synonym addr_set = "string set"

record cached_resolver_config =
  rs_dns_max_ttl :: u64
  rs_enabled :: bool

record cached_resolver =
  rs_config :: cached_resolver_config
  rs_data :: "(string \<rightharpoonup> addr_set) option"
  rs_resolver :: bool

text \<open>\<open>rs_resolver\<close>: there is a resolver.  The default has neither a resolver nor a cache.\<close>

definition cached_resolver_default :: cached_resolver where
  "cached_resolver_default =
     \<lparr> rs_config = \<lparr> rs_dns_max_ttl = 0, rs_enabled = False \<rparr>, rs_data = None, rs_resolver = False \<rparr>"

definition cached_resolver_config_from :: "config \<Rightarrow> cached_resolver_config" where
  "cached_resolver_config_from config =
     \<lparr> rs_dns_max_ttl = g_dns_max_ttl (cf_general config), rs_enabled = g_dns_cache_enabled (cf_general config) \<rparr>"

text \<open>\<open>conf_error\<close>: the error when the configuration of the system's resolver cannot be read.\<close>

definition cached_resolver_new ::
  "string option \<Rightarrow> cached_resolver_config \<Rightarrow> (string \<rightharpoonup> addr_set) option \<Rightarrow> (string, cached_resolver) outcome" where
  "cached_resolver_new conf_error config data =
     (case conf_error of
        Some err \<Rightarrow> Err err
      | None \<Rightarrow> Ok \<lparr> rs_config = config, rs_data = (case data of Some hash \<Rightarrow> Some hash | None \<Rightarrow> Some Map.empty),
                  rs_resolver = True \<rparr>)"

definition resolver_enabled :: "cached_resolver \<Rightarrow> bool" where
  "resolver_enabled self = rs_enabled (rs_config self)"

definition fetch_from_cache :: "string \<Rightarrow> cached_resolver \<Rightarrow> addr_set option" where
  "fetch_from_cache key self = (case rs_data self of Some hash \<Rightarrow> hash key | None \<Rightarrow> None)"

definition store_in_cache :: "string \<Rightarrow> addr_set \<Rightarrow> cached_resolver \<Rightarrow> cached_resolver" where
  "store_in_cache host addrs self =
     (case rs_data self of Some data \<Rightarrow> self\<lparr>rs_data := Some (data(host \<mapsto> addrs))\<rparr> | None \<Rightarrow> self)"

definition lookup_ip :: "(string \<Rightarrow> string list option) \<Rightarrow> string \<Rightarrow> cached_resolver \<Rightarrow> addr_set option \<times> cached_resolver" where
  "lookup_ip resolve host self =
     (case fetch_from_cache host self of
        Some addrs \<Rightarrow> (Some addrs, self)
      | None \<Rightarrow>
          if rs_resolver self
          then (case resolve host of
                  Some ips \<Rightarrow> (Some (set ips), store_in_cache host (set ips) self)
                | None \<Rightarrow> (None, self))
          else (None, self))"

definition has_changed :: "string \<Rightarrow> addr_set \<Rightarrow> cached_resolver \<Rightarrow> bool" where
  "has_changed host addrs self =
     (case fetch_from_cache host self of Some fetched \<Rightarrow> fetched \<noteq> addrs | None \<Rightarrow> False)"

text \<open>The body of the loop for one host; \<open>expect\<close> panics when the host is not cached.\<close>

definition refresh_host :: "(string \<Rightarrow> string list option) \<Rightarrow> string \<Rightarrow> cached_resolver \<Rightarrow> cached_resolver result" where
  "refresh_host resolve hostname self =
     rbind (unwrap (fetch_from_cache hostname self)) (\<lambda>addrs.
     Ok (case resolve hostname of
           Some ips \<Rightarrow> if addrs \<noteq> set ips then store_in_cache hostname (set ips) self else self
         | None \<Rightarrow> self))"

fun refresh_hosts :: "(string \<Rightarrow> string list option) \<Rightarrow> string list \<Rightarrow> cached_resolver \<Rightarrow> cached_resolver result" where
  "refresh_hosts resolve [] self = Ok self"
| "refresh_hosts resolve (hostname # hostnames) self =
     rbind (refresh_host resolve hostname self) (\<lambda>self. refresh_hosts resolve hostnames self)"

text \<open>\<open>CachedResolver::from_config\<close> on the resolver in use.\<close>

definition resolver_from_config :: "string option \<Rightarrow> config \<Rightarrow> cached_resolver \<Rightarrow> unit result \<times> cached_resolver" where
  "resolver_from_config conf_error config current =
     (let desired_config = cached_resolver_config_from config
      in if rs_config current \<noteq> desired_config
         then (case cached_resolver_new conf_error desired_config (rs_data current) of
                 Ok resolver \<Rightarrow> (Ok (), resolver)
               | Err err \<Rightarrow>
                   (Err (DNSCachedError (''Error setting up cached_resolver. Error: '' @ err
                      @ '', will continue without this feature.'')), current)
               | Panic \<Rightarrow> (Panic, current))
         else (Ok (), current))"

section \<open>Lemmas\<close>

lemma fetch_store [simp]:
  "fetch_from_cache k (store_in_cache h a self) = (if k = h \<and> rs_data self \<noteq> None then Some a else fetch_from_cache k self)"
  by (auto simp: fetch_from_cache_def store_in_cache_def split: option.splits)

lemma rs_data_store [simp]: "rs_data (store_in_cache h a self) = None \<longleftrightarrow> rs_data self = None"
  by (auto simp: store_in_cache_def split: option.splits)

lemma refresh_host_Ok:
  assumes "fetch_from_cache h self = Some a"
  shows "\<exists>self'. refresh_host resolve h self = Ok self'
    \<and> (\<forall>k. fetch_from_cache k self' = (if k = h then Some (case resolve h of Some ips \<Rightarrow> set ips | None \<Rightarrow> a) else fetch_from_cache k self))"
proof -
  from assms have "rs_data self \<noteq> None" by (auto simp: fetch_from_cache_def split: option.splits)
  with assms show ?thesis by (auto simp: refresh_host_def split: option.splits)
qed

lemma refresh_hosts_Ok:
  assumes "\<forall>h \<in> set hosts. fetch_from_cache h self \<noteq> None"
  shows "\<exists>self'. refresh_hosts resolve hosts self = Ok self'
    \<and> (\<forall>k. fetch_from_cache k self' =
         (if k \<in> set hosts then (case resolve k of Some ips \<Rightarrow> Some (set ips) | None \<Rightarrow> fetch_from_cache k self)
          else fetch_from_cache k self))"
  using assms
proof (induction hosts arbitrary: self)
  case (Cons h hosts)
  then obtain a where "fetch_from_cache h self = Some a" by auto
  from refresh_host_Ok [OF this, of resolve] obtain s1 where s1: "refresh_host resolve h self = Ok s1"
    and f1: "\<And>k. fetch_from_cache k s1 = (if k = h then Some (case resolve h of Some ips \<Rightarrow> set ips | None \<Rightarrow> a) else fetch_from_cache k self)"
    by blast
  have "\<forall>k \<in> set hosts. fetch_from_cache k s1 \<noteq> None" using Cons.prems f1 by auto
  from Cons.IH [OF this] obtain s2 where "refresh_hosts resolve hosts s1 = Ok s2"
    and f2: "\<And>k. fetch_from_cache k s2 = (if k \<in> set hosts then (case resolve k of Some ips \<Rightarrow> Some (set ips) | None \<Rightarrow> fetch_from_cache k s1) else fetch_from_cache k s1)"
    by blast
  with s1 f1 \<open>fetch_from_cache h self = Some a\<close> show ?case by (auto split: option.split)
qed simp

section \<open>Properties\<close>

text \<open>
  A round of the refresh loop over cached hosts never fails, and afterwards an address set taken
  from the cache before is reported as changed exactly when the host now resolves to another set; hosts that
  cannot be resolved keep their addresses.
\<close>

theorem refresh_reports_changes:
  assumes "\<forall>h \<in> set hosts. fetch_from_cache h self \<noteq> None" "host \<in> set hosts" "fetch_from_cache host self = Some addrs"
  shows "\<exists>self'. refresh_hosts resolve hosts self = Ok self'
    \<and> (has_changed host addrs self' \<longleftrightarrow> (\<exists>ips. resolve host = Some ips \<and> set ips \<noteq> addrs))"
proof -
  from refresh_hosts_Ok [OF assms(1), of resolve] obtain self' where "refresh_hosts resolve hosts self = Ok self'"
    and "fetch_from_cache host self' = (case resolve host of Some ips \<Rightarrow> Some (set ips) | None \<Rightarrow> Some addrs)"
    using assms(2) unfolding assms(3) [symmetric] by auto
  then show ?thesis by (auto simp: has_changed_def split: option.splits)
qed

theorem refresh_reports_changes_witness:
  "\<exists>self'. refresh_hosts (\<lambda>_. Some [''10.0.0.2'']) [''db'']
       (store_in_cache ''db'' {''10.0.0.1''} (cached_resolver_default\<lparr>rs_data := Some Map.empty\<rparr>)) = Ok self'
     \<and> has_changed ''db'' {''10.0.0.1''} self'"
  using refresh_reports_changes [of "[''db'']" "store_in_cache ''db'' {''10.0.0.1''} (cached_resolver_default\<lparr>rs_data := Some Map.empty\<rparr>)"
      "''db''" "{''10.0.0.1''}" "\<lambda>_. Some [''10.0.0.2'']"]
  by simp

end
