(* ===== verification/Mirrors.thy ===== *)
theory Mirrors
  imports Config
begin

text \<open>
  \<open>src/src/mirrors.rs\<close>: the sending side of mirrored traffic.  A channel to a mirror holds at most
  ten messages; it is closed once the task of the mirror has ended.  The tasks, which take messages
  from the channels, run concurrently and are not modelled: a channel is what they have left in it.
\<close>

section \<open>Model\<close>

record 'm channel =
  cn_queue :: "'m list"
  cn_bound :: nat
  cn_closed :: bool

definition channel_new :: "nat \<Rightarrow> 'm channel" where
  "channel_new bound = \<lparr> cn_queue = [], cn_bound = bound, cn_closed = False \<rparr>"

definition channel_capacity :: "'m channel \<Rightarrow> nat" where
  "channel_capacity ch = cn_bound ch - length (cn_queue ch)"

definition try_send :: "'m \<Rightarrow> 'm channel \<Rightarrow> 'm channel" where
  "try_send m ch =
     (if cn_closed ch \<or> channel_capacity ch = 0 then ch else ch\<lparr>cn_queue := cn_queue ch @ [m]\<rparr>)"

record mirroring_manager =
  mi_byte_senders :: "bytes channel list"
  mi_disconnect_senders :: "unit channel list"

text \<open>The mirrors of an address, with the role the tasks connect with.\<close>

definition mirrored_address :: "address \<Rightarrow> address" where
  "mirrored_address mirror =
     Address (a_id mirror) (a_host mirror) (a_port mirror) (a_shard mirror) (a_database mirror) Mirror
       (a_replica_number mirror) (a_address_index mirror) (a_username mirror) (a_pool_name mirror) (a_mirrors mirror)"

definition mirrors_from_addresses :: "address list \<Rightarrow> mirroring_manager" where
  "mirrors_from_addresses addresses =
     \<lparr> mi_byte_senders = map (\<lambda>_. channel_new 10) addresses,
       mi_disconnect_senders = map (\<lambda>_. channel_new 1) addresses \<rparr>"

definition mirrors_send :: "bytes \<Rightarrow> mirroring_manager \<Rightarrow> mirroring_manager" where
  "mirrors_send bytes self =
     (if list_all (\<lambda>sender. channel_capacity sender = 0 \<or> cn_closed sender) (mi_byte_senders self) then self
      else self\<lparr>mi_byte_senders := map (try_send bytes) (mi_byte_senders self)\<rparr>)"

definition mirrors_disconnect :: "mirroring_manager \<Rightarrow> mirroring_manager" where
  "mirrors_disconnect self =
     self\<lparr>mi_disconnect_senders := map (try_send ()) (mi_disconnect_senders self)\<rparr>"

section \<open>Lemmas\<close>

text \<open>The check for channels with room saves the allocation and changes nothing else.\<close>

lemma mirrors_send_eq: "mirrors_send bytes self = self\<lparr>mi_byte_senders := map (try_send bytes) (mi_byte_senders self)\<rparr>"
proof (cases "list_all (\<lambda>sender. channel_capacity sender = 0 \<or> cn_closed sender) (mi_byte_senders self)")
  case True
  then have "map (try_send bytes) (mi_byte_senders self) = mi_byte_senders self"
    by (auto simp: list_all_iff try_send_def intro!: map_idI)
  with True show ?thesis by (simp add: mirrors_send_def)
qed (simp add: mirrors_send_def)

definition channel_ok :: "'m channel \<Rightarrow> bool" where
  "channel_ok ch \<longleftrightarrow> length (cn_queue ch) \<le> cn_bound ch"

lemma channel_ok_try_send [simp]: "channel_ok (try_send m ch) \<longleftrightarrow> channel_ok ch"
  by (auto simp: channel_ok_def try_send_def channel_capacity_def)

section \<open>Properties\<close>

text \<open>
  Mirroring is best effort and bounded: sending appends the message to exactly the open channels that
  have room, leaves the others as they were, and never lets a queue grow beyond its bound.
\<close>

theorem mirrors_send_bounded:
  "mi_byte_senders (mirrors_send bytes self)
     = map (\<lambda>ch. if \<not> cn_closed ch \<and> length (cn_queue ch) < cn_bound ch then ch\<lparr>cn_queue := cn_queue ch @ [bytes]\<rparr> else ch) (mi_byte_senders self)
   \<and> (list_all channel_ok (mi_byte_senders (mirrors_send bytes self)) \<longleftrightarrow> list_all channel_ok (mi_byte_senders self))"
  by (simp add: mirrors_send_eq list_all_iff) (simp add: try_send_def channel_capacity_def)

end
