(* ===== verification/Server.thy ===== *)
theory Server
  imports Stats Statement_Cache Server_Parameters Dns_Cache Mirrors
begin

text \<open>
  \<open>src/src/server.rs\<close>: a connection to a PostgreSQL server, its send and receive loops, the prepared
  statements registered on it, and the clean-up before it returns to the pool.

  The connection is a record; its operations pass it on, also when they fail.  \<open>now\<close> is the last
  reading of the clock an operation makes: only the last one is kept.  The least-recently-used cache
  is an argument, as in \<open>Statement_Cache\<close>.
\<close>

section \<open>State\<close>

record 'c server =
  sv_address :: address
  sv_stream :: stream
  sv_buffer :: bytes
  sv_parameters :: server_parameters
  sv_process_id :: i32
  sv_secret_key :: i32
  sv_in_transaction :: bool
  sv_data_available :: bool
  sv_in_copy_mode :: bool
  sv_bad :: bool
  sv_cleanup_state :: cleanup_state
  sv_stats :: server_stats
  sv_application_name :: string
  sv_last_activity :: nat
  sv_mirror_manager :: "mirroring_manager option"
  sv_addr_set :: "addr_set option"
  sv_cleanup_connections :: bool
  sv_cache :: "'c option"
  sv_registering :: "string list"

text \<open>\<open>CLIENT_SERVER_MAP\<close>, from the process and key of a client to the server it uses.\<close>

type_synonym client_server_map = "i32 \<times> i32 \<rightharpoonup> i32 \<times> i32 \<times> string \<times> u16"

definition on_stream :: "(stream, 'a) act \<Rightarrow> ('c server, 'a) act" where
  "on_stream = act_zoom sv_stream (\<lambda>t s. s\<lparr>sv_stream := t\<rparr>)"

definition server_stats_do :: "(server_stats \<Rightarrow> server_stats) \<Rightarrow> 'c server \<Rightarrow> 'c server" where
  "server_stats_do f self = self\<lparr>sv_stats := f (sv_stats self)\<rparr>"

definition mirror_send :: "bytes \<Rightarrow> 'c server \<Rightarrow> 'c server" where
  "mirror_send bytes self = self\<lparr>sv_mirror_manager := map_option (mirrors_send bytes) (sv_mirror_manager self)\<rparr>"

definition mirror_disconnect :: "'c server \<Rightarrow> 'c server" where
  "mirror_disconnect self = self\<lparr>sv_mirror_manager := map_option mirrors_disconnect (sv_mirror_manager self)\<rparr>"

definition server_in_transaction :: "'c server \<Rightarrow> bool" where
  "server_in_transaction self = sv_in_transaction self"

definition server_in_copy_mode :: "'c server \<Rightarrow> bool" where
  "server_in_copy_mode self = sv_in_copy_mode self"

definition is_data_available :: "'c server \<Rightarrow> bool" where
  "is_data_available self = sv_data_available self"

definition is_bad :: "cached_resolver \<Rightarrow> 'c server \<Rightarrow> bool" where
  "is_bad resolver self =
     (if sv_bad self then True
      else if resolver_enabled resolver
      then (case sv_addr_set self of
              Some addrs \<Rightarrow> has_changed (a_host (sv_address self)) addrs resolver
            | None \<Rightarrow> False)
      else False)"

definition mark_bad :: "'c server \<Rightarrow> 'c server" where
  "mark_bad self = self\<lparr>sv_bad := True\<rparr>"

definition mark_dirty :: "'c server \<Rightarrow> 'c server" where
  "mark_dirty self = self\<lparr>sv_cleanup_state := cleanup_set_true (sv_cleanup_state self)\<rparr>"

definition server_claim :: "i32 \<Rightarrow> i32 \<Rightarrow> 'c server \<Rightarrow> client_server_map \<Rightarrow> client_server_map" where
  "server_claim process_id secret_key self m =
     m((process_id, secret_key) \<mapsto>
         (sv_process_id self, sv_secret_key self, a_host (sv_address self), a_port (sv_address self)))"

section \<open>Sending and receiving\<close>

definition server_send :: "nat \<Rightarrow> bytes \<Rightarrow> ('c server, unit) act" where
  "server_send now messages =
     act_bind (act_modify (mirror_send messages)) (\<lambda>_.
     act_bind (act_modify (server_stats_do (data_sent (of_nat (length messages))))) (\<lambda>_.
     act_bind (act_on_error (on_stream (write_all_flush messages)) mark_bad) (\<lambda>_.
     act_modify (\<lambda>s. s\<lparr>sv_last_activity := now\<rparr>))))"

text \<open>
  \<open>recv\<close> may also record parameters for a client: its state is the connection and, if there is a
  client, the parameters of the client's session.
\<close>

type_synonym 'c recv_state = "'c server \<times> server_parameters option"

definition on_server :: "('c server, 'a) act \<Rightarrow> ('c recv_state, 'a) act" where
  "on_server = act_zoom fst (\<lambda>s (_, p). (s, p))"

definition server_modify :: "('c server \<Rightarrow> 'c server) \<Rightarrow> ('c recv_state, unit) act" where
  "server_modify f = act_modify (\<lambda>(s, p). (f s, p))"

definition buffer_full :: "'c recv_state \<Rightarrow> bool result" where
  "buffer_full s = Ok (8196 \<le> length (sv_buffer (fst s)))"

text \<open>The handlers of the messages of a server; they return whether the loop is left.\<close>

definition recv_ready_for_query :: "bytes \<Rightarrow> ('c recv_state, bool) act" where
  "recv_ready_for_query message =
     act_bind (act_lift (get_u8 message)) (\<lambda>(transaction_state, _).
     act_bind (if transaction_state = CHR ''T'' then server_modify (\<lambda>s. s\<lparr>sv_in_transaction := True\<rparr>)
               else if transaction_state = CHR ''I'' then server_modify (\<lambda>s. s\<lparr>sv_in_transaction := False\<rparr>)
               else if transaction_state = CHR ''E'' then server_modify (\<lambda>s. s\<lparr>sv_in_transaction := True\<rparr>)
               else act_bind (server_modify mark_bad) (\<lambda>_.
                    act_lift (Err (ProtocolSyncError (''Unknown transaction state: '' @ push_latin1 transaction_state))))) (\<lambda>_.
     act_bind (server_modify (\<lambda>s. s\<lparr>sv_data_available := False\<rparr>)) (\<lambda>_.
     act_return True)))"

definition leave_copy_mode :: "'c server \<Rightarrow> 'c server" where
  "leave_copy_mode s = s\<lparr>sv_in_copy_mode := False\<rparr>"

definition forget_registering :: "(string, unit, 'c) lru_ops \<Rightarrow> 'c server \<Rightarrow> 'c server" where
  "forget_registering ops s =
     (case sv_registering s of
        [] \<Rightarrow> s
      | name # names \<Rightarrow>
          s\<lparr>sv_registering := names, sv_cache := map_option (\<lambda>cache. snd (lru_pop ops name cache)) (sv_cache s)\<rparr>)"

definition recv_error_response :: "(string, unit, 'c) lru_ops \<Rightarrow> bytes \<Rightarrow> ('c recv_state, bool) act" where
  "recv_error_response ops message =
     act_bind (server_modify (\<lambda>s. forget_registering ops (leave_copy_mode s))) (\<lambda>_.
     act_bind (act_get (\<lambda>(s, p). Ok (sv_cache s \<noteq> None))) (\<lambda>caching.
     act_bind (act_when caching
       (act_bind (act_lift (pg_error_msg_parse message)) (\<lambda>error_message.
        act_when (em_message error_message = ''cached plan must not change result type'')
          (server_modify (\<lambda>s. s\<lparr>sv_cleanup_state := (sv_cleanup_state s)\<lparr>cs_needs_cleanup_prepare := True\<rparr>\<rparr>))))) (\<lambda>_.
     act_return False)))"

definition note_command :: "string \<Rightarrow> 'c server \<Rightarrow> 'c server" where
  "note_command command s =
     (if command = ''SET'' then
        if \<not> sv_in_transaction s then s\<lparr>sv_cleanup_state := (sv_cleanup_state s)\<lparr>cs_needs_cleanup_set := True\<rparr>\<rparr>
        else s
      else if command = ''PREPARE'' then s\<lparr>sv_cleanup_state := (sv_cleanup_state s)\<lparr>cs_needs_cleanup_prepare := True\<rparr>\<rparr>
      else s)"

definition recv_command_complete :: "bytes \<Rightarrow> ('c recv_state, bool) act" where
  "recv_command_complete message =
     act_bind (server_modify leave_copy_mode) (\<lambda>_.
     act_bind (case bytes_read_string message of
                 Ok (command, _) \<Rightarrow> server_modify (note_command command)
               | Err _ \<Rightarrow> act_return ()
               | Panic \<Rightarrow> act_lift Panic) (\<lambda>_.
     act_return False))"

definition recv_parameter_status :: "bytes \<Rightarrow> ('c recv_state, bool) act" where
  "recv_parameter_status message =
     act_bind (act_lift (unwrap_res (bytes_read_string message))) (\<lambda>(key, message).
     act_bind (act_lift (unwrap_res (bytes_read_string message))) (\<lambda>(val, message).
     act_bind (act_modify (\<lambda>(s, p). (s\<lparr>sv_parameters := set_param key val False (sv_parameters s)\<rparr>,
                                      map_option (set_param key val False) p))) (\<lambda>_.
     act_return False)))"

definition recv_handle :: "(string, unit, 'c) lru_ops \<Rightarrow> byte \<Rightarrow> bytes \<Rightarrow> ('c recv_state, bool) act" where
  "recv_handle ops code message =
     (if code = CHR ''Z'' then recv_ready_for_query message
      else if code = CHR ''E'' then recv_error_response ops message
      else if code = CHR ''C'' then recv_command_complete message
      else if code = CHR ''S'' then recv_parameter_status message
      else if code = CHR ''D'' then
        act_bind (server_modify (\<lambda>s. s\<lparr>sv_data_available := True\<rparr>)) (\<lambda>_. act_get buffer_full)
      else if code = CHR ''G'' then
        act_bind (server_modify (\<lambda>s. s\<lparr>sv_in_copy_mode := True\<rparr>)) (\<lambda>_. act_return True)
      else if code = CHR ''H'' then
        act_bind (server_modify (\<lambda>s. s\<lparr>sv_in_copy_mode := True, sv_data_available := True\<rparr>)) (\<lambda>_. act_return True)
      else if code = CHR ''d'' then act_get buffer_full
      else if code = CHR ''1'' then
        act_bind (server_modify (\<lambda>s. s\<lparr>sv_registering := drop 1 (sv_registering s)\<rparr>)) (\<lambda>_. act_return False)
      else act_return False)"

definition recv_step :: "(string, unit, 'c) lru_ops \<Rightarrow> ('c recv_state, bool) act" where
  "recv_step ops =
     act_bind (on_server (act_on_error (on_stream read_message) mark_bad)) (\<lambda>message.
     act_bind (server_modify (\<lambda>s. s\<lparr>sv_buffer := sv_buffer s @ message\<rparr>)) (\<lambda>_.
     act_bind (act_lift (get_u8 message)) (\<lambda>(code, message).
     act_bind (act_lift (get_i32 message)) (\<lambda>(len, message).
     recv_handle ops code message))))"

text \<open>What is left to read, which every round of the loop shortens.\<close>

definition unread :: "'c recv_state \<Rightarrow> nat" where
  "unread s = length (rd_input (sv_stream (fst s)))"

lemmas recv_handle_defs = recv_handle_def recv_ready_for_query_def recv_error_response_def recv_command_complete_def
  recv_parameter_status_def

lemma keeps_server_modify [keeps_intro]: "(\<And>s p. P (s, p) \<Longrightarrow> P (f s, p)) \<Longrightarrow> keeps P (server_modify f)"
  by (auto simp: keeps_def server_modify_def act_modify_def)

lemma server_modify_iff [simp]: "server_modify f s = (r, t) \<longleftrightarrow> r = Ok () \<and> t = (f (fst s), snd s)"
  by (auto simp: server_modify_def act_modify_def split: prod.splits)

lemma recv_handle_keeps_stream:
  "keeps (\<lambda>s. sv_stream (fst s) = t \<and> sv_buffer (fst s) = b) (recv_handle ops code message)"
  unfolding recv_handle_defs
  by (intro keeps_intro)
     (auto simp: mark_bad_def leave_copy_mode_def forget_registering_def note_command_def split: list.split)

text \<open>The connection after it has read and buffered a message.\<close>

definition took :: "byte \<Rightarrow> bytes \<Rightarrow> bytes \<Rightarrow> 'c server \<Rightarrow> 'c server" where
  "took tag body rest s =
     s\<lparr>sv_stream := (sv_stream s)\<lparr>rd_input := rest\<rparr>, sv_buffer := sv_buffer s @ frame tag body\<rparr>"

lemma recv_step_frame:
  assumes "rd_input (sv_stream s) = frame tag body @ rest" "length body + 4 < 2147483648"
  shows "recv_step ops (s, p) = recv_handle ops tag body (took tag body rest s, p)"
proof -
  have "read_message (sv_stream s) = (Ok (frame tag body), (sv_stream s)\<lparr>rd_input := rest\<rparr>)"
    using assms by (subst read_message_framed) auto
  then have "on_server (act_on_error (on_stream read_message) mark_bad) (s, p)
      = (Ok (frame tag body), (s\<lparr>sv_stream := (sv_stream s)\<lparr>rd_input := rest\<rparr>\<rparr>, p))"
    by (simp add: on_server_def on_stream_def act_zoom_def act_on_error_def)
  then show ?thesis
    by (simp add: recv_step_def server_modify_def act_modify_def act_lift_def act_bind_def frame_def wire_simps took_def)
qed

lemma recv_step_Ok_frame:
  assumes "recv_step ops (s, p) = (Ok stop, s')"
  shows "\<exists>tag body rest. rd_input (sv_stream s) = frame tag body @ rest \<and> length body + 4 < 2147483648"
proof -
  from assms obtain m t where "read_message (sv_stream s) = (Ok m, t)"
    by (auto simp: recv_step_def act_bind_Ok_iff on_server_def on_stream_def act_zoom_iff)
  then show ?thesis by (auto simp: read_message_Ok_iff)
qed

lemma recv_step_unread: "recv_step ops s = (Ok stop, s') \<Longrightarrow> unread s' < unread s"
proof -
  obtain sv p where s: "s = (sv, p)" by force
  assume r: "recv_step ops s = (Ok stop, s')"
  from recv_step_Ok_frame [OF r [unfolded s]] obtain tag body rest
    where f: "rd_input (sv_stream sv) = frame tag body @ rest" "length body + 4 < 2147483648" by blast
  from r recv_step_frame [OF f, of ops p] keepsD [OF recv_handle_keeps_stream, of "(took tag body rest sv, p)"]
  have "sv_stream (fst s') = (sv_stream sv)\<lparr>rd_input := rest\<rparr>" by (simp add: s took_def)
  with f show ?thesis by (simp add: unread_def s frame_def)
qed

function recv_loop :: "(string, unit, 'c) lru_ops \<Rightarrow> 'c recv_state \<Rightarrow> unit result \<times> 'c recv_state" where
  "recv_loop ops s =
     (case recv_step ops s of
        (Ok stop, s) \<Rightarrow> if stop then (Ok (), s) else recv_loop ops s
      | (Err e, s) \<Rightarrow> (Err e, s)
      | (Panic, s) \<Rightarrow> (Panic, s))"
  by pat_completeness auto
termination
  by (relation "measure (\<lambda>(ops, s). unread s)") (auto dest!: recv_step_unread [OF sym])

declare recv_loop.simps [simp del]

definition server_recv :: "(string, unit, 'c) lru_ops \<Rightarrow> nat \<Rightarrow> ('c recv_state, bytes) act" where
  "server_recv ops now =
     act_bind (recv_loop ops) (\<lambda>_.
     act_bind (act_get (\<lambda>(s, p). Ok (sv_buffer s))) (\<lambda>bytes.
     act_bind (server_modify (\<lambda>s. (server_stats_do (data_received (of_nat (length bytes))) s)
                                   \<lparr>sv_buffer := [], sv_last_activity := now\<rparr>)) (\<lambda>_.
     act_return bytes)))"

text \<open>\<open>recv(None)\<close>.\<close>

definition server_recv_none :: "(string, unit, 'c) lru_ops \<Rightarrow> nat \<Rightarrow> ('c server, bytes) act" where
  "server_recv_none ops now = act_zoom (\<lambda>s. (s, None)) (\<lambda>(s, _) _. s) (server_recv ops now)"

text \<open>A successful \<open>recv\<close> reads whole messages, at least one, and only the last can end a reply.\<close>

definition reply_tags :: "byte set" where
  "reply_tags = {CHR ''Z'', CHR ''G'', CHR ''H''}"

definition stop_tags :: "byte set" where
  "stop_tags = {CHR ''Z'', CHR ''G'', CHR ''H'', CHR ''D'', CHR ''d''}"

lemma recv_ready_for_query_Ok:
  assumes "recv_ready_for_query body s = (Ok stop, s')"
  shows "body \<noteq> [] \<and> stop \<and> s' = ((fst s)\<lparr>sv_in_transaction := (hd body \<noteq> CHR ''I''), sv_data_available := False\<rparr>, snd s)"
proof (cases body)
  case Nil
  with assms show ?thesis by (simp add: recv_ready_for_query_def act_bind_def act_lift_def)
next
  case (Cons c r)
  with assms show ?thesis
    by (cases "c = CHR ''T''"; cases "c = CHR ''I''"; cases "c = CHR ''E''")
       (simp_all add: recv_ready_for_query_def act_bind_Ok_iff)
qed

lemma act_bind_return_Ok: "act_bind m (\<lambda>_. act_return x) s = (Ok y, t) \<Longrightarrow> y = x"
  by (auto simp: act_bind_Ok_iff)

lemma recv_others_continue:
  "recv_error_response ops body s = (Ok stop, s') \<Longrightarrow> \<not> stop"
  "recv_command_complete body s = (Ok stop, s') \<Longrightarrow> \<not> stop"
  "recv_parameter_status body s = (Ok stop, s') \<Longrightarrow> \<not> stop"
  unfolding recv_error_response_def recv_command_complete_def recv_parameter_status_def act_bind_Ok_iff
  by (cases s; auto dest: act_bind_return_Ok split: prod.splits simp: act_bind_Ok_iff)+

lemma recv_handle_keeps_data:
  "tag \<notin> {CHR ''Z'', CHR ''D'', CHR ''H''} \<Longrightarrow> keeps (\<lambda>s. sv_data_available (fst s) = d) (recv_handle ops tag body)"
  unfolding recv_handle_defs
  by (intro keeps_intro)
     (auto simp: leave_copy_mode_def forget_registering_def note_command_def split: list.split)

lemma recv_handle_stop:
  assumes "recv_handle ops tag body s = (Ok stop, s')"
  shows "tag \<in> reply_tags \<Longrightarrow> stop" "stop \<Longrightarrow> tag \<in> stop_tags"
    and "tag = CHR ''Z'' \<Longrightarrow> \<not> sv_data_available (fst s') \<and> body \<noteq> [] \<and> (sv_in_transaction (fst s') \<longleftrightarrow> hd body \<noteq> CHR ''I'')"
    and "tag = CHR ''D'' \<or> tag = CHR ''H'' \<Longrightarrow> sv_data_available (fst s')"
    and "tag \<notin> {CHR ''Z'', CHR ''D'', CHR ''H''} \<Longrightarrow> sv_data_available (fst s') = sv_data_available (fst s)"
proof -
  show "tag \<in> reply_tags \<Longrightarrow> stop"
    using assms recv_ready_for_query_Ok [of body s stop s'] by (auto simp: recv_handle_def reply_tags_def act_bind_Ok_iff)
  show "stop \<Longrightarrow> tag \<in> stop_tags"
    using assms recv_others_continue(1) [of ops body s stop s'] recv_others_continue(2,3) [of body s stop s']
    by (auto simp: recv_handle_def stop_tags_def act_bind_Ok_iff split: if_splits)
  show "tag = CHR ''Z'' \<Longrightarrow> \<not> sv_data_available (fst s') \<and> body \<noteq> [] \<and> (sv_in_transaction (fst s') \<longleftrightarrow> hd body \<noteq> CHR ''I'')"
    using assms recv_ready_for_query_Ok [of body s stop s'] by (simp add: recv_handle_def)
  show "tag = CHR ''D'' \<or> tag = CHR ''H'' \<Longrightarrow> sv_data_available (fst s')"
    using assms by (auto simp: recv_handle_def act_bind_Ok_iff)
  show "tag \<notin> {CHR ''Z'', CHR ''D'', CHR ''H''} \<Longrightarrow> sv_data_available (fst s') = sv_data_available (fst s)"
    using keepsD [OF recv_handle_keeps_data _ assms] by simp
qed

lemma recv_handle_stream:
  "recv_handle ops tag body (took tag body rest s, p) = (r, s') \<Longrightarrow>
   sv_stream (fst s') = (sv_stream s)\<lparr>rd_input := rest\<rparr> \<and> sv_buffer (fst s') = sv_buffer s @ frame tag body"
  using keepsD [OF recv_handle_keeps_stream, of "(took tag body rest s, p)"] by (simp add: took_def)

text \<open>
  What a \<open>recv\<close> that succeeds has done: the messages it read, and the state of the last one.  The
  flag for more data is clear only after ReadyForQuery or when it was clear before.
\<close>

definition reads :: "'c server \<Rightarrow> bytes list \<Rightarrow> 'c server \<Rightarrow> bool" where
  "reads s ms s' \<longleftrightarrow> list_all framed ms
     \<and> (\<exists>rest. rd_input (sv_stream s) = concat ms @ rest \<and> sv_stream s' = (sv_stream s)\<lparr>rd_input := rest\<rparr>)"

definition ends_reply :: "bytes \<Rightarrow> 'c server \<Rightarrow> bool" where
  "ends_reply m s \<longleftrightarrow> hd m \<in> stop_tags
     \<and> (hd m = CHR ''Z'' \<longrightarrow> \<not> sv_data_available s \<and> (sv_in_transaction s \<longleftrightarrow> m ! 5 \<noteq> CHR ''I''))
     \<and> (hd m = CHR ''D'' \<or> hd m = CHR ''H'' \<longrightarrow> sv_data_available s)"

lemma recv_loop_reads:
  "recv_loop ops (s, p) = (Ok (), (s', p')) \<Longrightarrow>
   \<exists>ms m. reads s (ms @ [m]) s' \<and> sv_buffer s' = sv_buffer s @ concat (ms @ [m])
     \<and> (\<forall>x \<in> set ms. hd x \<notin> reply_tags) \<and> ends_reply m s'"
proof (induction ops "(s, p)" arbitrary: s p rule: recv_loop.induct)
  case (1 ops)
  from "1.prems" obtain stop s1 p1 where st: "recv_step ops (s, p) = (Ok stop, (s1, p1))"
    and nx: "if stop then (s1, p1) = (s', p') else recv_loop ops (s1, p1) = (Ok (), (s', p'))"
    by (subst (asm) recv_loop.simps) (auto split: prod.splits outcome.splits if_splits)
  from recv_step_Ok_frame [OF st] obtain tag body rest
    where f: "rd_input (sv_stream s) = frame tag body @ rest" and small: "length body + 4 < 2147483648" by blast
  note h = st [unfolded recv_step_frame [OF f small]]
  note stop = recv_handle_stop [OF h]
  from recv_handle_stream [OF h] have s1: "sv_stream s1 = (sv_stream s)\<lparr>rd_input := rest\<rparr>" "sv_buffer s1 = sv_buffer s @ frame tag body" by auto
  let ?m = "frame tag body"
  have m: "framed ?m" "hd ?m = tag" using small framedI [of body tag] by (simp_all add: frame_def)
  have m5: "?m ! 5 = hd body" if "body \<noteq> []"
    using that by (cases body) (simp_all add: frame_def nth_append numeral_eq_Suc)
  show ?case
  proof (cases stop)
    case True
    with nx have "s' = s1" by simp
    moreover have "ends_reply ?m s1" using stop True m m5 by (auto simp: ends_reply_def)
    ultimately show ?thesis using s1 f m by (intro exI [of _ "[]"] exI [of _ ?m]) (simp add: reads_def)
  next
    case False
    with nx have "recv_loop ops (s1, p1) = (Ok (), (s', p'))" by simp
    from "1.hyps" [OF st [symmetric] refl False this] obtain ms k where
      "reads s1 (ms @ [k]) s'" "sv_buffer s' = sv_buffer s1 @ concat (ms @ [k])"
      "\<forall>x \<in> set ms. hd x \<notin> reply_tags" "ends_reply k s'" by auto
    moreover have "tag \<notin> reply_tags" using stop(1) False by auto
    ultimately show ?thesis using s1 f m
      by (intro exI [of _ "?m # ms"] exI [of _ k]) (auto simp: reads_def)
  qed
qed

lemma server_recv_Ok:
  assumes "server_recv ops now (s, p) = (Ok bytes, (s', p'))"
  shows "\<exists>ms m. reads s (ms @ [m]) s' \<and> bytes = sv_buffer s @ concat (ms @ [m]) \<and> sv_buffer s' = [] \<and> sv_last_activity s' = now
     \<and> (\<forall>x \<in> set ms. hd x \<notin> reply_tags) \<and> ends_reply m s'"
proof -
  from assms obtain s1 where l: "recv_loop ops (s, p) = (Ok (), (s1, p'))" and b: "bytes = sv_buffer s1"
    and s': "s' = (server_stats_do (data_received (of_nat (length bytes))) s1)\<lparr>sv_buffer := [], sv_last_activity := now\<rparr>"
    by (auto simp: server_recv_def act_bind_Ok_iff)
  from recv_loop_reads [OF l] show ?thesis
    by (auto simp: b s' reads_def ends_reply_def server_stats_do_def)
qed

text \<open>A connection on which \<open>recv\<close> fails is marked as bad, so that it does not return to the pool.\<close>

lemma recv_ready_for_query_Err: "recv_ready_for_query body s = (Err e, s') \<Longrightarrow> sv_bad (fst s')"
proof (cases body)
  case (Cons c r)
  assume "recv_ready_for_query body s = (Err e, s')"
  with Cons show ?thesis
    by (cases "c = CHR ''T''"; cases "c = CHR ''I''"; cases "c = CHR ''E''")
       (auto simp: recv_ready_for_query_def act_bind_Err_iff mark_bad_def)
qed (simp add: recv_ready_for_query_def act_bind_Err_iff)

lemma recv_others_no_Err:
  "recv_error_response ops body s \<noteq> (Err e, s')" "recv_command_complete body s \<noteq> (Err e, s')"
  "recv_parameter_status body s \<noteq> (Err e, s')"
  by (auto simp: recv_error_response_def recv_command_complete_def recv_parameter_status_def act_bind_Err_iff act_when_def
      pg_error_msg_parse_def split: prod.splits outcome.splits)

lemma recv_handle_Err: "recv_handle ops code body s = (Err e, s') \<Longrightarrow> sv_bad (fst s')"
  using recv_ready_for_query_Err [of body s e s'] recv_others_no_Err(1) [of ops body s e s'] recv_others_no_Err(2,3) [of body s e s']
  by (auto simp: recv_handle_def act_bind_Err_iff buffer_full_def split: if_splits)

lemma get_not_Err: "get_u8 bs \<noteq> Err e" "get_i32 bs \<noteq> Err e"
  by (cases bs; simp add: get_i32_def get_bytes_def)+

lemma recv_step_Err: "recv_step ops s = (Err e, s') \<Longrightarrow> sv_bad (fst s')"
  by (cases s)
     (auto simp: recv_step_def act_bind_Err_iff on_server_def act_zoom_iff act_on_error_Err_iff mark_bad_def get_not_Err
      dest: recv_handle_Err)

lemma recv_loop_Err: "recv_loop ops s = (Err e, s') \<Longrightarrow> sv_bad (fst s')"
proof (induction ops s rule: recv_loop.induct)
  case (1 ops s)
  obtain r s1 where st: "recv_step ops s = (r, s1)" by (cases "recv_step ops s")
  show ?case
  proof (cases r)
    case (Ok stop)
    with "1.prems" st "1.IH" [OF st [symmetric] Ok] show ?thesis
      by (subst (asm) recv_loop.simps) (auto split: if_splits)
  next
    case (Err e')
    with "1.prems" st have "s' = s1" by (subst (asm) recv_loop.simps) simp
    with recv_step_Err st Err show ?thesis by blast
  next
    case Panic
    with "1.prems" st show ?thesis by (subst (asm) recv_loop.simps) simp
  qed
qed

section \<open>Queries of the pooler\<close>

lemma server_recv_none_Ok:
  assumes "server_recv_none ops now s = (Ok bytes, s')"
  shows "\<exists>ms m. reads s (ms @ [m]) s' \<and> bytes = sv_buffer s @ concat (ms @ [m]) \<and> sv_buffer s' = [] \<and> sv_last_activity s' = now
     \<and> (\<forall>x \<in> set ms. hd x \<notin> reply_tags) \<and> ends_reply m s'"
proof -
  from assms obtain s1 p where "server_recv ops now (s, None) = (Ok bytes, (s1, p))" "s' = s1"
    by (auto simp: server_recv_none_def act_zoom_iff)
  then show ?thesis using server_recv_Ok by blast
qed

lemma framed_not_Nil: "framed m \<Longrightarrow> m \<noteq> []"
  by (auto simp: framed_def frame_def)

lemma reads_shorter: "reads s (ms @ [m]) s' \<Longrightarrow> length (rd_input (sv_stream s')) < length (rd_input (sv_stream s))"
  using framed_not_Nil [of m] by (auto simp: reads_def)

text \<open>\<open>loop { self.recv(None).await?; if !self.data_available { break } }\<close>\<close>

function recv_until_idle :: "(string, unit, 'c) lru_ops \<Rightarrow> nat \<Rightarrow> 'c server \<Rightarrow> unit result \<times> 'c server" where
  "recv_until_idle ops now s =
     (case server_recv_none ops now s of
        (Ok _, s) \<Rightarrow> if sv_data_available s then recv_until_idle ops now s else (Ok (), s)
      | (Err e, s) \<Rightarrow> (Err e, s)
      | (Panic, s) \<Rightarrow> (Panic, s))"
  by pat_completeness auto
termination
proof (relation "measure (\<lambda>(ops, now, s). length (rd_input (sv_stream s)))")
  fix ops :: "(string, unit, 'c) lru_ops" and now :: nat and s x s1 bytes
  assume "(x, s1) = server_recv_none ops now s" "x = Ok bytes"
  then have "server_recv_none ops now s = (Ok bytes, s1)" by simp
  from server_recv_none_Ok [OF this] reads_shorter
  show "((ops, now, s1), (ops, now, s)) \<in> measure (\<lambda>(ops, now, s). length (rd_input (sv_stream s)))" by fastforce
qed simp

declare recv_until_idle.simps [simp del]

definition server_query :: "(string, unit, 'c) lru_ops \<Rightarrow> nat \<Rightarrow> string \<Rightarrow> ('c server, unit) act" where
  "server_query ops now query =
     act_bind (server_send now (simple_query query)) (\<lambda>_. recv_until_idle ops now)"

section \<open>Prepared statements\<close>

definition has_prepared_statement :: "(string, unit, 'c) lru_ops \<Rightarrow> string \<Rightarrow> 'c server \<Rightarrow> bool \<times> 'c server" where
  "has_prepared_statement ops name self =
     (case sv_cache self of
        None \<Rightarrow> (False, self)
      | Some cache \<Rightarrow>
          let (r, cache) = lru_get ops name cache; has_it = (r \<noteq> None)
          in (has_it, server_stats_do (if has_it then prepared_cache_hit else prepared_cache_miss)
                (self\<lparr>sv_cache := Some cache\<rparr>)))"

definition add_prepared_statement_to_cache ::
  "(string, unit, 'c) lru_ops \<Rightarrow> string \<Rightarrow> 'c server \<Rightarrow> string option \<times> 'c server" where
  "add_prepared_statement_to_cache ops name self =
     (case sv_cache self of
        None \<Rightarrow> (None, self)
      | Some cache \<Rightarrow>
          let (evicted, cache) = lru_push ops name () cache
          in (case evicted of
                Some (evicted_name, _) \<Rightarrow> if evicted_name \<noteq> name then Some evicted_name else None
              | None \<Rightarrow> None,
              server_stats_do prepared_cache_add (self\<lparr>sv_cache := Some cache\<rparr>)))"

definition remove_prepared_statement_from_cache :: "(string, unit, 'c) lru_ops \<Rightarrow> string \<Rightarrow> 'c server \<Rightarrow> 'c server" where
  "remove_prepared_statement_from_cache ops name self =
     (case sv_cache self of
        None \<Rightarrow> self
      | Some cache \<Rightarrow> server_stats_do prepared_cache_remove (self\<lparr>sv_cache := Some (snd (lru_pop ops name cache))\<rparr>))"

text \<open>What is sent to the server for a statement it does not have: the Parse message when asked for,
  and a Close message for the statement that had to make room.\<close>

definition registration_bytes :: "(string, unit, 'c) lru_ops \<Rightarrow> parse_msg \<Rightarrow> bool \<Rightarrow> ('c server, bytes) act" where
  "registration_bytes ops parse should_send_parse_to_server =
     act_bind (act_lift (if should_send_parse_to_server then parse_to_bytes parse else Ok [])) (\<lambda>parse_bytes.
     act_bind (act_update (add_prepared_statement_to_cache ops (p_name parse))) (\<lambda>evicted.
     case evicted of
       None \<Rightarrow> act_return parse_bytes
     | Some evicted_name \<Rightarrow>
         act_bind (act_modify (remove_prepared_statement_from_cache ops evicted_name)) (\<lambda>_.
         act_bind (act_lift (close_to_bytes (close_new evicted_name))) (\<lambda>close_bytes.
         act_return (parse_bytes @ close_bytes)))))"

definition register_prepared_statement ::
  "(string, unit, 'c) lru_ops \<Rightarrow> nat \<Rightarrow> parse_msg \<Rightarrow> bool \<Rightarrow> ('c server, unit) act" where
  "register_prepared_statement ops now parse should_send_parse_to_server =
     act_bind (act_update (has_prepared_statement ops (p_name parse))) (\<lambda>has_it.
     act_bind (act_when (\<not> has_it)
       (act_bind (act_modify (\<lambda>s. s\<lparr>sv_registering := sv_registering s @ [p_name parse]\<rparr>)) (\<lambda>_.
        act_bind (registration_bytes ops parse should_send_parse_to_server) (\<lambda>bytes.
        act_when (bytes \<noteq> [])
          (act_bind (server_send now (bytes @ sync)) (\<lambda>_. recv_until_idle ops now)))))) (\<lambda>_.
     act_bind (act_update (has_prepared_statement ops (p_name parse))) (\<lambda>has_it.
     act_lift (if has_it then Ok () else Err PreparedStatementError))))"

section \<open>Clean-up\<close>

definition sync_query :: "(string \<times> string) list \<Rightarrow> string" where
  "sync_query diff = concat (map (\<lambda>(key, val). ''SET '' @ key @ '' TO '' @ [CHR 0x27] @ val @ [CHR 0x27] @ '';'') diff)"

definition reset_cleanup :: "'c server \<Rightarrow> 'c server" where
  "reset_cleanup s = s\<lparr>sv_cleanup_state := cleanup_reset (sv_cleanup_state s)\<rparr>"

text \<open>The clean-up state is reset whatever the outcome of the query.\<close>

definition sync_parameters :: "(string, unit, 'c) lru_ops \<Rightarrow> nat \<Rightarrow> server_parameters \<Rightarrow> ('c server, unit) act" where
  "sync_parameters ops now parameters s =
     (let parameter_diff = compare_params (sv_parameters s) parameters
      in if parameter_diff = [] then (Ok (), s)
         else (case server_query ops now (sync_query parameter_diff) s of (res, s) \<Rightarrow> (res, reset_cleanup s)))"

definition reset_string :: "cleanup_state \<Rightarrow> string" where
  "reset_string c =
     ''RESET ROLE;'' @ (if cs_needs_cleanup_set c then ''RESET ALL;'' else [])
     @ (if cs_needs_cleanup_prepare c then ''DEALLOCATE ALL;'' else [])"

definition clear_statements :: "(string, unit, 'c) lru_ops \<Rightarrow> 'c server \<Rightarrow> 'c server" where
  "clear_statements ops s =
     (if cs_needs_cleanup_prepare (sv_cleanup_state s) then s\<lparr>sv_cache := map_option (lru_clear ops) (sv_cache s)\<rparr> else s)"

definition checkin_cleanup :: "(string, unit, 'c) lru_ops \<Rightarrow> nat \<Rightarrow> ('c server, unit) act" where
  "checkin_cleanup ops now =
     act_bind (act_get (\<lambda>s. Ok (server_in_transaction s))) (\<lambda>in_transaction.
     act_bind (act_when in_transaction (server_query ops now ''ROLLBACK'')) (\<lambda>_.
     act_bind (act_get (\<lambda>s. Ok (needs_cleanup (sv_cleanup_state s) \<and> sv_cleanup_connections s, reset_string (sv_cleanup_state s)))) (\<lambda>(clean, reset).
     act_when clean
       (act_bind (act_modify (clear_statements ops)) (\<lambda>_.
        act_bind (server_query ops now reset) (\<lambda>_.
        act_modify reset_cleanup))))))"

text \<open>\<open>Drop for Server\<close>: the Terminate message is written if the socket takes it.\<close>

definition server_drop :: "'c server \<Rightarrow> server_states_lookup \<Rightarrow> 'c server \<times> server_states_lookup" where
  "server_drop self lookup =
     (let self = mirror_disconnect self;
          self = self\<lparr>sv_stream := snd (stream_write_all (put_u8 CHR ''X'' @ put_i32 4) (sv_stream self))\<rparr>
      in (self, server_disconnect (sv_stats self) lookup))"

end
