(* ===== verification/Server_Laws.thy ===== *)
theory Server_Laws
  imports Server
begin

text \<open>
  Properties of a server connection: what a receive call returns, that a complete reply ends the
  queries of the pooler, what clean-up achieves, and the prepared statements of a connection.
\<close>

section \<open>Complete replies\<close>

text \<open>A message, as tag and body, that can stand inside a reply to a query of the pooler.\<close>

definition plain_message :: "byte \<times> bytes \<Rightarrow> bool" where
  "plain_message = (\<lambda>(tag, body).
     tag \<notin> {CHR ''Z'', CHR ''G'', CHR ''H'', CHR ''d''} \<and> length body + 4 < 2147483648
     \<and> (tag = CHR ''S'' \<longrightarrow> (\<exists>k v. CHR 0x00 \<notin> set k \<and> CHR 0x00 \<notin> set v \<and> body = k @ CHR 0x00 # v @ [CHR 0x00])))"

definition reply_bytes :: "(byte \<times> bytes) list \<Rightarrow> byte \<Rightarrow> bytes" where
  "reply_bytes ms status = concat (map (\<lambda>(tag, body). frame tag body) ms) @ frame CHR ''Z'' [status]"

lemma reply_bytes_simps [simp]:
  "reply_bytes [] status = frame CHR ''Z'' [status]"
  "reply_bytes ((tag, body) # ms) status = frame tag body @ reply_bytes ms status"
  by (simp_all add: reply_bytes_def)

lemma bytes_read_string_Ok: "CHR 0x00 \<notin> set k \<Longrightarrow> bytes_read_string (k @ CHR 0x00 # r) = Ok (from_utf8_lossy k, r)"
  by (simp add: bytes_read_string_def split_at_first_append)

lemma recv_handle_plain:
  assumes "plain_message (tag, body)"
  shows "\<exists>s'. recv_handle ops tag body s = (Ok (tag = CHR ''D'' \<and> 8196 \<le> length (sv_buffer (fst s))), s')"
proof -
  obtain sv p where s: "s = (sv, p)" by force
  consider "tag = CHR ''E''" | "tag = CHR ''C''" | "tag = CHR ''S''" | "tag = CHR ''D''" | "tag = CHR ''1''"
    | "tag \<notin> {CHR ''Z'', CHR ''E'', CHR ''C'', CHR ''S'', CHR ''D'', CHR ''G'', CHR ''H'', CHR ''d'', CHR ''1''}"
    using assms by (auto simp: plain_message_def)
  then show ?thesis
  proof cases
    case 1
    then show ?thesis
      by (simp add: recv_handle_def recv_error_response_def s act_bind_def server_modify_def act_modify_def act_get_def act_when_def
          act_return_def act_lift_def pg_error_msg_parse_def)
  next
    case 2
    then show ?thesis
      by (simp add: recv_handle_def recv_command_complete_def s act_bind_def server_modify_def act_modify_def act_return_def
          bytes_read_string_def split: option.split prod.split)
  next
    case 3
    with assms obtain k v where "CHR 0x00 \<notin> set k" "CHR 0x00 \<notin> set v" "body = k @ CHR 0x00 # v @ [CHR 0x00]"
      by (auto simp: plain_message_def)
    with 3 show ?thesis
      by (simp add: recv_handle_def recv_parameter_status_def s act_bind_def act_lift_def act_modify_def act_return_def
          bytes_read_string_Ok)
  qed (auto simp: recv_handle_def act_bind_def server_modify_def act_modify_def act_get_def act_return_def buffer_full_def assms s
      plain_message_def)
qed

definition status_byte :: "byte \<Rightarrow> bool" where
  "status_byte c \<longleftrightarrow> c = CHR ''T'' \<or> c = CHR ''I'' \<or> c = CHR ''E''"

lemma recv_handle_ready:
  assumes "status_byte c"
  shows "recv_handle ops CHR ''Z'' [c] (s, p) = (Ok True, (s\<lparr>sv_in_transaction := (c \<noteq> CHR ''I''), sv_data_available := False\<rparr>, p))"
  using assms
  by (auto simp: status_byte_def recv_handle_def recv_ready_for_query_def act_bind_def act_lift_def server_modify_def act_modify_def
      act_return_def)

lemma recv_loop_reply:
  assumes "rd_input (sv_stream s) = reply_bytes ms c @ rest" "list_all plain_message ms" "status_byte c"
  shows "\<exists>s' p'. recv_loop ops (s, p) = (Ok (), (s', p'))
    \<and> ((\<exists>ms'. length ms' < length ms \<and> list_all plain_message ms' \<and> rd_input (sv_stream s') = reply_bytes ms' c @ rest \<and> sv_data_available s')
       \<or> rd_input (sv_stream s') = rest \<and> \<not> sv_data_available s' \<and> (sv_in_transaction s' \<longleftrightarrow> c \<noteq> CHR ''I''))"
  using assms
proof (induction ms arbitrary: s p)
  case Nil
  then have "recv_step ops (s, p) = recv_handle ops CHR ''Z'' [c] (took CHR ''Z'' [c] rest s, p)"
    by (intro recv_step_frame) auto
  with Nil.prems(3) show ?case
    by (subst recv_loop.simps) (simp add: recv_handle_ready took_def)
next
  case (Cons m ms)
  obtain tag body where m: "m = (tag, body)" by force
  from Cons.prems m have pl: "plain_message (tag, body)" and f: "rd_input (sv_stream s) = frame tag body @ reply_bytes ms c @ rest" by auto
  let ?s0 = "took tag body (reply_bytes ms c @ rest) s"
  from recv_handle_plain [OF pl, of ops "(?s0, p)"] obtain stop s1 p1
    where h: "recv_handle ops tag body (?s0, p) = (Ok stop, (s1, p1))" and tag: "stop \<Longrightarrow> tag = CHR ''D''" by auto
  have step: "recv_step ops (s, p) = (Ok stop, (s1, p1))"
    using recv_step_frame [OF f, of ops p] pl h by (simp add: plain_message_def)
  have i1: "rd_input (sv_stream s1) = reply_bytes ms c @ rest" using recv_handle_stream [OF h] by simp
  show ?case
  proof (cases stop)
    case True
    then have "sv_data_available s1" using recv_handle_stop(4) [OF h] tag by simp
    with True step i1 Cons.prems show ?thesis
      by (subst recv_loop.simps) (auto simp: m intro!: exI [of _ ms])
  next
    case False
    from Cons.IH [OF i1, of p1] Cons.prems obtain s' p' where "recv_loop ops (s1, p1) = (Ok (), (s', p'))"
      and "(\<exists>ms'. length ms' < length ms \<and> list_all plain_message ms' \<and> rd_input (sv_stream s') = reply_bytes ms' c @ rest \<and> sv_data_available s')
       \<or> rd_input (sv_stream s') = rest \<and> \<not> sv_data_available s' \<and> (sv_in_transaction s' \<longleftrightarrow> c \<noteq> CHR ''I'')"
      by auto
    moreover from this(1) False step have "recv_loop ops (s, p) = (Ok (), (s', p'))" by (subst recv_loop.simps) simp
    ultimately show ?thesis using less_SucI by fastforce
  qed
qed

lemma server_recv_none_eq:
  "server_recv_none ops now s =
     (case recv_loop ops (s, None) of
        (Ok _, (s, _)) \<Rightarrow> (Ok (sv_buffer s), (server_stats_do (data_received (of_nat (length (sv_buffer s)))) s)\<lparr>sv_buffer := [], sv_last_activity := now\<rparr>)
      | (Err e, (s, _)) \<Rightarrow> (Err e, s)
      | (Panic, (s, _)) \<Rightarrow> (Panic, s))"
  by (auto simp: server_recv_none_def server_recv_def act_zoom_def act_bind_def act_get_def server_modify_def act_modify_def act_return_def
      split: prod.split outcome.split)

lemma recv_until_idle_reply:
  assumes "rd_input (sv_stream s) = reply_bytes ms c @ rest" "list_all plain_message ms" "status_byte c"
  shows "\<exists>s'. recv_until_idle ops now s = (Ok (), s') \<and> rd_input (sv_stream s') = rest \<and> \<not> sv_data_available s'
    \<and> (sv_in_transaction s' \<longleftrightarrow> c \<noteq> CHR ''I'')"
  using assms
proof (induction "length ms" arbitrary: ms s rule: less_induct)
  case less
  from recv_loop_reply [OF less.prems, of ops None] obtain s1 p1 where l: "recv_loop ops (s, None) = (Ok (), (s1, p1))"
    and cs: "(\<exists>ms'. length ms' < length ms \<and> list_all plain_message ms' \<and> rd_input (sv_stream s1) = reply_bytes ms' c @ rest \<and> sv_data_available s1)
       \<or> rd_input (sv_stream s1) = rest \<and> \<not> sv_data_available s1 \<and> (sv_in_transaction s1 \<longleftrightarrow> c \<noteq> CHR ''I'')" by blast
  define s2 where "s2 = (server_stats_do (data_received (of_nat (length (sv_buffer s1)))) s1)\<lparr>sv_buffer := [], sv_last_activity := now\<rparr>"
  have r: "server_recv_none ops now s = (Ok (sv_buffer s1), s2)" by (simp add: server_recv_none_eq l s2_def)
  have s2: "sv_stream s2 = sv_stream s1" "sv_data_available s2 = sv_data_available s1" "sv_in_transaction s2 = sv_in_transaction s1"
    by (simp_all add: s2_def server_stats_do_def)
  from cs show ?case
  proof
    assume "\<exists>ms'. length ms' < length ms \<and> list_all plain_message ms' \<and> rd_input (sv_stream s1) = reply_bytes ms' c @ rest \<and> sv_data_available s1"
    then obtain ms' where "length ms' < length ms" "list_all plain_message ms'" "rd_input (sv_stream s2) = reply_bytes ms' c @ rest" "sv_data_available s2"
      using s2 by auto
    with less.hyps [of ms' s2] less.prems(3) r show ?thesis by (subst recv_until_idle.simps) simp
  next
    assume "rd_input (sv_stream s1) = rest \<and> \<not> sv_data_available s1 \<and> (sv_in_transaction s1 \<longleftrightarrow> c \<noteq> CHR ''I'')"
    with r s2 show ?thesis by (subst recv_until_idle.simps) simp
  qed
qed

section \<open>What the loops leave alone\<close>

lemma keeps_recv_loop:
  assumes "keeps P (recv_step ops)"
  shows "keeps P (recv_loop ops)"
proof -
  have "recv_loop ops s = (r, t) \<Longrightarrow> P s \<Longrightarrow> P t" for s r t
  proof (induction "unread s" arbitrary: s rule: less_induct)
    case less
    obtain r1 s1 where st: "recv_step ops s = (r1, s1)" by (cases "recv_step ops s")
    from keepsD [OF assms less.prems(2) st] have s1: "P s1" .
    show ?case
    proof (cases "\<exists>stop. r1 = Ok stop \<and> \<not> stop")
      case True
      with st less.prems(1) have "recv_loop ops s1 = (r, t)" by (subst (asm) recv_loop.simps) auto
      with less.hyps [of s1] recv_step_unread st True s1 show ?thesis by blast
    next
      case False
      with st less.prems(1) have "t = s1" by (subst (asm) recv_loop.simps) (auto split: outcome.splits if_splits)
      with s1 show ?thesis by simp
    qed
  qed
  then show ?thesis unfolding keeps_def by (metis prod.collapse)
qed

text \<open>A property of the connection that neither reading messages nor the bookkeeping of \<open>recv\<close> changes.\<close>

definition recv_stable :: "(string, unit, 'c) lru_ops \<Rightarrow> ('c server \<Rightarrow> bool) \<Rightarrow> bool" where
  "recv_stable ops P \<longleftrightarrow> keeps (\<lambda>s. P (fst s)) (recv_step ops)
     \<and> (\<forall>s f now. P s \<longrightarrow> P ((server_stats_do f s)\<lparr>sv_buffer := [], sv_last_activity := now\<rparr>))"

lemma keeps_server_recv_none: "recv_stable ops P \<Longrightarrow> keeps P (server_recv_none ops now)"
  using keeps_recv_loop [of "\<lambda>s. P (fst s)" ops]
  by (auto simp: keeps_def recv_stable_def server_recv_none_eq split: prod.split outcome.split) (metis fst_conv snd_conv)+

lemma keeps_recv_until_idle:
  assumes "recv_stable ops P"
  shows "keeps P (recv_until_idle ops now)"
proof -
  have "recv_until_idle ops now s = (r, t) \<Longrightarrow> P s \<Longrightarrow> P t" for s r t
  proof (induction "length (rd_input (sv_stream s))" arbitrary: s rule: less_induct)
    case less
    obtain r1 s1 where st: "server_recv_none ops now s = (r1, s1)" by (cases "server_recv_none ops now s")
    from keepsD [OF keeps_server_recv_none [OF assms] less.prems(2) st] have s1: "P s1" .
    show ?case
    proof (cases "(\<exists>x. r1 = Ok x) \<and> sv_data_available s1")
      case True
      with st less.prems(1) have "recv_until_idle ops now s1 = (r, t)" by (subst (asm) recv_until_idle.simps) auto
      moreover have "length (rd_input (sv_stream s1)) < length (rd_input (sv_stream s))"
        using server_recv_none_Ok [of ops now s _ s1] reads_shorter [of s _ _ s1] st True by blast
      ultimately show ?thesis using less.hyps s1 by blast
    next
      case False
      with st less.prems(1) have "t = s1" by (subst (asm) recv_until_idle.simps) (auto split: outcome.splits if_splits)
      with s1 show ?thesis by simp
    qed
  qed
  then show ?thesis unfolding keeps_def by (metis prod.collapse)
qed

text \<open>Neither the output of the connection nor its settings change while it receives.\<close>

definition same_output :: "bytes \<Rightarrow> bool \<Rightarrow> 'c server \<Rightarrow> bool" where
  "same_output out cleanup s \<longleftrightarrow> wr_output (sv_stream s) = out \<and> sv_cleanup_connections s = cleanup"

lemma stream_reads_keep_output:
  "wr_output (snd (stream_read_u8 s)) = wr_output s" "wr_output (snd (stream_read_i32 s)) = wr_output s"
  "wr_output (snd (stream_read_exact n s)) = wr_output s"
  by (auto simp: stream_read_u8_def stream_read_i32_def stream_read_exact_def split: list.split outcome.split)

lemma keeps_read_message: "keeps (\<lambda>s. wr_output s = out) read_message"
  unfolding read_message_def Let_def by (intro keeps_intro) (simp_all add: stream_reads_keep_output)

lemma read_message_output: "read_message s = (r, t) \<Longrightarrow> wr_output t = wr_output s"
  by (rule keepsD [OF keeps_read_message refl])

lemma recv_stableI:
  fixes P :: "'c server \<Rightarrow> bool"
  assumes rd: "\<And>s t. P s \<Longrightarrow> wr_output t = wr_output (sv_stream s) \<Longrightarrow> P (s\<lparr>sv_stream := t\<rparr>)"
    and bad: "\<And>s. P s \<Longrightarrow> P (mark_bad s)" and buffer: "\<And>s b. P s \<Longrightarrow> P (s\<lparr>sv_buffer := b\<rparr>)"
    and handle: "\<And>code message. keeps (\<lambda>s. P (fst s)) (recv_handle ops code message)"
    and stats: "\<And>s f now. P s \<Longrightarrow> P ((server_stats_do f s)\<lparr>sv_buffer := [], sv_last_activity := now\<rparr>)"
  shows "recv_stable ops P"
proof -
  have "keeps P (on_stream read_message)"
    unfolding on_stream_def by (rule keeps_zoom) (blast intro: rd dest: read_message_output)
  then have m: "keeps P (act_on_error (on_stream read_message) mark_bad)" by (intro keeps_intro) (auto intro: bad)
  have "keeps (\<lambda>s. P (fst s)) (on_server (act_on_error (on_stream read_message) mark_bad))"
    unfolding on_server_def by (rule keeps_zoom) (auto dest: keepsD [OF m])
  then have "keeps (\<lambda>s. P (fst s)) (recv_step ops)"
    unfolding recv_step_def by (intro keeps_intro handle) (auto intro: buffer)
  with stats show ?thesis by (simp add: recv_stable_def)
qed

lemmas recv_updates = mark_bad_def leave_copy_mode_def forget_registering_def note_command_def server_stats_do_def

lemma recv_stable_output: "recv_stable ops (same_output out cl)"
  by (rule recv_stableI; (unfold recv_handle_defs)?; (intro keeps_intro)?)
     (auto simp: same_output_def recv_updates split: list.split)

text \<open>Receiving never takes back that the session was altered.\<close>

definition cleanup_le :: "cleanup_state \<Rightarrow> cleanup_state \<Rightarrow> bool" where
  "cleanup_le c c' \<longleftrightarrow> (cs_needs_cleanup_set c \<longrightarrow> cs_needs_cleanup_set c') \<and> (cs_needs_cleanup_prepare c \<longrightarrow> cs_needs_cleanup_prepare c')"

lemma recv_stable_cleanup: "recv_stable ops (\<lambda>s. cleanup_le c (sv_cleanup_state s))"
  by (rule recv_stableI; (unfold recv_handle_defs)?; (intro keeps_intro)?)
     (auto simp: cleanup_le_def recv_updates split: list.split)

lemma recv_until_idle_cleanup: "recv_until_idle ops now s = (r, s') \<Longrightarrow> cleanup_le (sv_cleanup_state s) (sv_cleanup_state s')"
  using keepsD [OF keeps_recv_until_idle [OF recv_stable_cleanup], of "sv_cleanup_state s" s] by (simp add: cleanup_le_def)

lemma recv_until_idle_output: "recv_until_idle ops now s = (r, s') \<Longrightarrow> wr_output (sv_stream s') = wr_output (sv_stream s)
    \<and> sv_cleanup_connections s' = sv_cleanup_connections s"
  using keepsD [OF keeps_recv_until_idle [OF recv_stable_output], of "wr_output (sv_stream s)" "sv_cleanup_connections s" s]
  by (simp add: same_output_def)

lemma server_send_Ok:
  assumes "server_send now m s = (Ok (), s')"
  shows "wr_output (sv_stream s') = wr_output (sv_stream s) @ m \<and> rd_input (sv_stream s') = rd_input (sv_stream s)
    \<and> sv_cleanup_connections s' = sv_cleanup_connections s \<and> sv_cache s' = sv_cache s \<and> sv_cleanup_state s' = sv_cleanup_state s"
  using assms
  by (auto simp: server_send_def act_bind_Ok_iff on_stream_def act_zoom_iff write_all_flush_def stream_write_all_def stream_flush_def
      mirror_send_def server_stats_do_def split: option.splits if_splits prod.splits)

lemma server_send_Err: "server_send now m s = (Err e, s') \<Longrightarrow> sv_bad s'"
  by (auto simp: server_send_def act_bind_Err_iff act_on_error_Err_iff mark_bad_def)

lemma server_send_total:
  assumes "wr_budget (sv_stream s) = None" "fl_error (sv_stream s) = None"
  shows "\<exists>s'. server_send now m s = (Ok (), s') \<and> rd_input (sv_stream s') = rd_input (sv_stream s)
    \<and> wr_output (sv_stream s') = wr_output (sv_stream s) @ m"
  using assms
  by (simp add: server_send_def act_bind_def act_modify_def act_on_error_def on_stream_def act_zoom_def write_all_flush_def act_io_def
      stream_write_all_def stream_flush_def mirror_send_def server_stats_do_def)

lemma server_query_Ok:
  assumes "server_query ops now q s = (Ok (), s')"
  shows "wr_output (sv_stream s') = wr_output (sv_stream s) @ simple_query q
    \<and> sv_cleanup_connections s' = sv_cleanup_connections s \<and> cleanup_le (sv_cleanup_state s) (sv_cleanup_state s')"
proof -
  from assms obtain s1 where "server_send now (simple_query q) s = (Ok (), s1)" "recv_until_idle ops now s1 = (Ok (), s')"
    by (auto simp: server_query_def act_bind_Ok_iff)
  with server_send_Ok [of now "simple_query q" s s1] recv_until_idle_output [of ops now s1 _ s'] recv_until_idle_cleanup [of ops now s1 _ s']
  show ?thesis by auto
qed

lemma recv_until_idle_Err: "recv_until_idle ops now s = (Err e, s') \<Longrightarrow> sv_bad s'"
proof (induction ops now s rule: recv_until_idle.induct)
  case (1 ops now s)
  obtain r s1 where st: "server_recv_none ops now s = (r, s1)" by (cases "server_recv_none ops now s")
  show ?case
  proof (cases r)
    case (Ok x)
    with "1.prems" st "1.IH" [OF st [symmetric] Ok] show ?thesis
      by (subst (asm) recv_until_idle.simps) (auto split: if_splits)
  next
    case (Err e')
    with "1.prems" st have "s' = s1" by (subst (asm) recv_until_idle.simps) simp
    moreover from st Err have "sv_bad s1"
      by (auto simp: server_recv_none_eq split: prod.splits outcome.splits dest!: recv_loop_Err)
    ultimately show ?thesis by simp
  next
    case Panic
    with "1.prems" st show ?thesis by (subst (asm) recv_until_idle.simps) simp
  qed
qed

lemma server_query_Err: "server_query ops now q s = (Err e, s') \<Longrightarrow> sv_bad s'"
  by (auto simp: server_query_def act_bind_Err_iff dest: server_send_Err recv_until_idle_Err)

lemma act_when_Ok_iff: "act_when b m s = (Ok x, t) \<longleftrightarrow> (if b then m s = (Ok x, t) else t = s)"
  by (auto simp: act_when_def act_return_def)

lemma act_when_Err_iff: "act_when b m s = (Err e, t) \<longleftrightarrow> b \<and> m s = (Err e, t)"
  by (auto simp: act_when_def act_return_def)

lemma checkin_cleanup_Err:
  assumes "checkin_cleanup ops now s = (Err e, s')"
  shows "sv_bad s'"
  using assms
  by (auto simp: checkin_cleanup_def act_bind_Err_iff act_when_Err_iff dest: server_query_Err split: prod.splits)

lemma has_prepared_statement_stream [simp]:
  "sv_stream (snd (has_prepared_statement ops name s)) = sv_stream s"
  by (simp add: has_prepared_statement_def server_stats_do_def Let_def split: option.split prod.split)

lemma cache_updates_stream [simp]:
  "sv_stream (snd (add_prepared_statement_to_cache ops name s)) = sv_stream s"
  "sv_stream (remove_prepared_statement_from_cache ops name s) = sv_stream s"
  by (simp_all add: add_prepared_statement_to_cache_def remove_prepared_statement_from_cache_def server_stats_do_def Let_def
      split: option.split prod.split)

lemma add_prepared_statement_evicts:
  assumes "lru_cache ops entries" "add_prepared_statement_to_cache ops name s = (Some evicted, s')"
  shows "evicted \<noteq> name \<and> (\<exists>c. sv_cache s = Some c \<and> entries c evicted \<noteq> None)"
  using assms(2)
  by (auto simp: add_prepared_statement_to_cache_def Let_def split: option.splits prod.splits if_splits dest!: lru_cache.push [OF assms(1)])

lemma registration_bytes_Ok:
  assumes "lru_cache ops entries" "registration_bytes ops parse send s = (Ok bytes, s')"
  shows "sv_stream s' = sv_stream s \<and> (\<exists>parse_bytes close_bytes. bytes = parse_bytes @ close_bytes
    \<and> (if send then parse_to_bytes parse = Ok parse_bytes else parse_bytes = [])
    \<and> (close_bytes = [] \<or> (\<exists>c name. sv_cache s = Some c \<and> entries c name \<noteq> None \<and> name \<noteq> p_name parse
        \<and> close_to_bytes (close_new name) = Ok close_bytes)))"
proof -
  from assms(2) obtain pb evicted s1 where pb: "if send then parse_to_bytes parse = Ok pb else pb = []"
    and add: "add_prepared_statement_to_cache ops (p_name parse) s = (evicted, s1)"
    and r: "(case evicted of
         None \<Rightarrow> act_return pb
       | Some evicted_name \<Rightarrow>
           act_bind (act_modify (remove_prepared_statement_from_cache ops evicted_name)) (\<lambda>_.
           act_bind (act_lift (close_to_bytes (close_new evicted_name))) (\<lambda>close_bytes.
           act_return (pb @ close_bytes)))) s1 = (Ok bytes, s')"
    by (cases "add_prepared_statement_to_cache ops (p_name parse) s")
       (auto simp: registration_bytes_def act_bind_Ok_iff act_update_def split: if_splits)
  have s1: "sv_stream s1 = sv_stream s" using add cache_updates_stream(1) [of ops "p_name parse" s] by simp
  show ?thesis
  proof (cases evicted)
    case None
    with r have "bytes = pb @ []" "s' = s1" by (auto simp: act_return_def)
    with s1 pb show ?thesis by blast
  next
    case (Some name)
    with r obtain cb where "close_to_bytes (close_new name) = Ok cb" "bytes = pb @ cb" "sv_stream s' = sv_stream s1"
      by (auto simp: act_bind_Ok_iff)
    with s1 pb add_prepared_statement_evicts [OF assms(1) add [unfolded Some]] show ?thesis
      by (intro conjI exI [of _ pb] exI [of _ cb]) (simp_all, blast)
  qed
qed

lemma has_prepared_statement_iff:
  assumes "lru_cache ops entries"
  shows "fst (has_prepared_statement ops name s) \<longleftrightarrow> (\<exists>c. sv_cache s = Some c \<and> entries c name \<noteq> None)"
    and "map_option entries (sv_cache (snd (has_prepared_statement ops name s))) = map_option entries (sv_cache s)"
proof -
  show "fst (has_prepared_statement ops name s) \<longleftrightarrow> (\<exists>c. sv_cache s = Some c \<and> entries c name \<noteq> None)"
    using lru_cache.get [OF assms]
    by (auto simp: has_prepared_statement_def Let_def split: option.splits prod.splits)
  show "map_option entries (sv_cache (snd (has_prepared_statement ops name s))) = map_option entries (sv_cache s)"
    using lru_cache.get [OF assms]
    by (auto simp: has_prepared_statement_def server_stats_do_def Let_def split: option.splits prod.splits)
qed

section \<open>What success leaves alone\<close>

lemma recv_handle_Ok_healthy:
  assumes "recv_handle ops code m s = (Ok stop, t)"
  shows "sv_bad (fst t) = sv_bad (fst s) \<and> sv_address (fst t) = sv_address (fst s)"
proof (cases "code = CHR ''Z''")
  case True
  with assms recv_ready_for_query_Ok [of m s stop t] show ?thesis by (simp add: recv_handle_def)
next
  case False
  then have "keeps (\<lambda>x. sv_bad (fst x) = sv_bad (fst s) \<and> sv_address (fst x) = sv_address (fst s)) (recv_handle ops code m)"
    unfolding recv_handle_defs
    by (intro keeps_intro) (auto simp: leave_copy_mode_def forget_registering_def note_command_def split: list.split)
  from keepsD [OF this _ assms] show ?thesis by simp
qed

lemma recv_loop_Ok_healthy:
  "recv_loop ops s = (Ok (), t) \<Longrightarrow> sv_bad (fst t) = sv_bad (fst s) \<and> sv_address (fst t) = sv_address (fst s)"
proof (induction ops s rule: recv_loop.induct)
  case (1 ops s)
  from "1.prems" obtain stop s1 where st: "recv_step ops s = (Ok stop, s1)"
    and nx: "if stop then t = s1 else recv_loop ops s1 = (Ok (), t)"
    by (subst (asm) recv_loop.simps) (auto split: prod.splits outcome.splits if_splits)
  obtain sv p where s: "s = (sv, p)" by force
  from recv_step_Ok_frame [OF st [unfolded s]] obtain tag body rest
    where f: "rd_input (sv_stream sv) = frame tag body @ rest" "length body + 4 < 2147483648" by blast
  have "sv_bad (fst s1) = sv_bad (fst s) \<and> sv_address (fst s1) = sv_address (fst s)"
    using recv_handle_Ok_healthy [of ops tag body "(took tag body rest sv, p)" stop s1] st recv_step_frame [OF f, of ops p]
    by (simp add: s took_def)
  with nx "1.IH" [OF st [symmetric] refl] show ?case by (auto split: if_splits)
qed

lemma recv_until_idle_Ok_healthy:
  "recv_until_idle ops now s = (Ok (), t) \<Longrightarrow> sv_bad t = sv_bad s \<and> sv_address t = sv_address s"
proof (induction ops now s rule: recv_until_idle.induct)
  case (1 ops now s)
  from "1.prems" obtain x s1 where st: "server_recv_none ops now s = (Ok x, s1)"
    and nx: "if sv_data_available s1 then recv_until_idle ops now s1 = (Ok (), t) else t = s1"
    by (subst (asm) recv_until_idle.simps) (auto split: prod.splits outcome.splits if_splits)
  have "sv_bad s1 = sv_bad s \<and> sv_address s1 = sv_address s"
    using st recv_loop_Ok_healthy [of ops "(s, None)"]
    by (auto simp: server_recv_none_eq server_stats_do_def split: prod.splits outcome.splits)
  with nx "1.IH" [OF st [symmetric] refl] show ?case by (auto split: if_splits)
qed

lemma server_query_Ok_healthy:
  assumes "server_query ops now q s = (Ok (), t)"
  shows "sv_bad t = sv_bad s \<and> sv_address t = sv_address s"
proof -
  from assms obtain s1 where "server_send now (simple_query q) s = (Ok (), s1)" "recv_until_idle ops now s1 = (Ok (), t)"
    by (auto simp: server_query_def act_bind_Ok_iff)
  moreover from this(1) have "sv_bad s1 = sv_bad s \<and> sv_address s1 = sv_address s"
    by (auto simp: server_send_def act_bind_Ok_iff on_stream_def act_zoom_iff mirror_send_def server_stats_do_def)
  ultimately show ?thesis using recv_until_idle_Ok_healthy by metis
qed

text \<open>A connection whose socket takes the query and whose server answers with a complete reply.\<close>

definition responsive :: "'c server \<Rightarrow> bool" where
  "responsive s \<longleftrightarrow> wr_budget (sv_stream s) = None \<and> fl_error (sv_stream s) = None
     \<and> (\<exists>ms c rest. rd_input (sv_stream s) = reply_bytes ms c @ rest \<and> list_all plain_message ms \<and> status_byte c)"

lemma server_query_reply:
  assumes "wr_budget (sv_stream s) = None" "fl_error (sv_stream s) = None"
    and "rd_input (sv_stream s) = reply_bytes ms c @ rest" "list_all plain_message ms" "status_byte c"
  shows "\<exists>s'. server_query ops now q s = (Ok (), s') \<and> wr_output (sv_stream s') = wr_output (sv_stream s) @ simple_query q
    \<and> rd_input (sv_stream s') = rest \<and> \<not> sv_data_available s' \<and> (sv_in_transaction s' \<longleftrightarrow> c \<noteq> CHR ''I'')"
proof -
  from server_send_total [OF assms(1,2)] obtain s1 where s1: "server_send now (simple_query q) s = (Ok (), s1)"
    "rd_input (sv_stream s1) = rd_input (sv_stream s)" "wr_output (sv_stream s1) = wr_output (sv_stream s) @ simple_query q"
    by blast
  from recv_until_idle_reply [of s1 ms c rest ops now] assms s1(2) obtain s' where "recv_until_idle ops now s1 = (Ok (), s')"
    "rd_input (sv_stream s') = rest" "\<not> sv_data_available s'" "sv_in_transaction s' \<longleftrightarrow> c \<noteq> CHR ''I''" by auto
  with s1 recv_until_idle_output [of ops now s1 "Ok ()" s'] show ?thesis by (simp add: server_query_def)
qed

lemma responsive_query:
  assumes "responsive s"
  obtains t where "server_query ops now q s = (Ok (), t)"
  using assms server_query_reply unfolding responsive_def by blast

lemma responsive_stats [simp]: "responsive (server_stats_do f s) = responsive s"
  by (simp add: responsive_def server_stats_do_def)

section \<open>Properties\<close>

text \<open>A connection that will receive \<open>bs\<close>, with a cache for two prepared statements.\<close>

definition example_server :: "bytes \<Rightarrow> (string, unit) lru_list server" where
  "example_server bs =
     \<lparr> sv_address = address_default, sv_stream = fresh_stream bs, sv_buffer = [], sv_parameters = [],
       sv_process_id = 1, sv_secret_key = 2, sv_in_transaction = True, sv_data_available = False,
       sv_in_copy_mode = False, sv_bad = False, sv_cleanup_state = cleanup_set_true cleanup_state_new,
       sv_stats = server_stats_default, sv_application_name = ''pgcat'', sv_last_activity = 0,
       sv_mirror_manager = None, sv_addr_set = None, sv_cleanup_connections = True,
       sv_cache = Some (lru_new lru_list_ops 2), sv_registering = [] \<rparr>"

text \<open>
  C15: \<open>recv\<close> returns whole messages.  When it succeeds, it returns what was buffered followed by a sequence
  of complete messages, taken in order from the front of the socket's input and all of them consumed; only
  the last one can be ReadyForQuery or start a copy, and the buffer is empty again.  After
  ReadyForQuery no more data is announced and the transaction flag follows the status byte.  When it
  fails, the connection is marked as bad.
\<close>

theorem server_recv_whole_messages:
  assumes "server_recv ops now (s, p) = (r, (s', p'))"
  shows "case r of
      Ok bytes \<Rightarrow> \<exists>ms m rest. list_all framed (ms @ [m]) \<and> rd_input (sv_stream s) = concat (ms @ [m]) @ rest
        \<and> sv_stream s' = (sv_stream s)\<lparr>rd_input := rest\<rparr> \<and> bytes = sv_buffer s @ concat (ms @ [m]) \<and> sv_buffer s' = []
        \<and> (\<forall>x \<in> set ms. hd x \<notin> {CHR ''Z'', CHR ''G'', CHR ''H''})
        \<and> hd m \<in> {CHR ''Z'', CHR ''G'', CHR ''H'', CHR ''D'', CHR ''d''}
        \<and> (hd m = CHR ''Z'' \<longrightarrow> \<not> sv_data_available s' \<and> (sv_in_transaction s' \<longleftrightarrow> m ! 5 \<noteq> CHR ''I''))
    | Err e \<Rightarrow> sv_bad s'
    | Panic \<Rightarrow> True"
proof (cases r)
  case (Ok bytes)
  with server_recv_Ok [of ops now s p bytes s' p'] assms show ?thesis
    unfolding reads_def ends_reply_def reply_tags_def stop_tags_def by fastforce
next
  case (Err e)
  with assms have "recv_loop ops (s, p) = (Err e, (s', p'))"
    by (auto simp: server_recv_def act_bind_Err_iff)
  from recv_loop_Err [OF this] Err show ?thesis by simp
qed simp

theorem server_recv_whole_messages_witness:
  "sv_bad (fst (snd (server_recv lru_list_ops 7 (example_server ''Z'', None))))"
proof -
  have "read_message (fresh_stream ''Z'') = (Err (socket_error (''Error reading message len from socket - Code: '' @ show_nat 90 @ '', Error: '') ''UnexpectedEof''), fresh_stream [])"
    by (simp add: read_message_def act_bind_def act_io_def stream_read_u8_def stream_read_i32_def stream_read_exact_def fresh_stream_def)
  then have "\<exists>e. fst (server_recv lru_list_ops 7 (example_server ''Z'', None)) = Err e"
    by (simp add: server_recv_def act_bind_def recv_loop.simps recv_step_def on_server_def act_zoom_def act_on_error_def on_stream_def
        example_server_def)
  then obtain e s' p' where "server_recv lru_list_ops 7 (example_server ''Z'', None) = (Err e, (s', p'))"
    by (cases "server_recv lru_list_ops 7 (example_server ''Z'', None)") auto
  then show ?thesis using server_recv_whole_messages [of lru_list_ops 7 "example_server ''Z''" None "Err e" s' p'] by simp
qed

text \<open>
  C16: a query of the pooler returns.  If the socket takes the query and the server answers with a complete
  reply, of any number of messages and any size, then \<open>query\<close> ends successfully: it has sent exactly the
  query, has consumed exactly the reply, and leaves the transaction flag as ReadyForQuery says.
\<close>

theorem server_query_completes:
  assumes "wr_budget (sv_stream s) = None" "fl_error (sv_stream s) = None"
    and "rd_input (sv_stream s) = reply_bytes ms c @ rest" "list_all plain_message ms" "status_byte c"
  shows "\<exists>s'. server_query ops now q s = (Ok (), s') \<and> wr_output (sv_stream s') = wr_output (sv_stream s) @ simple_query q
    \<and> rd_input (sv_stream s') = rest \<and> \<not> sv_data_available s' \<and> (sv_in_transaction s' \<longleftrightarrow> c \<noteq> CHR ''I'')"
  by (rule server_query_reply [OF assms])

theorem server_query_completes_witness:
  "\<exists>s'. server_query lru_list_ops 7 ''ROLLBACK'' (example_server (reply_bytes [(CHR ''C'', ''ROLLBACK'')] CHR ''I'')) = (Ok (), s')
     \<and> wr_output (sv_stream s') = simple_query ''ROLLBACK'' \<and> rd_input (sv_stream s') = [] \<and> \<not> sv_in_transaction s'"
  using server_query_completes [of "example_server (reply_bytes [(CHR ''C'', ''ROLLBACK'')] CHR ''I'')" "[(CHR ''C'', ''ROLLBACK'')]"
      "CHR ''I''" "[]" lru_list_ops 7 "''ROLLBACK''"]
  by (simp add: example_server_def plain_message_def status_byte_def del: reply_bytes_simps) blast

lemma checkin_cleanup_Ok:
  assumes "checkin_cleanup ops now s = (Ok (), s')"
  shows "(sv_cleanup_connections s \<longrightarrow> \<not> needs_cleanup (sv_cleanup_state s'))
    \<and> (\<exists>c. cleanup_le (sv_cleanup_state s) c \<and> (sv_in_transaction s \<or> c = sv_cleanup_state s)
         \<and> wr_output (sv_stream s') = wr_output (sv_stream s)
             @ (if sv_in_transaction s then simple_query ''ROLLBACK'' else [])
             @ (if sv_cleanup_connections s \<and> needs_cleanup c then simple_query (reset_string c) else []))"
proof -
  from assms obtain s1 where a: "act_when (sv_in_transaction s) (server_query ops now ''ROLLBACK'') s = (Ok (), s1)"
    and b: "act_when (needs_cleanup (sv_cleanup_state s1) \<and> sv_cleanup_connections s1)
       (act_bind (act_modify (clear_statements ops)) (\<lambda>_.
        act_bind (server_query ops now (reset_string (sv_cleanup_state s1))) (\<lambda>_. act_modify reset_cleanup))) s1 = (Ok (), s')"
    by (auto simp: checkin_cleanup_def act_bind_Ok_iff server_in_transaction_def)
  have s1: "wr_output (sv_stream s1) = wr_output (sv_stream s) @ (if sv_in_transaction s then simple_query ''ROLLBACK'' else [])"
    "sv_cleanup_connections s1 = sv_cleanup_connections s" "cleanup_le (sv_cleanup_state s) (sv_cleanup_state s1)"
    "sv_in_transaction s \<or> s1 = s"
    using a server_query_Ok [of ops now "''ROLLBACK''" s s1] by (auto simp: act_when_Ok_iff cleanup_le_def split: if_splits)
  show ?thesis
  proof (cases "needs_cleanup (sv_cleanup_state s1) \<and> sv_cleanup_connections s1")
    case True
    with b obtain s2 where q: "server_query ops now (reset_string (sv_cleanup_state s1)) (clear_statements ops s1) = (Ok (), s2)"
      and s': "s' = reset_cleanup s2" by (auto simp: act_when_Ok_iff act_bind_Ok_iff)
    from server_query_Ok [OF q] s1
    have "wr_output (sv_stream s') = wr_output (sv_stream s) @ (if sv_in_transaction s then simple_query ''ROLLBACK'' else [])
        @ simple_query (reset_string (sv_cleanup_state s1))"
      by (simp add: s' reset_cleanup_def clear_statements_def)
    moreover have "\<not> needs_cleanup (sv_cleanup_state s')" by (simp add: s' reset_cleanup_def needs_cleanup_def cleanup_reset_def)
    ultimately show ?thesis using True s1 by (intro conjI exI [of _ "sv_cleanup_state s1"]) auto
  next
    case False
    with b have "s' = s1" by (auto simp: act_when_def)
    with False s1 show ?thesis by (intro conjI exI [of _ "sv_cleanup_state s1"]) auto
  qed
qed

text \<open>
  Clean-up before a connection returns to the pool.  If \<open>checkin_cleanup\<close> succeeds, it has rolled back
  the transaction that was left open, if any, and has then sent the reset query for what was altered
  in the session exactly if something was altered and resetting is enabled, which leaves no clean-up
  to be done; it sends nothing else.  What was altered is what the connection had noted before,
  to which the reply to the rollback may add.
  If it fails, the connection is marked as bad and will not be reused.
\<close>

theorem checkin_cleanup_cleans:
  assumes "checkin_cleanup ops now s = (r, s')"
  shows "case r of
      Ok _ \<Rightarrow> (sv_cleanup_connections s \<longrightarrow> \<not> needs_cleanup (sv_cleanup_state s'))
        \<and> (\<exists>c. cleanup_le (sv_cleanup_state s) c \<and> (sv_in_transaction s \<or> c = sv_cleanup_state s)
             \<and> wr_output (sv_stream s') = wr_output (sv_stream s)
                 @ (if sv_in_transaction s then simple_query ''ROLLBACK'' else [])
                 @ (if sv_cleanup_connections s \<and> needs_cleanup c then simple_query (reset_string c) else []))
    | Err e \<Rightarrow> sv_bad s'
    | Panic \<Rightarrow> True"
  using assms checkin_cleanup_Ok [of ops now s s'] checkin_cleanup_Err by (cases r) auto

theorem checkin_cleanup_cleans_witness:
  "sv_bad (snd (checkin_cleanup lru_list_ops 7 (example_server [])))"
proof -
  have "read_message (s :: stream) = (Err (socket_error ''Error reading message code from socket - Error '' (rd_error s)), s)" if "rd_input s = []" for s
    using that by (simp add: read_message_def act_bind_def act_io_def stream_read_u8_def)
  then have "\<exists>e. fst (checkin_cleanup lru_list_ops 7 (example_server [])) = Err e"
    by (simp add: checkin_cleanup_def server_in_transaction_def act_bind_def act_get_def act_when_def server_query_def server_send_def
        act_modify_def mirror_send_def server_stats_do_def write_all_flush_def act_io_def stream_write_all_def stream_flush_def
        recv_until_idle.simps server_recv_none_eq recv_loop.simps recv_step_def on_server_def act_zoom_def act_on_error_def on_stream_def
        example_server_def)
  then obtain e s' where "checkin_cleanup lru_list_ops 7 (example_server []) = (Err e, s')"
    by (cases "checkin_cleanup lru_list_ops 7 (example_server [])") auto
  then show ?thesis using checkin_cleanup_cleans [of lru_list_ops 7 "example_server []" "Err e" s'] by simp
qed

text \<open>
  C17: registering a prepared statement.  If \<open>register_prepared_statement\<close> succeeds, the statement is in the
  cache of the connection.  Nothing is sent for a statement the connection already has; otherwise
  what is sent, if anything, is the Parse message when asked for, then at most one Close message for
  another statement that was in the cache before and had to make room, then Sync.
\<close>

theorem register_prepared_statement_correct:
  assumes lru: "lru_cache ops entries" and run: "register_prepared_statement ops now parse send s = (Ok (), s')"
  shows "(\<exists>c'. sv_cache s' = Some c' \<and> entries c' (p_name parse) \<noteq> None)
    \<and> (if \<exists>c. sv_cache s = Some c \<and> entries c (p_name parse) \<noteq> None then wr_output (sv_stream s') = wr_output (sv_stream s)
       else \<exists>parse_bytes close_bytes. (if send then parse_to_bytes parse = Ok parse_bytes else parse_bytes = [])
         \<and> (close_bytes = [] \<or> (\<exists>c name. sv_cache s = Some c \<and> entries c name \<noteq> None \<and> name \<noteq> p_name parse
             \<and> close_to_bytes (close_new name) = Ok close_bytes))
         \<and> wr_output (sv_stream s') = wr_output (sv_stream s)
             @ (if parse_bytes @ close_bytes = [] then [] else parse_bytes @ close_bytes @ sync))"
proof -
  let ?has = "has_prepared_statement ops (p_name parse)"
  obtain known s1 where h: "?has s = (known, s1)" by force
  have known: "known \<longleftrightarrow> (\<exists>c. sv_cache s = Some c \<and> entries c (p_name parse) \<noteq> None)" and s1: "sv_stream s1 = sv_stream s"
    using has_prepared_statement_iff(1) [OF lru, of "p_name parse" s] has_prepared_statement_stream [of ops "p_name parse" s] h by auto
  from run h obtain s2 where w: "act_when (\<not> known)
       (act_bind (act_modify (\<lambda>s. s\<lparr>sv_registering := sv_registering s @ [p_name parse]\<rparr>)) (\<lambda>_.
        act_bind (registration_bytes ops parse send) (\<lambda>bytes.
        act_when (bytes \<noteq> []) (act_bind (server_send now (bytes @ sync)) (\<lambda>_. recv_until_idle ops now))))) s1 = (Ok (), s2)"
    and fin: "fst (?has s2)" "s' = snd (?has s2)"
    by (auto simp: register_prepared_statement_def act_bind_Ok_iff split: if_splits)
  have cached: "\<exists>c'. sv_cache s' = Some c' \<and> entries c' (p_name parse) \<noteq> None"
    using has_prepared_statement_iff [OF lru, of "p_name parse" s2] fin by auto
  have out: "sv_stream s' = sv_stream s2" by (simp add: fin)
  show ?thesis
  proof (cases known)
    case True
    with w have "s2 = s1" by (simp only: act_when_Ok_iff simp_thms if_False)
    with True out s1 cached known show ?thesis by simp
  next
    case False
    with w obtain bytes s3 where rb: "registration_bytes ops parse send (s1\<lparr>sv_registering := sv_registering s1 @ [p_name parse]\<rparr>) = (Ok bytes, s3)"
      and snd: "act_when (bytes \<noteq> []) (act_bind (server_send now (bytes @ sync)) (\<lambda>_. recv_until_idle ops now)) s3 = (Ok (), s2)"
      by (auto simp: act_when_Ok_iff act_bind_Ok_iff)
    have "wr_output (sv_stream s2) = wr_output (sv_stream s3) @ (if bytes = [] then [] else bytes @ sync)"
      using snd server_send_Ok [of now "bytes @ sync" s3] recv_until_idle_output [of ops now _ "Ok ()" s2]
      by (auto simp: act_when_Ok_iff act_bind_Ok_iff split: if_splits)
    moreover from registration_bytes_Ok [OF lru rb] obtain pb cb where 3: "sv_stream s3 = sv_stream s" "bytes = pb @ cb"
      "if send then parse_to_bytes parse = Ok pb else pb = []"
      "cb = [] \<or> (\<exists>c name. sv_cache s1 = Some c \<and> entries c name \<noteq> None \<and> name \<noteq> p_name parse \<and> close_to_bytes (close_new name) = Ok cb)"
      using s1 by auto
    moreover have "\<exists>c. sv_cache s = Some c \<and> entries c = entries c1" if "sv_cache s1 = Some c1" for c1
      using has_prepared_statement_iff(2) [OF lru, of "p_name parse" s] h that by (cases "sv_cache s") auto
    with 3(4) have "cb = [] \<or> (\<exists>c name. sv_cache s = Some c \<and> entries c name \<noteq> None \<and> name \<noteq> p_name parse
             \<and> close_to_bytes (close_new name) = Ok cb)"
      by metis
    ultimately have "\<exists>pb cb. (if send then parse_to_bytes parse = Ok pb else pb = [])
         \<and> (cb = [] \<or> (\<exists>c name. sv_cache s = Some c \<and> entries c name \<noteq> None \<and> name \<noteq> p_name parse
             \<and> close_to_bytes (close_new name) = Ok cb))
         \<and> wr_output (sv_stream s') = wr_output (sv_stream s) @ (if pb @ cb = [] then [] else pb @ cb @ sync)"
      using out by (intro exI [of _ pb] exI [of _ cb]) simp
    with cached known False show ?thesis by (subst if_not_P) auto
  qed
qed

theorem register_prepared_statement_correct_witness:
  "\<exists>c'. sv_cache (snd (register_prepared_statement lru_list_ops 7 sample_parse False (example_server []))) = Some c'
     \<and> list_entries c' (p_name sample_parse) \<noteq> None"
proof -
  have "fst (register_prepared_statement lru_list_ops 7 sample_parse False (example_server [])) = Ok ()"
    by (simp add: register_prepared_statement_def registration_bytes_def act_bind_def act_update_def act_when_def act_modify_def act_lift_def
        act_return_def has_prepared_statement_def add_prepared_statement_to_cache_def example_server_def lru_list_ops_def list_entries_def
        list_push_def list_promote_def server_stats_do_def)
  then obtain s' where "register_prepared_statement lru_list_ops 7 sample_parse False (example_server []) = (Ok (), s')"
    by (cases "register_prepared_statement lru_list_ops 7 sample_parse False (example_server [])") auto
  then show ?thesis
    using register_prepared_statement_correct [OF lru_list.lru_cache_axioms, of 7 sample_parse False "example_server []" s'] by simp
qed

end
