(* ===== verification/Scram.thy ===== *)
theory Scram
  imports Messages Sharding "HOL-Library.Sublist"
begin

text \<open>
  \<open>src/src/scram.rs\<close>: the client side of SCRAM-SHA-256 authentication.  The keyed hash, the hash,
  base64 and the preparation of the password are functions of other packages and are arguments,
  gathered in one record; the nonce is random and is an argument of \<open>scram_from_nonce\<close>.
\<close>

section \<open>Model\<close>

record crypto =
  cy_hmac :: "bytes \<Rightarrow> bytes \<Rightarrow> bytes"
  cy_sha256 :: "bytes \<Rightarrow> bytes"
  cy_encode :: "bytes \<Rightarrow> string"
  cy_decode :: "string \<Rightarrow> bytes option"
  cy_saslprep :: "string \<Rightarrow> string option"

definition xor_byte :: "byte \<Rightarrow> byte \<Rightarrow> byte" where
  "xor_byte a b = char_of (unat (of_nat (of_char a) XOR of_nat (of_char b) :: 8 word))"

text \<open>\<open>for (x, y) in xs.iter_mut().zip(ys)\<close> with \<open>*x ^= y\<close>.\<close>

definition xor_bytes :: "bytes \<Rightarrow> bytes \<Rightarrow> bytes" where
  "xor_bytes xs ys = map2 xor_byte xs ys @ drop (length ys) xs"

definition normalize :: "crypto \<Rightarrow> bytes \<Rightarrow> bytes" where
  "normalize cr pass =
     (if \<not> utf8 pass then pass
      else (case cy_saslprep cr pass of Some pass \<Rightarrow> pass | None \<Rightarrow> pass))"

record scram =
  sm_password :: string
  sm_salted_password :: bytes
  sm_auth_message :: string
  sm_message :: bytes
  sm_nonce :: string

definition scram_from_nonce :: "string \<Rightarrow> string \<Rightarrow> scram" where
  "scram_from_nonce password nonce =
     \<lparr> sm_password = password, sm_salted_password = replicate 32 CHR 0x00, sm_auth_message = [],
       sm_message = ''n,,n=,r='' @ nonce, sm_nonce = nonce \<rparr>"

text \<open>A random byte of the nonce: from 0x21 to 0x7d, with 0x7e for the comma.\<close>

definition nonce_char :: "nat \<Rightarrow> char" where
  "nonce_char v = (if v = 44 then CHR 0x7E else char_of v)"

definition scram_message :: "scram \<Rightarrow> bytes" where
  "scram_message self = sm_message self"

fun hi_loop :: "crypto \<Rightarrow> bytes \<Rightarrow> nat \<Rightarrow> bytes \<Rightarrow> bytes \<Rightarrow> bytes" where
  "hi_loop cr str 0 prev hi = hi"
| "hi_loop cr str (Suc n) prev hi =
     (let prev = cy_hmac cr str prev in hi_loop cr str n prev (xor_bytes hi prev))"

definition scram_hi :: "crypto \<Rightarrow> bytes \<Rightarrow> bytes \<Rightarrow> u32 \<Rightarrow> bytes" where
  "scram_hi cr str salt i =
     (let prev = cy_hmac cr str (salt @ [CHR 0x00, CHR 0x00, CHR 0x00, CHR 0x01])
      in hi_loop cr str (unat i - 1) prev prev)"

record scram_challenge =
  ch_nonce :: string
  ch_salt :: string
  ch_iterations :: u32

definition scram_error :: error where
  "scram_error = ProtocolSyncError ''SCRAM''"

definition scram_challenge_parse :: "bytes \<Rightarrow> scram_challenge result" where
  "scram_challenge_parse message =
     (case split_on (CHR '','') (from_utf8_lossy message) of
        [p0, p1, p2] \<Rightarrow>
          (case parse_unsigned 4294967295 (replace_all ''i='' [] p2) of
             Some iterations \<Rightarrow>
               Ok \<lparr> ch_nonce = replace_all ''r='' [] p0, ch_salt = replace_all ''s='' [] p1,
                    ch_iterations = of_nat iterations \<rparr>
           | None \<Rightarrow> Err scram_error)
      | _ \<Rightarrow> Err scram_error)"

definition scram_final_parse :: "bytes \<Rightarrow> string result" where
  "scram_final_parse message =
     (if \<not> prefix ''v='' message \<or> length message < 4 then Err scram_error
      else Ok (from_utf8_lossy (drop 2 message)))"

text \<open>An error leaves the state as it was.\<close>

definition scram_update :: "crypto \<Rightarrow> bytes \<Rightarrow> scram \<Rightarrow> (scram \<times> bytes) result" where
  "scram_update cr message self =
     rbind (scram_challenge_parse message) (\<lambda>server_message.
       if \<not> prefix (sm_nonce self) (ch_nonce server_message) then Err scram_error
       else
         (case cy_decode cr (ch_salt server_message) of
            None \<Rightarrow> Err scram_error
          | Some salt \<Rightarrow>
              let salted_password = scram_hi cr (normalize cr (sm_password self)) salt (ch_iterations server_message);
                  client_key = cy_hmac cr salted_password ''Client Key'';
                  stored_key = cy_sha256 cr client_key;
                  cbind_input = cy_encode cr ''n,,'';
                  reply = ''c='' @ cbind_input @ '',r='' @ ch_nonce server_message;
                  auth_message = ''n=,r='' @ sm_nonce self @ '','' @ from_utf8_lossy message @ '',''
                                 @ from_utf8_lossy reply;
                  client_signature = cy_hmac cr stored_key auth_message;
                  client_proof = xor_bytes client_key client_signature;
                  reply = reply @ '',p='' @ cy_encode cr client_proof
              in Ok (self\<lparr>sm_salted_password := salted_password, sm_auth_message := auth_message,
                         sm_message := reply\<rparr>, reply)))"

definition scram_finish :: "crypto \<Rightarrow> bytes \<Rightarrow> scram \<Rightarrow> unit result" where
  "scram_finish cr message self =
     rbind (scram_final_parse message) (\<lambda>val.
       (case cy_decode cr val of
          None \<Rightarrow> Err scram_error
        | Some verifier \<Rightarrow>
            let server_key = cy_hmac cr (sm_salted_password self) ''Server Key''
            in if cy_hmac cr server_key (sm_auth_message self) = verifier then Ok () else Err ServerError))"

section \<open>Lemmas\<close>

lemma xor_byte_cancel: "xor_byte (xor_byte a b) b = a"
proof -
  have "(of_nat (unat x) :: 8 word) = x" for x :: "8 word" by simp
  moreover have "unat x mod 256 = unat x" for x :: "8 word" using unsigned_less [of x, where 'a = nat] by simp
  moreover have "unat (of_nat (of_char a) :: 8 word) = of_char a" by (simp add: unat_of_nat)
  ultimately show ?thesis by (simp add: xor_byte_def xor.assoc)
qed

lemma xor_bytes_cancel: "length xs = length ys \<Longrightarrow> xor_bytes (xor_bytes xs ys) ys = xs"
  unfolding xor_bytes_def by (induction xs ys rule: list_induct2) (auto simp: xor_byte_cancel)

lemma length_xor_bytes [simp]: "length (xor_bytes xs ys) = length xs"
  by (simp add: xor_bytes_def)

lemma replace_all_absent: "p \<notin> set s \<Longrightarrow> replace_all (p # ps) rep s = s"
  by (induction s) (auto split: option.splits simp: strip_prefix_Some)

lemma replace_all_no_sublist: "\<not> sublist pat s \<Longrightarrow> replace_all pat rep s = s"
proof (induction pat rep s rule: replace_all.induct)
  case (2 pat rep x xs)
  then have "strip_prefix pat (x # xs) = None"
    by (metis option.exhaust sublist_appendI sublist_def append_Nil strip_prefix_Some)
  moreover have "\<not> sublist pat xs" using "2.prems" by (simp add: sublist_Cons_right)
  ultimately show ?case using 2 by simp
qed simp

lemma replace_all_skip: "p \<notin> set xs \<Longrightarrow> replace_all (p # ps) rep (xs @ zs) = xs @ replace_all (p # ps) rep zs"
  by (induction xs) (auto split: option.split)

lemma replace_label_inside:
  "p \<notin> set xs \<Longrightarrow> y \<noteq> p \<Longrightarrow> replace_all [p, CHR ''=''] [] ([p, CHR ''=''] @ xs @ [p, CHR ''=''] @ y # zs) = xs @ y # replace_all [p, CHR ''=''] [] zs"
  by (simp add: replace_all_skip)

section \<open>The protocol of RFC 5802\<close>

text \<open>The iterates \<open>U1, U2, ...\<close>, their sum \<open>Hi\<close>, and the two keys a server keeps.\<close>

fun rfc_u :: "crypto \<Rightarrow> bytes \<Rightarrow> bytes \<Rightarrow> nat \<Rightarrow> bytes" where
  "rfc_u cr str salt 0 = cy_hmac cr str (salt @ [CHR 0x00, CHR 0x00, CHR 0x00, CHR 0x01])"
| "rfc_u cr str salt (Suc n) = cy_hmac cr str (rfc_u cr str salt n)"

fun rfc_hi :: "crypto \<Rightarrow> bytes \<Rightarrow> bytes \<Rightarrow> nat \<Rightarrow> bytes" where
  "rfc_hi cr str salt 0 = rfc_u cr str salt 0"
| "rfc_hi cr str salt (Suc n) = xor_bytes (rfc_hi cr str salt n) (rfc_u cr str salt (Suc n))"

definition rfc_stored_key :: "crypto \<Rightarrow> bytes \<Rightarrow> bytes" where
  "rfc_stored_key cr salted = cy_sha256 cr (cy_hmac cr salted ''Client Key'')"

definition rfc_server_key :: "crypto \<Rightarrow> bytes \<Rightarrow> bytes" where
  "rfc_server_key cr salted = cy_hmac cr salted ''Server Key''"

text \<open>How a server checks the proof of a client against the stored key.\<close>

definition rfc_accepts :: "crypto \<Rightarrow> bytes \<Rightarrow> string \<Rightarrow> bytes \<Rightarrow> bool" where
  "rfc_accepts cr stored_key auth_message client_proof \<longleftrightarrow>
     cy_sha256 cr (xor_bytes client_proof (cy_hmac cr stored_key auth_message)) = stored_key"

text \<open>What the exchange relies on: the length of the keyed hash, and that base64 can be read back.\<close>

definition crypto_ok :: "crypto \<Rightarrow> bool" where
  "crypto_ok cr \<longleftrightarrow> (\<forall>k m. length (cy_hmac cr k m) = 32)
     \<and> (\<forall>b. cy_decode cr (cy_encode cr b) = Some b \<and> ascii (cy_encode cr b) \<and> CHR '','' \<notin> set (cy_encode cr b))
     \<and> (\<forall>b. b \<noteq> [] \<longrightarrow> 2 \<le> length (cy_encode cr b))"

lemma hi_loop_eq:
  "hi_loop cr str n (rfc_u cr str salt k) (rfc_hi cr str salt k) = rfc_hi cr str salt (k + n)"
proof (induction n arbitrary: k)
  case (Suc n)
  from Suc.IH [of "Suc k"] show ?case by (simp add: Let_def)
qed simp

lemma scram_hi_eq: "scram_hi cr str salt i = rfc_hi cr str salt (unat i - 1)"
  using hi_loop_eq [of cr str "unat i - 1" salt 0] by (simp add: scram_hi_def Let_def)

text \<open>The first message of a server.\<close>

definition server_first :: "crypto \<Rightarrow> string \<Rightarrow> bytes \<Rightarrow> u32 \<Rightarrow> bytes" where
  "server_first cr nonce salt i = ''r='' @ nonce @ '',s='' @ cy_encode cr salt @ '',i='' @ show_nat (unat i)"

lemma split_on_three:
  "c \<notin> set xs \<Longrightarrow> c \<notin> set ys \<Longrightarrow> c \<notin> set zs \<Longrightarrow> split_on c (xs @ c # ys @ c # zs) = [xs, ys, zs]"
  by (simp add: split_on_append_sep split_on_none)

lemma server_first_split:
  assumes "crypto_ok cr" "ascii nonce" "CHR '','' \<notin> set nonce"
  shows "split_on (CHR '','') (from_utf8_lossy (server_first cr nonce salt i))
    = [''r='' @ nonce, ''s='' @ cy_encode cr salt, ''i='' @ show_nat (unat i)]"
proof -
  have "ascii (server_first cr nonce salt i)"
    using assms by (simp add: server_first_def crypto_ok_def)
  then have "from_utf8_lossy (server_first cr nonce salt i)
      = (''r='' @ nonce) @ CHR '','' # (''s='' @ cy_encode cr salt) @ CHR '','' # (''i='' @ show_nat (unat i))"
    by (simp add: from_utf8_lossy_ascii server_first_def)
  moreover have "CHR '','' \<notin> set (''i='' @ show_nat (unat i))"
    using show_nat_props [of "unat i"] by (auto simp: list_all_iff is_digit_def)
  moreover have "CHR '','' \<notin> set (''s='' @ cy_encode cr salt)" "CHR '','' \<notin> set (''r='' @ nonce)"
    using assms by (auto simp: crypto_ok_def)
  ultimately show ?thesis by (simp only: split_on_three not_False_eq_True)
qed

lemma replace_label: "\<not> sublist [p, CHR ''=''] s \<Longrightarrow> replace_all [p, CHR ''=''] [] ([p, CHR ''=''] @ s) = s"
  by (simp add: replace_all_no_sublist)

lemma server_first_parse:
  assumes "crypto_ok cr" "ascii nonce" "CHR '','' \<notin> set nonce"
    and "\<not> sublist ''r='' nonce" "\<not> sublist ''s='' (cy_encode cr salt)"
  shows "scram_challenge_parse (server_first cr nonce salt i)
    = Ok \<lparr> ch_nonce = nonce, ch_salt = cy_encode cr salt, ch_iterations = i \<rparr>"
proof -
  have "CHR ''i'' \<notin> set (show_nat (unat i))"
    using show_nat_props [of "unat i"] by (auto simp: list_all_iff is_digit_def)
  then have "replace_all ''i='' [] (''i='' @ show_nat (unat i)) = show_nat (unat i)"
    by (simp add: replace_all_absent)
  moreover have "unat i \<le> 4294967295"
    using unsigned_less [of i, where 'a = nat] by simp
  ultimately show ?thesis
    using replace_label [OF assms(4)] replace_label [OF assms(5)]
    unfolding scram_challenge_parse_def server_first_split [OF assms(1-3)]
    by (simp add: parse_unsigned_show_nat)
qed

section \<open>Properties\<close>

text \<open>
  C19: the client side of SCRAM-SHA-256 follows RFC 5802, unless a value of the server's first message contains
  a label.  On the first message of a server that extends the nonce of the client, if the nonce does
  not contain \<open>r=\<close> and the encoded salt does not contain \<open>s=\<close>, the reply repeats the nonce and
  carries a proof that the server accepts for the key it keeps of the same password, salt and number of iterations; and a final message with a value
  is accepted exactly when that is the signature made with the server's key of that password.  The
  labels are removed from the values as well, so that a nonce with \<open>r=\<close> in it is refused
  (\<open>scram_nonce_label\<close>).
\<close>

theorem scram_exchange:
  fixes password :: string and i :: u32
  assumes cr: "crypto_ok cr" and nonce: "ascii (nonce @ ext)" "CHR '','' \<notin> set (nonce @ ext)"
    and labels: "\<not> sublist ''r='' (nonce @ ext)" "\<not> sublist ''s='' (cy_encode cr salt)" and v: "v \<noteq> []"
  defines "salted \<equiv> rfc_hi cr (normalize cr password) salt (unat i - 1)"
    and "reply \<equiv> ''c='' @ cy_encode cr ''n,,'' @ '',r='' @ nonce @ ext"
  defines "auth \<equiv> ''n=,r='' @ nonce @ '','' @ server_first cr (nonce @ ext) salt i @ '','' @ reply"
  shows "\<exists>client_proof self.
    scram_update cr (server_first cr (nonce @ ext) salt i) (scram_from_nonce password nonce)
      = Ok (self, reply @ '',p='' @ cy_encode cr client_proof)
    \<and> rfc_accepts cr (rfc_stored_key cr salted) auth client_proof
    \<and> scram_finish cr (''v='' @ cy_encode cr v) self
       = (if v = cy_hmac cr (rfc_server_key cr salted) auth then Ok () else Err ServerError)"
proof -
  define client_proof where "client_proof = xor_bytes (cy_hmac cr salted ''Client Key'') (cy_hmac cr (rfc_stored_key cr salted) auth)"
  define self where "self = (scram_from_nonce password nonce)\<lparr>sm_salted_password := salted, sm_auth_message := auth,
    sm_message := reply @ '',p='' @ cy_encode cr client_proof\<rparr>"
  have utf: "from_utf8_lossy (server_first cr (nonce @ ext) salt i) = server_first cr (nonce @ ext) salt i"
    "from_utf8_lossy reply = reply" "from_utf8_lossy (cy_encode cr v) = cy_encode cr v"
    using cr nonce by (auto intro!: from_utf8_lossy_ascii simp: server_first_def reply_def crypto_ok_def)
  have "scram_update cr (server_first cr (nonce @ ext) salt i) (scram_from_nonce password nonce)
      = Ok (self, reply @ '',p='' @ cy_encode cr client_proof)"
    using cr utf unfolding scram_update_def server_first_parse [OF cr nonce labels]
    by (simp add: Let_def scram_from_nonce_def self_def client_proof_def salted_def reply_def auth_def rfc_stored_key_def
        scram_hi_eq crypto_ok_def)
  moreover have "rfc_accepts cr (rfc_stored_key cr salted) auth client_proof"
    using cr by (simp add: rfc_accepts_def client_proof_def xor_bytes_cancel crypto_ok_def rfc_stored_key_def)
  moreover have "scram_finish cr (''v='' @ cy_encode cr v) self
       = (if v = cy_hmac cr (rfc_server_key cr salted) auth then Ok () else Err ServerError)"
    using cr v utf by (auto simp: scram_finish_def scram_final_parse_def crypto_ok_def self_def rfc_server_key_def numeral_2_eq_2)
  ultimately show ?thesis by blast
qed

text \<open>A crypto record that meets the assumptions, with hexadecimal digits in the place of base64.\<close>

fun unhex :: "string \<Rightarrow> bytes option" where
  "unhex [] = Some []"
| "unhex [_] = None"
| "unhex (a # b # s) =
     (case (hex_val a, hex_val b, unhex s) of
        (Some x, Some y, Some r) \<Rightarrow> Some (char_of (16 * x + y) # r)
      | _ \<Rightarrow> None)"

definition hex_crypto :: crypto where
  "hex_crypto =
     \<lparr> cy_hmac = (\<lambda>k m. take 32 (rev k @ m @ replicate 32 CHR 0x00)), cy_sha256 = rev, cy_encode = lower_hex, cy_decode = unhex, cy_saslprep = Some \<rparr>"

lemma hex_digit_code: "d < 16 \<Longrightarrow> (of_char (hex_digit d) :: nat) = (if d < 10 then 48 + d else 87 + d)"
  by (simp add: hex_digit_def)

lemma high_digit: "of_char a div 16 < (16 :: nat)"
  by (rule less_mult_imp_div_less) (use nat_of_char_less_256 [of a] in simp)

lemma unhex_lower_hex: "unhex (lower_hex b) = Some b"
proof (induction b)
  case (Cons a b)
  with high_digit [of a] show ?case by (simp add: lower_hex_def hex_val_hex_digit)
qed (simp add: lower_hex_def)

lemma lower_hex_chars:
  assumes "c \<in> set (lower_hex b)"
  shows "(of_char c :: nat) < 128 \<and> c \<noteq> CHR '',''"
proof -
  from assms obtain a :: char and d :: nat where "d = of_char a div 16 \<or> d = of_char a mod 16" and c: "c = hex_digit d"
    by (auto simp: lower_hex_def)
  then have d: "d < 16" "c = hex_digit d" using high_digit [of a] by auto
  from hex_digit_code [OF d(1)] d(1) have "(of_char c :: nat) < 128 \<and> (of_char c :: nat) \<noteq> of_char CHR '',''"
    by (auto simp: d(2))
  then show ?thesis by auto
qed

lemma hex_crypto_ok: "crypto_ok hex_crypto"
  using lower_hex_chars by (auto simp: crypto_ok_def hex_crypto_def unhex_lower_hex ascii_def Suc_le_eq)

theorem scram_exchange_witness:
  "\<exists>client_proof self.
    scram_update hex_crypto (server_first hex_crypto ''abcd'' ''salt'' 2) (scram_from_nonce ''secret'' ''ab'')
      = Ok (self, ''c='' @ cy_encode hex_crypto ''n,,'' @ '',r=abcd,p='' @ cy_encode hex_crypto client_proof)
    \<and> scram_finish hex_crypto (''v='' @ cy_encode hex_crypto ''no'') self = Err ServerError"
proof -
  have "\<not> sublist ''s='' (lower_hex ''salt'')"
    by (simp add: lower_hex_def hex_digit_def sublist_Cons_right char_of_eval)
  then have salt: "\<not> sublist ''s='' (cy_encode hex_crypto ''salt'')" by (simp add: hex_crypto_def)
  have len: "length (cy_hmac hex_crypto k m) = 32" for k m using hex_crypto_ok by (simp add: crypto_ok_def)
  have no: "''no'' \<noteq> cy_hmac hex_crypto k m" for k m 
  proof -
    have "length ''no'' \<noteq> length (cy_hmac hex_crypto k m)" by (simp add: len)
    then show ?thesis by metis
  qed
  show ?thesis
    using scram_exchange [OF hex_crypto_ok, of "''ab''" "''cd''" "''salt''" "''no''" 2 "''secret''"] salt no
    by (simp add: sublist_Cons_right) blast
qed

text \<open>
  A nonce that contains the label \<open>r=\<close> makes authentication fail, although both sides know the
  password: the label is removed from the message with \<open>str::replace\<close>, which also removes it from the nonce,
  and the rest no longer starts with the nonce of the client.
\<close>

theorem scram_nonce_label:
  assumes "crypto_ok cr" "ascii (nonce @ ext)" "CHR '','' \<notin> set (nonce @ ext)"
    and nonce: "nonce = xs @ ''r='' @ y # ys" and "CHR ''r'' \<notin> set xs" "y \<noteq> CHR ''r''"
  shows "scram_update cr (server_first cr (nonce @ ext) salt i) (scram_from_nonce password nonce) = Err scram_error"
proof -
  define rest where "rest = replace_all ''r='' [] (ys @ ext)"
  have 1: "replace_all ''r='' [] (''r='' @ nonce @ ext) = xs @ y # rest"
    using replace_label_inside [OF assms(5,6), of "ys @ ext"] unfolding nonce rest_def by (simp only: append_assoc append_Cons)
  have 2: "\<not> prefix nonce (xs @ y # rest)"
    using assms(6) unfolding nonce by simp
  show ?thesis
    unfolding scram_update_def scram_challenge_parse_def server_first_split [OF assms(1-3)] list.case 1
    using 2 by (simp add: scram_from_nonce_def split: option.split)
qed

theorem scram_nonce_label_witness:
  "scram_update hex_crypto (server_first hex_crypto (''ar=b'' @ ''cd'') ''salt'' 2) (scram_from_nonce ''secret'' ''ar=b'') = Err scram_error"
  by (rule scram_nonce_label [OF hex_crypto_ok, of _ _ "''a''" "CHR ''b''" "[]"]) simp_all

end
