(* ===== verification/Server_Startup.thy ===== *)
theory Server_Startup
  imports Server_Laws Scram
begin

text \<open>
  \<open>src/src/server.rs\<close>: opening a connection to a server.  \<open>Server::startup\<close> sends the startup packet, answers
  the authentication requests of the server and collects its parameters until ReadyForQuery.

  The network, TLS, the cryptography and the random nonce are part of the environment.
\<close>

section \<open>The exchange\<close>

text \<open>What the loop of \<open>startup\<close> keeps.\<close>

record startup_state =
  su_stream :: stream
  su_process_id :: i32
  su_secret_key :: i32
  su_scram :: "scram option"
  su_parameters :: server_parameters

text \<open>The values that the loop only reads: hash functions, the password if there is one, the hash from
  the auth query, and the identifiers.\<close>

record startup_context =
  sx_md5 :: "bytes \<Rightarrow> bytes"
  sx_crypto :: crypto
  sx_username :: string
  sx_password :: "string option"
  sx_auth_hash :: "string option"
  sx_identifier :: server_identifier

definition on_su_stream :: "(stream, 'a) act \<Rightarrow> (startup_state, 'a) act" where
  "on_su_stream = act_zoom su_stream (\<lambda>t s. s\<lparr>su_stream := t\<rparr>)"

text \<open>A read whose failure is reported as a startup error.\<close>

definition su_read :: "startup_context \<Rightarrow> string \<Rightarrow> (stream \<Rightarrow> (string, 'a) outcome \<times> stream) \<Rightarrow> (startup_state, 'a) act" where
  "su_read cx what io = on_su_stream (act_io io (\<lambda>_. ServerStartupError what (sx_identifier cx)))"

text \<open>\<open>vec![0u8; n]\<close> followed by \<open>read_exact\<close>; the allocation panics above \<open>isize::MAX\<close>.\<close>

definition su_read_vec :: "startup_context \<Rightarrow> string \<Rightarrow> usize \<Rightarrow> (startup_state, bytes) act" where
  "su_read_vec cx what n =
     (if 9223372036854775807 < unat n then act_lift Panic else su_read cx what (stream_read_exact (unat n)))"

definition startup_md5 :: "startup_context \<Rightarrow> (startup_state, unit) act" where
  "startup_md5 cx =
     act_bind (su_read cx ''salt'' (stream_read_exact 4)) (\<lambda>salt.
     case sx_password cx of
       Some password \<Rightarrow> on_su_stream (md5_password (sx_md5 cx) (sx_username cx) password salt)
     | None \<Rightarrow>
         (case sx_auth_hash cx of
            Some hash \<Rightarrow> on_su_stream (md5_password_with_hash (sx_md5 cx) hash salt)
          | None \<Rightarrow> act_lift (Err (ServerAuthError
              ''Auth passthrough (auth_query) failed and no user password is set in cleartext'' (sx_identifier cx)))))"

text \<open>\<open>sasl_auth[..sasl_len - 2]\<close> panics on fewer than two bytes: the subtraction wraps.\<close>

definition sasl_type_of :: "usize \<Rightarrow> bytes \<Rightarrow> string result" where
  "sasl_type_of sasl_len sasl_auth =
     (if length sasl_auth < unat (sasl_len - 2) then Panic
      else Ok (from_utf8_lossy (take (unat (sasl_len - 2)) sasl_auth)))"

definition startup_sasl :: "startup_context \<Rightarrow> i32 \<Rightarrow> (startup_state, unit) act" where
  "startup_sasl cx len =
     act_bind (act_get (\<lambda>s. Ok (su_scram s))) (\<lambda>scram.
     case scram of
       None \<Rightarrow> act_lift (Err (ServerAuthError
          ''SASL auth required and no password specified. Auth passthrough (auth_query) method is currently unsupported for SASL auth''
          (sx_identifier cx)))
     | Some scram \<Rightarrow>
         let sasl_len = scast (len - 8) :: usize
         in act_bind (su_read_vec cx ''sasl message'' sasl_len) (\<lambda>sasl_auth.
            act_bind (act_lift (sasl_type_of sasl_len sasl_auth)) (\<lambda>sasl_type.
            if sublist SCRAM_SHA_256 sasl_type
            then
              let sasl_response = scram_message scram;
                  res = put_u8 CHR ''p''
                    @ put_i32 (4 + of_nat (length SCRAM_SHA_256) + 1 + 4 + of_nat (length sasl_response))
                    @ SCRAM_SHA_256 @ [CHR 0x00] @ put_i32 (of_nat (length sasl_response)) @ sasl_response
              in on_su_stream (write_all_flush res)
            else act_lift (Err ServerError))))"

definition startup_sasl_continue :: "startup_context \<Rightarrow> i32 \<Rightarrow> (startup_state, unit) act" where
  "startup_sasl_continue cx len =
     act_bind (su_read_vec cx ''sasl cont message'' (scast (len - 8))) (\<lambda>sasl_data.
     act_bind (act_get (\<lambda>s. rbind (unwrap (su_scram s)) (\<lambda>scram. scram_update (sx_crypto cx) sasl_data scram))) (\<lambda>(scram, sasl_response).
     act_bind (act_modify (\<lambda>s. s\<lparr>su_scram := Some scram\<rparr>)) (\<lambda>_.
     on_su_stream (write_all_flush (put_u8 CHR ''p'' @ put_i32 (4 + of_nat (length sasl_response)) @ sasl_response)))))"

definition startup_sasl_final :: "startup_context \<Rightarrow> i32 \<Rightarrow> (startup_state, unit) act" where
  "startup_sasl_final cx len =
     act_bind (su_read_vec cx ''sasl final message'' (scast len - 8)) (\<lambda>sasl_final.
     act_get (\<lambda>s. rbind (unwrap (su_scram s)) (\<lambda>scram. scram_finish (sx_crypto cx) sasl_final scram)))"

definition startup_auth :: "startup_context \<Rightarrow> i32 \<Rightarrow> (startup_state, unit) act" where
  "startup_auth cx len =
     act_bind (su_read cx ''auth code'' stream_read_i32) (\<lambda>auth_code.
     if auth_code = MD5_ENCRYPTED_PASSWORD then startup_md5 cx
     else if auth_code = AUTHENTICATION_SUCCESSFUL then act_return ()
     else if auth_code = SASL then startup_sasl cx len
     else if auth_code = SASL_CONTINUE then startup_sasl_continue cx len
     else if auth_code = SASL_FINAL then startup_sasl_final cx len
     else act_lift (Err ServerError))"

definition startup_error :: "startup_context \<Rightarrow> i32 \<Rightarrow> (startup_state, unit) act" where
  "startup_error cx len =
     act_bind (su_read cx ''error code message'' stream_read_u8) (\<lambda>error_code.
     act_bind (act_when (error_code \<noteq> MESSAGE_TERMINATOR)
       (act_bind (su_read_vec cx ''error message'' (scast len)) (\<lambda>error.
        act_bind (act_lift (pg_error_msg_parse error)) (\<lambda>_. act_return ())))) (\<lambda>_.
     act_lift (Err ServerError)))"

definition startup_parameter_status :: "startup_context \<Rightarrow> i32 \<Rightarrow> (startup_state, unit) act" where
  "startup_parameter_status cx len =
     act_bind (su_read_vec cx ''parameter status message'' (scast len - 4)) (\<lambda>bytes.
     act_bind (act_lift (unwrap_res (bytes_read_string bytes))) (\<lambda>(key, bytes).
     act_bind (act_lift (unwrap_res (bytes_read_string bytes))) (\<lambda>(val, bytes).
     act_modify (\<lambda>s. s\<lparr>su_parameters := set_param key val True (su_parameters s)\<rparr>))))"

definition startup_key_data :: "startup_context \<Rightarrow> (startup_state, unit) act" where
  "startup_key_data cx =
     act_bind (su_read cx ''process id message'' stream_read_i32) (\<lambda>id.
     act_bind (act_modify (\<lambda>s. s\<lparr>su_process_id := id\<rparr>)) (\<lambda>_.
     act_bind (su_read cx ''secret key message'' stream_read_i32) (\<lambda>key.
     act_modify (\<lambda>s. s\<lparr>su_secret_key := key\<rparr>))))"

definition startup_ready :: "startup_context \<Rightarrow> i32 \<Rightarrow> (startup_state, unit) act" where
  "startup_ready cx len =
     act_bind (su_read_vec cx ''transaction status message'' (scast len - 4)) (\<lambda>_. act_return ())"

text \<open>One round of the loop; it returns whether the server is ready.\<close>

definition startup_handle :: "startup_context \<Rightarrow> byte \<Rightarrow> i32 \<Rightarrow> (startup_state, bool) act" where
  "startup_handle cx code len =
     (if code = CHR ''R'' then act_bind (startup_auth cx len) (\<lambda>_. act_return False)
      else if code = CHR ''E'' then act_bind (startup_error cx len) (\<lambda>_. act_return False)
      else if code = CHR ''S'' then act_bind (startup_parameter_status cx len) (\<lambda>_. act_return False)
      else if code = CHR ''K'' then act_bind (startup_key_data cx) (\<lambda>_. act_return False)
      else if code = CHR ''Z'' then act_bind (startup_ready cx len) (\<lambda>_. act_return True)
      else act_lift (Err (ProtocolSyncError (''Unknown server code: '' @ push_latin1 code))))"

definition startup_round :: "startup_context \<Rightarrow> (startup_state, bool) act" where
  "startup_round cx =
     act_bind (su_read cx ''message code'' stream_read_u8) (\<lambda>code.
     act_bind (su_read cx ''message len'' stream_read_i32) (\<lambda>len.
     startup_handle cx code len))"

section \<open>Termination\<close>

definition su_unread :: "startup_state \<Rightarrow> nat" where
  "su_unread s = length (rd_input (su_stream s))"

lemma stream_reads_shorten:
  "length (rd_input (snd (stream_read_u8 t))) \<le> length (rd_input t)"
  "length (rd_input (snd (stream_read_exact n t))) \<le> length (rd_input t)"
  "length (rd_input (snd (stream_read_i32 t))) \<le> length (rd_input t)"
  by (auto simp: stream_read_u8_def stream_read_exact_def stream_read_i32_def split: list.split outcome.split)

lemma stream_writes_keep_input:
  "rd_input (snd (stream_write_all bs t)) = rd_input t" "rd_input (snd (stream_flush t)) = rd_input t"
  by (auto simp: stream_write_all_def stream_flush_def split: option.split)

lemma keeps_unread_stream: "keeps (\<lambda>t. length (rd_input t) \<le> n) m \<Longrightarrow> keeps (\<lambda>s. su_unread s \<le> n) (on_su_stream m)"
  unfolding on_su_stream_def su_unread_def by (rule keeps_zoom) (auto dest: keepsD)

lemma keeps_unread_read:
  "(\<And>t. length (rd_input (snd (io t))) \<le> length (rd_input t)) \<Longrightarrow> keeps (\<lambda>s. su_unread s \<le> n) (su_read cx what io)"
  unfolding su_read_def by (intro keeps_unread_stream keeps_io) (metis le_trans)

lemma keeps_unread_reads [keeps_intro]:
  "keeps (\<lambda>s. su_unread s \<le> n) (su_read cx what stream_read_u8)"
  "keeps (\<lambda>s. su_unread s \<le> n) (su_read cx what stream_read_i32)"
  "keeps (\<lambda>s. su_unread s \<le> n) (su_read cx what (stream_read_exact k))"
  by (rule keeps_unread_read, rule stream_reads_shorten)+

lemma keeps_unread_vec [keeps_intro]: "keeps (\<lambda>s. su_unread s \<le> n) (su_read_vec cx what k)"
  unfolding su_read_vec_def by (intro keeps_intro)

lemma keeps_unread_write [keeps_intro]:
  "keeps (\<lambda>s. su_unread s \<le> n) (on_su_stream (write_all bs))" "keeps (\<lambda>s. su_unread s \<le> n) (on_su_stream (write_all_flush bs))"
  unfolding write_all_def write_all_flush_def
  by (intro keeps_unread_stream keeps_intro; simp add: stream_writes_keep_input)+

lemma keeps_unread_md5 [keeps_intro]:
  "keeps (\<lambda>s. su_unread s \<le> n) (on_su_stream (md5_password md5 u p salt))"
  "keeps (\<lambda>s. su_unread s \<le> n) (on_su_stream (md5_password_with_hash md5 h salt))"
  unfolding md5_password_def md5_password_with_hash_def Let_def by (rule keeps_unread_write)+

lemmas startup_defs = startup_md5_def startup_sasl_def startup_sasl_continue_def startup_sasl_final_def startup_auth_def startup_error_def
  startup_parameter_status_def startup_key_data_def startup_ready_def

lemma keeps_unread_handle: "keeps (\<lambda>s. su_unread s \<le> n) (startup_handle cx code len)"
  unfolding startup_handle_def startup_defs Let_def
  by (intro keeps_intro) (auto simp: su_unread_def)

lemma startup_round_unread:
  assumes "startup_round cx s = (Ok stop, s')"
  shows "su_unread s' < su_unread s"
proof -
  from assms obtain code s1 len s2 where 1: "su_read cx ''message code'' stream_read_u8 s = (Ok code, s1)"
    and 2: "su_read cx ''message len'' stream_read_i32 s1 = (Ok len, s2)" and 3: "startup_handle cx code len s2 = (Ok stop, s')"
    by (auto simp: startup_round_def act_bind_Ok_iff)
  from 1 have "su_unread s1 < su_unread s"
    by (auto simp: su_read_def on_su_stream_def act_zoom_iff stream_read_u8_def su_unread_def split: list.splits)
  moreover have "su_unread s2 \<le> su_unread s1" by (rule keepsD [OF keeps_unread_reads(2) order_refl 2])
  moreover have "su_unread s' \<le> su_unread s2" by (rule keepsD [OF keeps_unread_handle order_refl 3])
  ultimately show ?thesis by simp
qed

function startup_loop :: "startup_context \<Rightarrow> startup_state \<Rightarrow> unit result \<times> startup_state" where
  "startup_loop cx s =
     (case startup_round cx s of
        (Ok ready, s) \<Rightarrow> if ready then (Ok (), s) else startup_loop cx s
      | (Err e, s) \<Rightarrow> (Err e, s)
      | (Panic, s) \<Rightarrow> (Panic, s))"
  by pat_completeness auto
termination
  by (relation "measure (\<lambda>(cx, s). su_unread s)") (auto dest!: startup_round_unread [OF sym])

declare startup_loop.simps [simp del]

section \<open>Opening a connection\<close>

record startup_env =
  se_connect :: "string \<Rightarrow> (string, stream) outcome"
  se_tls :: "string \<Rightarrow> bool \<Rightarrow> stream \<Rightarrow> (string, stream) outcome"
  se_is_ip :: "string \<Rightarrow> bool"
  se_resolve :: "string \<Rightarrow> string list option"
  se_nonce :: string
  se_md5 :: "bytes \<Rightarrow> bytes"
  se_crypto :: crypto
  se_now :: nat

definition host_port :: "string \<Rightarrow> u16 \<Rightarrow> string" where
  "host_port host port = host @ '':'' @ show_nat (unat port)"

text \<open>\<open>match io { Ok(x) => x, Err(err) => return Err(SocketError(text + err)) }\<close>.\<close>

definition or_socket_error :: "string \<Rightarrow> (string, 'a) outcome \<Rightarrow> 'a result" where
  "or_socket_error text r = (case r of Ok x \<Rightarrow> Ok x | Err e \<Rightarrow> Err (SocketError (text @ e)) | Panic \<Rightarrow> Panic)"

definition server_tls_stream :: "startup_env \<Rightarrow> general \<Rightarrow> string \<Rightarrow> stream \<Rightarrow> stream result" where
  "server_tls_stream env general host stream =
     (if g_server_tls general
      then (case ssl_request stream of
              (Ok _, stream) \<Rightarrow>
                (case stream_read_u8 stream of
                   (Ok response, stream) \<Rightarrow>
                     if response = CHR ''S'' then
                       or_socket_error ''Server TLS error: '' (se_tls env host (g_verify_server_certificate general) stream)
                     else if response = CHR ''N'' then Ok stream
                     else Err (SocketError (''Unknown message: '' @ push_latin1 response))
                 | (Err err, stream) \<Rightarrow> Err (SocketError (''Server socket error: '' @ err))
                 | (Panic, stream) \<Rightarrow> Panic)
            | (Err e, stream) \<Rightarrow> Err e
            | (Panic, stream) \<Rightarrow> Panic)
      else Ok stream)"

definition server_username :: "user \<Rightarrow> string" where
  "server_username user = (case u_server_username user of Some name \<Rightarrow> name | None \<Rightarrow> u_username user)"

definition server_password :: "user \<Rightarrow> string option" where
  "server_password user = (case u_server_password user of Some password \<Rightarrow> Some password | None \<Rightarrow> u_password user)"

definition startup_context_of :: "startup_env \<Rightarrow> user \<Rightarrow> string \<Rightarrow> string option \<Rightarrow> startup_context" where
  "startup_context_of env user database auth_hash =
     \<lparr> sx_md5 = se_md5 env, sx_crypto = se_crypto env, sx_username = server_username user,
       sx_password = server_password user, sx_auth_hash = auth_hash,
       sx_identifier = server_identifier_new (server_username user) database \<rparr>"

definition startup_exchange :: "startup_env \<Rightarrow> user \<Rightarrow> string \<Rightarrow> string option \<Rightarrow> stream \<Rightarrow> unit result \<times> startup_state" where
  "startup_exchange env user database auth_hash stream =
     (let (r, stream) = startup (server_username user) database stream;
          st = \<lparr> su_stream = stream, su_process_id = 0, su_secret_key = 0,
                 su_scram = map_option (\<lambda>password. scram_from_nonce password (se_nonce env)) (server_password user),
                 su_parameters = server_parameters_new \<rparr>
      in case r of
           Ok _ \<Rightarrow> startup_loop (startup_context_of env user database auth_hash) st
         | Err e \<Rightarrow> (Err e, st)
         | Panic \<Rightarrow> (Panic, st))"

text \<open>The connection after the exchange.\<close>

definition server_of ::
  "(string, unit, 'c) lru_ops \<Rightarrow> nat \<Rightarrow> address \<Rightarrow> server_stats \<Rightarrow> addr_set option \<Rightarrow> bool \<Rightarrow> usize \<Rightarrow> startup_state \<Rightarrow> 'c server" where
  "server_of ops now address stats addrs cleanup_connections prepared_statement_cache_size st =
     \<lparr> sv_address = address, sv_stream = su_stream st, sv_buffer = [], sv_parameters = su_parameters st,
       sv_process_id = su_process_id st, sv_secret_key = su_secret_key st, sv_in_transaction = False,
       sv_data_available = False, sv_in_copy_mode = False, sv_bad = False, sv_cleanup_state = cleanup_state_new,
       sv_stats = stats, sv_application_name = ''pgcat'', sv_last_activity = now,
       sv_mirror_manager = (if a_mirrors address = [] then None else Some (mirrors_from_addresses (a_mirrors address))),
       sv_addr_set = addrs, sv_cleanup_connections = cleanup_connections,
       sv_cache = (if prepared_statement_cache_size = 0 then None else Some (lru_new ops prepared_statement_cache_size)),
       sv_registering = [] \<rparr>"

definition server_startup ::
  "startup_env \<Rightarrow> (string, unit, 'c) lru_ops \<Rightarrow> general \<Rightarrow> address \<Rightarrow> user \<Rightarrow> string \<Rightarrow> server_stats \<Rightarrow> string option \<Rightarrow> bool \<Rightarrow>
   usize \<Rightarrow> cached_resolver \<Rightarrow> 'c server result \<times> cached_resolver" where
  "server_startup env ops general address user database stats auth_hash cleanup_connections prepared_statement_cache_size resolver =
     (let (addrs, resolver) =
            (if resolver_enabled resolver \<and> \<not> se_is_ip env (a_host address) then lookup_ip (se_resolve env) (a_host address) resolver
             else (None, resolver))
      in (rbind (or_socket_error ''Could not connect to server: '' (se_connect env (host_port (a_host address) (a_port address)))) (\<lambda>stream.
          rbind (server_tls_stream env general (a_host address) stream) (\<lambda>stream.
          case startup_exchange env user database auth_hash stream of
            (Ok _, st) \<Rightarrow> Ok (server_of ops (se_now env) address stats addrs cleanup_connections prepared_statement_cache_size st)
          | (Err e, st) \<Rightarrow> Err e
          | (Panic, st) \<Rightarrow> Panic)), resolver))"

definition cancel_request :: "i32 \<Rightarrow> i32 \<Rightarrow> bytes" where
  "cancel_request process_id secret_key = put_i32 16 @ put_i32 CANCEL_REQUEST_CODE @ put_i32 process_id @ put_i32 secret_key"

text \<open>The result, and the connection the request was written to.\<close>

definition server_cancel :: "startup_env \<Rightarrow> string \<Rightarrow> u16 \<Rightarrow> i32 \<Rightarrow> i32 \<Rightarrow> unit result \<times> stream option" where
  "server_cancel env host port process_id secret_key =
     (case se_connect env (host_port host port) of
        Ok stream \<Rightarrow> (case write_all_flush (cancel_request process_id secret_key) stream of (r, stream) \<Rightarrow> (r, Some stream))
      | Err _ \<Rightarrow> (Err (SocketError ''Error reading cancel message''), None)
      | Panic \<Rightarrow> (Panic, None))"

section \<open>Messages of a server that is starting up\<close>

lemma frame_len:
  assumes "n + 4 < 2147483648"
  shows "unat (scast (of_nat n + 4 :: i32) - 4 :: usize) = n" "unat (scast (of_nat n + 4 :: i32) :: usize) = n + 4"
proof -
  define len :: i32 where "len = of_nat (n + 4)"
  have len: "of_nat n + 4 = len" by (simp add: len_def)
  have s: "sint len = int (n + 4)" "unat len = n + 4"
    using assms sint_i32 [of "n + 4"] unfolding len_def by (simp_all only: unat_of_nat_small) simp_all
  show "unat (scast (of_nat n + 4 :: i32) - 4 :: usize) = n"
    unfolding len using s read_message_arith(3) [of len] by simp
  show "unat (scast (of_nat n + 4 :: i32) :: usize) = n + 4"
    unfolding len using assms by (simp add: len_def unat_scast_i32 del: of_nat_add)
qed

text \<open>The state after the server's bytes up to \<open>rest\<close> have been read.\<close>

definition su_at :: "bytes \<Rightarrow> startup_state \<Rightarrow> startup_state" where
  "su_at rest s = s\<lparr>su_stream := (su_stream s)\<lparr>rd_input := rest\<rparr>\<rparr>"

lemma su_at_simps [simp]:
  "su_at r (su_at r' s) = su_at r s" "rd_input (su_stream (su_at r s)) = r" "wr_output (su_stream (su_at r s)) = wr_output (su_stream s)"
  "wr_budget (su_stream (su_at r s)) = wr_budget (su_stream s)" "fl_error (su_stream (su_at r s)) = fl_error (su_stream s)"
  "su_process_id (su_at r s) = su_process_id s" "su_secret_key (su_at r s) = su_secret_key s" "su_scram (su_at r s) = su_scram s"
  "su_parameters (su_at r s) = su_parameters s"
  by (simp_all add: su_at_def)

lemma su_read_i32: "rd_input (su_stream s) = put_i32 x @ rest \<Longrightarrow> su_read cx what stream_read_i32 s = (Ok x, su_at rest s)"
  by (simp add: su_read_def on_su_stream_def act_zoom_def act_io_def su_at_def)

lemma su_read_u8: "rd_input (su_stream s) = c # rest \<Longrightarrow> su_read cx what stream_read_u8 s = (Ok c, su_at rest s)"
  by (simp add: su_read_def on_su_stream_def act_zoom_def act_io_def su_at_def stream_read_u8_def)

lemma su_read_exact: "rd_input (su_stream s) = body @ rest \<Longrightarrow> length body = n \<Longrightarrow> su_read cx what (stream_read_exact n) s = (Ok body, su_at rest s)"
  by (simp add: su_read_def on_su_stream_def act_zoom_def act_io_def su_at_def stream_read_exact_def)

lemma startup_round_frame:
  assumes "rd_input (su_stream s) = frame tag body @ rest"
  shows "startup_round cx s = startup_handle cx tag (of_nat (length body) + 4) (su_at (body @ rest) s)"
  using su_read_u8 [of s tag "put_i32 (of_nat (length body) + 4) @ body @ rest" cx "''message code''"] assms
  by (simp add: startup_round_def frame_def su_read_i32)

lemma startup_round_auth_ok:
  "rd_input (su_stream s) = frame CHR ''R'' (put_i32 0) @ rest \<Longrightarrow> startup_round cx s = (Ok False, su_at rest s)"
  by (simp add: startup_round_frame startup_handle_def startup_auth_def su_read_i32 AUTHENTICATION_SUCCESSFUL_def MD5_ENCRYPTED_PASSWORD_def
      act_return_def)

definition parameter_frame :: "string \<times> string \<Rightarrow> bytes" where
  "parameter_frame = (\<lambda>(k, v). frame CHR ''S'' (k @ CHR 0x00 # v @ [CHR 0x00]))"

text \<open>Names and values that can stand in a ParameterStatus message.\<close>

definition wf_parameter :: "string \<times> string \<Rightarrow> bool" where
  "wf_parameter = (\<lambda>(k, v). CHR 0x00 \<notin> set k \<and> CHR 0x00 \<notin> set v \<and> utf8 k \<and> utf8 v \<and> length k + length v + 6 < 2147483648)"

lemma utf8_lossy: "utf8 s \<Longrightarrow> from_utf8_lossy s = s"
  by (simp add: utf8_def)

lemma startup_round_parameter:
  assumes "rd_input (su_stream s) = parameter_frame (k, v) @ rest" "wf_parameter (k, v)"
  shows "startup_round cx s = (Ok False, (su_at rest s)\<lparr>su_parameters := set_param k v True (su_parameters s)\<rparr>)"
proof -
  let ?body = "k @ CHR 0x00 # v @ [CHR 0x00]"
  have len: "unat (scast (of_nat (length ?body) + 4 :: i32) - 4 :: usize) = length ?body"
    using frame_len(1) [of "length ?body"] assms(2) by (simp add: wf_parameter_def)
  from assms(1) have "rd_input (su_stream s) = frame CHR ''S'' ?body @ rest" by (simp add: parameter_frame_def)
  from startup_round_frame [OF this, of cx] have "startup_round cx s = startup_handle cx CHR ''S'' (of_nat (length ?body) + 4) (su_at (?body @ rest) s)" .
  moreover have "su_read_vec cx what (scast (of_nat (length ?body) + 4 :: i32) - 4) (su_at (?body @ rest) s) = (Ok ?body, su_at rest s)" for what
    using su_read_exact [of "su_at (?body @ rest) s" ?body rest "length ?body" cx what] assms(2)
    unfolding su_read_vec_def len by (simp add: wf_parameter_def)
  ultimately show ?thesis using assms(2)
    by (simp add: startup_handle_def startup_parameter_status_def act_lift_def act_bind_def [of "\<lambda>s. (_, s)"] bytes_read_string_Ok wf_parameter_def utf8_lossy
        act_modify_def act_bind_def [of "act_modify _"] act_return_def del: of_nat_add)
qed

lemma startup_round_key_data:
  assumes "rd_input (su_stream s) = frame CHR ''K'' (put_i32 pid @ put_i32 key) @ rest"
  shows "startup_round cx s = (Ok False, (su_at rest s)\<lparr>su_process_id := pid, su_secret_key := key\<rparr>)"
proof -
  let ?s1 = "su_at (put_i32 key @ rest) s"
  have "su_read cx w1 stream_read_i32 (su_at (put_i32 pid @ put_i32 key @ rest) s) = (Ok pid, ?s1)" for w1
    using su_read_i32 [of "su_at (put_i32 pid @ put_i32 key @ rest) s" pid "put_i32 key @ rest"] by simp
  moreover have "su_read cx w2 stream_read_i32 (?s1\<lparr>su_process_id := pid\<rparr>) = (Ok key, (su_at rest s)\<lparr>su_process_id := pid\<rparr>)" for w2
    using su_read_i32 [of "?s1\<lparr>su_process_id := pid\<rparr>" key rest] by (simp add: su_at_def)
  ultimately show ?thesis
    using startup_round_frame [OF assms, of cx]
    by (simp add: startup_handle_def startup_key_data_def act_bind_def [of "act_modify _"] act_modify_def act_return_def act_bind_def [of "act_bind _ _"])
qed

lemma startup_round_ready:
  assumes "rd_input (su_stream s) = frame CHR ''Z'' [c] @ rest"
  shows "startup_round cx s = (Ok True, su_at rest s)"
proof -
  have len: "unat (scast (of_nat (length [c]) + 4 :: i32) - 4 :: usize) = 1" using frame_len(1) [of 1] by simp
  have "su_read_vec cx what (scast (of_nat (length [c]) + 4 :: i32) - 4) (su_at ([c] @ rest) s) = (Ok [c], su_at rest s)" for what
    using su_read_exact [of "su_at ([c] @ rest) s" "[c]" rest 1 cx what] unfolding su_read_vec_def len by simp
  then show ?thesis
    using startup_round_frame [OF assms, of cx]
    by (simp add: startup_handle_def startup_ready_def act_return_def act_bind_def [of "act_bind _ _"] del: of_nat_Suc)
qed

text \<open>What a server sends after it has accepted the client.\<close>

definition server_greeting :: "(string \<times> string) list \<Rightarrow> i32 \<Rightarrow> i32 \<Rightarrow> byte \<Rightarrow> bytes" where
  "server_greeting ps pid key c =
     concat (map parameter_frame ps) @ frame CHR ''K'' (put_i32 pid @ put_i32 key) @ frame CHR ''Z'' [c]"

definition greeted :: "(string \<times> string) list \<Rightarrow> i32 \<Rightarrow> i32 \<Rightarrow> bytes \<Rightarrow> startup_state \<Rightarrow> startup_state" where
  "greeted ps pid key rest s =
     (su_at rest s)\<lparr>su_parameters := fold (\<lambda>(k, v). set_param k v True) ps (su_parameters s), su_process_id := pid, su_secret_key := key\<rparr>"

lemma startup_loop_greeting:
  assumes "rd_input (su_stream s) = server_greeting ps pid key c @ rest" "list_all wf_parameter ps"
  shows "startup_loop cx s = (Ok (), greeted ps pid key rest s)"
  using assms
proof (induction ps arbitrary: s)
  case Nil
  let ?s1 = "(su_at (frame CHR ''Z'' [c] @ rest) s)\<lparr>su_process_id := pid, su_secret_key := key\<rparr>"
  have "startup_round cx s = (Ok False, ?s1)"
    using startup_round_key_data [of s pid key "frame CHR ''Z'' [c] @ rest" cx] Nil by (simp add: server_greeting_def)
  moreover have "startup_round cx ?s1 = (Ok True, (su_at rest s)\<lparr>su_process_id := pid, su_secret_key := key\<rparr>)"
    using startup_round_ready [of ?s1 c rest cx] by (simp add: su_at_def)
  ultimately show ?case by (simp add: startup_loop.simps greeted_def)
next
  case (Cons kv ps)
  obtain k v where kv: "kv = (k, v)" by force
  let ?r = "server_greeting ps pid key c @ rest"
  let ?s1 = "(su_at ?r s)\<lparr>su_parameters := set_param k v True (su_parameters s)\<rparr>"
  have "startup_round cx s = (Ok False, ?s1)"
    using startup_round_parameter [of s k v ?r cx] Cons.prems by (simp add: kv server_greeting_def)
  moreover have "startup_loop cx ?s1 = (Ok (), greeted ps pid key rest ?s1)"
    using Cons.IH [of ?s1] Cons.prems by (simp add: su_at_def)
  ultimately show ?case by (simp add: startup_loop.simps [of cx s] kv greeted_def su_at_def)
qed

lemma startup_loop_unexpected:
  assumes "rd_input (su_stream s) = concat (map parameter_frame ps) @ frame code body @ rest" "list_all wf_parameter ps"
    and "code \<notin> {CHR ''R'', CHR ''E'', CHR ''S'', CHR ''K'', CHR ''Z''}"
  shows "fst (startup_loop cx s) = Err (ProtocolSyncError (''Unknown server code: '' @ push_latin1 code))"
  using assms(1,2)
proof (induction ps arbitrary: s)
  case Nil
  with startup_round_frame [of s code body rest cx] assms(3) show ?case
    by (simp add: startup_loop.simps [of cx s] startup_handle_def act_lift_def)
next
  case (Cons kv ps)
  obtain k v where kv: "kv = (k, v)" by force
  let ?r = "concat (map parameter_frame ps) @ frame code body @ rest"
  let ?s1 = "(su_at ?r s)\<lparr>su_parameters := set_param k v True (su_parameters s)\<rparr>"
  have "startup_round cx s = (Ok False, ?s1)"
    using startup_round_parameter [of s k v ?r cx] Cons.prems by (simp add: kv)
  moreover have "fst (startup_loop cx ?s1) = Err (ProtocolSyncError (''Unknown server code: '' @ push_latin1 code))"
    using Cons.IH [of ?s1] Cons.prems(2) by (simp add: su_at_def)
  ultimately show ?case by (simp add: startup_loop.simps [of cx s])
qed

lemma startup_loop_auth_ok:
  assumes "rd_input (su_stream s) = frame CHR ''R'' (put_i32 0) @ server_greeting ps pid key c @ rest" "list_all wf_parameter ps"
  shows "startup_loop cx s = (Ok (), greeted ps pid key rest s)"
  using startup_round_auth_ok [OF assms(1), of cx]
    startup_loop_greeting [of "su_at (server_greeting ps pid key c @ rest) s" ps pid key c rest cx] assms(2)
  by (simp add: startup_loop.simps [of cx s] greeted_def)

lemma startup_round_md5:
  assumes "rd_input (su_stream s) = frame CHR ''R'' (put_i32 5 @ salt) @ rest" "length salt = 4" "sx_password cx = Some password"
    and "wr_budget (su_stream s) = None"
  shows "startup_round cx s = (Ok False, (su_at rest s)\<lparr>su_stream := (su_stream (su_at rest s))
    \<lparr>wr_output := wr_output (su_stream s) @ frame CHR ''p'' (md5_hash_password (sx_md5 cx) (sx_username cx) password salt)\<rparr>\<rparr>)"
proof -
  have 1: "su_read cx w1 stream_read_i32 (su_at (put_i32 5 @ salt @ rest) s) = (Ok 5, su_at (salt @ rest) s)" for w1
    using su_read_i32 [of "su_at (put_i32 5 @ salt @ rest) s" 5 "salt @ rest"] by simp
  have 2: "su_read cx w2 (stream_read_exact 4) (su_at (salt @ rest) s) = (Ok salt, su_at rest s)" for w2
    using su_read_exact [of "su_at (salt @ rest) s" salt rest 4] assms(2) by simp
  have "on_su_stream (md5_password (sx_md5 cx) (sx_username cx) password salt) (su_at rest s) =
    (Ok (), (su_at rest s)\<lparr>su_stream := (su_stream (su_at rest s))
      \<lparr>wr_output := wr_output (su_stream s) @ frame CHR ''p'' (md5_hash_password (sx_md5 cx) (sx_username cx) password salt)\<rparr>\<rparr>)"
    using assms(4) by (simp add: on_su_stream_def act_zoom_def md5_password_def write_all_def act_io_def stream_write_all_def frame_def Let_def)
  with startup_round_frame [OF assms(1), of cx] 1 2 assms(3) show ?thesis
    by (simp add: startup_handle_def startup_auth_def startup_md5_def MD5_ENCRYPTED_PASSWORD_def act_return_def act_bind_def [of "act_bind _ _"])
qed

section \<open>Properties\<close>

definition example_startup_env :: startup_env where
  "example_startup_env =
     \<lparr> se_connect = (\<lambda>_. Ok (fresh_stream [])), se_tls = (\<lambda>_ _ s. Ok s), se_is_ip = (\<lambda>_. True), se_resolve = (\<lambda>_. None),
       se_nonce = ''nonce'', se_md5 = (\<lambda>bs. take 16 bs), se_crypto = hex_crypto, se_now = 3 \<rparr>"

definition example_user :: user where
  "example_user = user_default\<lparr>u_username := ''alice'', u_password := Some ''secret''\<rparr>"

text \<open>
  C20: startup with a password completes.  The server asks for an MD5 password, for which one is configured,
  then accepts the client and announces its parameters.  If it goes on with its keys and
  ReadyForQuery, the exchange ends successfully: pgcat has sent the startup packet and exactly one
  password message, the answer to the salt it was given; it has consumed the server's messages and
  nothing more, and it knows the parameters, the process and the key the server announced.  If it
  sends a message of another kind instead, such as a NoticeResponse, the exchange fails.
\<close>

theorem startup_exchange_md5:
  assumes "wr_budget stream = None" "length salt = 4" "list_all wf_parameter ps" "server_password user = Some password"
    and "rd_input stream = frame CHR ''R'' (put_i32 5 @ salt) @ frame CHR ''R'' (put_i32 0) @ concat (map parameter_frame ps) @ remaining"
  shows "(\<forall>pid key c rest. remaining = frame CHR ''K'' (put_i32 pid @ put_i32 key) @ frame CHR ''Z'' [c] @ rest \<longrightarrow>
      (\<exists>st. startup_exchange env user database auth_hash stream = (Ok (), st) \<and> rd_input (su_stream st) = rest
        \<and> wr_output (su_stream st) = wr_output (snd (startup (server_username user) database stream))
            @ frame CHR ''p'' (md5_hash_password (se_md5 env) (server_username user) password salt)
        \<and> su_process_id st = pid \<and> su_secret_key st = key
        \<and> su_parameters st = fold (\<lambda>(k, v). set_param k v True) ps server_parameters_new))
    \<and> (\<forall>code body rest. remaining = frame code body @ rest \<and> code \<notin> {CHR ''R'', CHR ''E'', CHR ''S'', CHR ''K'', CHR ''Z''} \<longrightarrow>
      fst (startup_exchange env user database auth_hash stream) = Err (ProtocolSyncError (''Unknown server code: '' @ push_latin1 code)))"
proof -
  define stream' where "stream' = snd (startup (server_username user) database stream)"
  have w: "startup (server_username user) database stream = (Ok (), stream')" "rd_input stream' = rd_input stream" "wr_budget stream' = None"
    using assms(1) by (simp_all add: stream'_def startup_def Let_def act_io_def stream_write_all_def)
  let ?cx = "startup_context_of env user database auth_hash"
  let ?st = "\<lparr> su_stream = stream', su_process_id = 0, su_secret_key = 0,
    su_scram = map_option (\<lambda>password. scram_from_nonce password (se_nonce env)) (server_password user), su_parameters = server_parameters_new \<rparr>"
  let ?rest = "frame CHR ''R'' (put_i32 0) @ concat (map parameter_frame ps) @ remaining"
  let ?st1 = "(su_at ?rest ?st)\<lparr>su_stream := (su_stream (su_at ?rest ?st))
    \<lparr>wr_output := wr_output stream' @ frame CHR ''p'' (md5_hash_password (se_md5 env) (server_username user) password salt)\<rparr>\<rparr>"
  have "startup_round ?cx ?st = (Ok False, ?st1)"
    using startup_round_md5 [of ?st salt ?rest ?cx password] assms w by (simp add: startup_context_of_def)
  then have run: "startup_exchange env user database auth_hash stream = startup_loop ?cx ?st1"
    using w by (simp add: startup_exchange_def startup_loop.simps [of _ ?st] del: map_option_eq_Some)
  show ?thesis
  proof (intro conjI allI impI)
    fix pid key c rest assume "remaining = frame CHR ''K'' (put_i32 pid @ put_i32 key) @ frame CHR ''Z'' [c] @ rest"
    then have "startup_loop ?cx ?st1 = (Ok (), greeted ps pid key rest ?st1)"
      by (intro startup_loop_auth_ok) (use assms(3) in \<open>simp_all add: server_greeting_def\<close>)
    then show "\<exists>st. startup_exchange env user database auth_hash stream = (Ok (), st) \<and> rd_input (su_stream st) = rest
        \<and> wr_output (su_stream st) = wr_output (snd (startup (server_username user) database stream))
            @ frame CHR ''p'' (md5_hash_password (se_md5 env) (server_username user) password salt)
        \<and> su_process_id st = pid \<and> su_secret_key st = key
        \<and> su_parameters st = fold (\<lambda>(k, v). set_param k v True) ps server_parameters_new"
      unfolding run by (simp add: greeted_def stream'_def su_at_def)
  next
    fix code body rest
    assume u: "remaining = frame code body @ rest \<and> code \<notin> {CHR ''R'', CHR ''E'', CHR ''S'', CHR ''K'', CHR ''Z''}"
    let ?st2 = "su_at (concat (map parameter_frame ps) @ remaining) ?st1"
    have "startup_round ?cx ?st1 = (Ok False, ?st2)" by (rule startup_round_auth_ok) simp
    moreover have "fst (startup_loop ?cx ?st2) = Err (ProtocolSyncError (''Unknown server code: '' @ push_latin1 code))"
      by (rule startup_loop_unexpected [of _ ps code body rest]) (use u assms(3) in simp_all)
    ultimately show "fst (startup_exchange env user database auth_hash stream) = Err (ProtocolSyncError (''Unknown server code: '' @ push_latin1 code))"
      unfolding run by (simp add: startup_loop.simps [of _ ?st1])
  qed
qed

theorem startup_exchange_md5_witness:
  "(\<exists>st. startup_exchange example_startup_env example_user ''db'' None
      (fresh_stream (frame CHR ''R'' (put_i32 5 @ ''salt'') @ frame CHR ''R'' (put_i32 0) @ parameter_frame (''server_version'', ''15'')
         @ frame CHR ''K'' (put_i32 7 @ put_i32 8) @ frame CHR ''Z'' ''I''))
      = (Ok (), st) \<and> su_process_id st = 7 \<and> map_of (su_parameters st) ''server_version'' = Some ''15'')
   \<and> fst (startup_exchange example_startup_env example_user ''db'' None
      (fresh_stream (frame CHR ''R'' (put_i32 5 @ ''salt'') @ frame CHR ''R'' (put_i32 0) @ frame CHR ''N'' [CHR 0x00])))
      = Err (ProtocolSyncError (''Unknown server code: '' @ push_latin1 CHR ''N''))"
proof -
  have u: "utf8 ''server_version''" "utf8 ''15''" by (simp_all add: utf8_ascii ascii_def)
  have pw: "server_password example_user = Some ''secret''" by (simp add: server_password_def example_user_def user_default_def)
  note run = startup_exchange_md5 [of "fresh_stream bs" "''salt''" _ example_user "''secret''" _ example_startup_env "''db''" None for bs, OF _ _ _ pw]
  let ?ps = "[(''server_version'', ''15'')]" and ?keys = "frame CHR ''K'' (put_i32 7 @ put_i32 8) @ frame CHR ''Z'' ''I'' @ []"
  let ?bs = "frame CHR ''R'' (put_i32 5 @ ''salt'') @ frame CHR ''R'' (put_i32 0) @ concat (map parameter_frame ?ps) @ ?keys"
  have "\<exists>st. startup_exchange example_startup_env example_user ''db'' None (fresh_stream ?bs)
      = (Ok (), st) \<and> su_process_id st = 7 \<and> su_parameters st = fold (\<lambda>(k, v). set_param k v True) ?ps server_parameters_new"
    using run [of ?bs ?ps ?keys, THEN conjunct1, rule_format, OF _ _ _ _ refl] u
    by (simp add: wf_parameter_def) blast
  moreover have "fst (startup_exchange example_startup_env example_user ''db'' None
      (fresh_stream (frame CHR ''R'' (put_i32 5 @ ''salt'') @ frame CHR ''R'' (put_i32 0) @ concat (map parameter_frame []) @ frame CHR ''N'' [CHR 0x00] @ [])))
      = Err (ProtocolSyncError (''Unknown server code: '' @ push_latin1 CHR ''N''))"
    by (rule run [of _ "[]" "frame CHR ''N'' [CHR 0x00] @ []", THEN conjunct2, rule_format, where code = "CHR ''N''" and body = "[CHR 0x00]" and rest = "[]"])
       simp_all
  ultimately show ?thesis by (auto simp: set_param_def parameter_key_def AList.update_conv')
qed

text \<open>
  C31: a server is not made to prove itself.  Whatever the state of the exchange, in particular in the middle
  of SCRAM authentication, an AuthenticationOk followed by the greeting ends the startup
  successfully, although the server has shown no signature; pgcat sends nothing more.
\<close>

theorem startup_accepts_unproven_server:
  assumes "rd_input (su_stream s) = frame CHR ''R'' (put_i32 0) @ server_greeting ps pid key c @ rest" "list_all wf_parameter ps"
  shows "\<exists>t. startup_loop cx s = (Ok (), t) \<and> su_scram t = su_scram s \<and> wr_output (su_stream t) = wr_output (su_stream s)
    \<and> su_process_id t = pid \<and> su_secret_key t = key"
  using startup_loop_auth_ok [OF assms, of cx] by (simp add: greeted_def)

theorem startup_accepts_unproven_server_witness:
  "\<exists>t. startup_loop (startup_context_of example_startup_env example_user ''db'' None)
      \<lparr> su_stream = fresh_stream (frame CHR ''R'' (put_i32 0) @ server_greeting [] 7 8 CHR ''I''), su_process_id = 0, su_secret_key = 0,
        su_scram = Some (scram_from_nonce ''secret'' ''nonce''), su_parameters = [] \<rparr> = (Ok (), t) \<and> su_process_id t = 7"
  using startup_accepts_unproven_server [of "\<lparr> su_stream = fresh_stream (frame CHR ''R'' (put_i32 0) @ server_greeting [] 7 8 CHR ''I''),
      su_process_id = 0, su_secret_key = 0, su_scram = Some (scram_from_nonce ''secret'' ''nonce''), su_parameters = [] \<rparr>" "[]" 7 8 "CHR ''I''" "[]"
      "startup_context_of example_startup_env example_user ''db'' None"]
  by simp blast

text \<open>
  The reason of a rejection is lost.  When the server answers with an error message and closes the
  connection, the startup fails with a read error: it tries to read five bytes more than the rest of
  the message, so that the fields of the error are never parsed and \<open>ServerError\<close> is not returned.
\<close>

theorem startup_error_unread:
  assumes "rd_input (su_stream s) = frame CHR ''E'' body" "body \<noteq> []" "hd body \<noteq> CHR 0x00" "length body + 4 < 2147483648"
  shows "fst (startup_loop cx s) = Err (ServerStartupError ''error message'' (sx_identifier cx))"
proof -
  obtain e r where body: "body = e # r" using assms(2) by (cases body) auto
  have len: "unat (scast (of_nat (length body) + 4 :: i32) :: usize) = length body + 4" using frame_len(2) [OF assms(4)] .
  have 1: "su_read cx w stream_read_u8 (su_at body s) = (Ok e, su_at r s)" for w
    using su_read_u8 [of "su_at body s" e r cx w] body by simp
  define n :: usize where "n = scast (of_nat (length body) + 4 :: i32)"
  obtain t where "su_read_vec cx ''error message'' n (su_at r s) = (Err (ServerStartupError ''error message'' (sx_identifier cx)), t)"
    using assms(4) len [folded n_def] unfolding su_read_vec_def
    by (simp add: su_read_def on_su_stream_def act_zoom_def act_io_def stream_read_exact_def body)
  then have "startup_round cx s = (Err (ServerStartupError ''error message'' (sx_identifier cx)), t)"
    using startup_round_frame [of s "CHR ''E''" body "[]" cx] assms(1,3) 1
    by (simp add: startup_handle_def startup_error_def n_def [symmetric] MESSAGE_TERMINATOR_def act_when_def body [symmetric] del: length_Cons)
       (simp add: body)
  then show ?thesis by (simp add: startup_loop.simps)
qed

theorem startup_error_unread_witness:
  "fst (startup_loop (startup_context_of example_startup_env example_user ''db'' None)
      \<lparr> su_stream = fresh_stream (frame CHR ''E'' (''SFATAL'' @ [CHR 0x00, CHR 0x00])), su_process_id = 0, su_secret_key = 0,
        su_scram = None, su_parameters = [] \<rparr>)
   = Err (ServerStartupError ''error message'' (server_identifier_new ''alice'' ''db''))"
  using startup_error_unread [of "\<lparr> su_stream = fresh_stream (frame CHR ''E'' (''SFATAL'' @ [CHR 0x00, CHR 0x00])),
      su_process_id = 0, su_secret_key = 0, su_scram = None, su_parameters = [] \<rparr>" "''SFATAL'' @ [CHR 0x00, CHR 0x00]"
      "startup_context_of example_startup_env example_user ''db'' None"]
  by (simp add: startup_context_of_def server_username_def example_user_def user_default_def)

end
