(* ===== verification/Pool.thy ===== *)
theory Pool
  imports Server_Laws "HOL-Library.AList"
begin

text \<open>
  \<open>src/src/pool.rs\<close>: the connection pool of a database and user.  It keeps, for every shard, the
  addresses of its servers and the list of banned ones, and hands out connections.

  The pools of connections belong to another package: a handle of type \<open>'d\<close> stands for one of them, and
  the answers to a checkout are part of the environment of \<open>pool_get\<close>, together with the random
  shuffle and the readings of the clocks.  The statistics and the error count of an address are
  shared between its copies; the pool keeps them by the identifier of the address, and a connection
  loads the former before it changes them and stores them back.
\<close>

section \<open>State\<close>

datatype ban_reason = FailedHealthCheck | MessageSendFailed | MessageReceiveFailed | FailedCheckout | StatementTimeout
  | AdminBan i64

text \<open>For each shard, the banned addresses with the reason and the time in seconds.\<close>

type_synonym ban_list = "(address \<times> ban_reason \<times> i64) list list"

record ('d, 'p) connection_pool =
  cp_databases :: "'d list list"
  cp_addresses :: "address list list"
  cp_banlist :: ban_list
  cp_address_stats :: "usize \<Rightarrow> address_stats"
  cp_error_count :: "usize \<Rightarrow> u64"
  cp_original_server_parameters :: server_parameters
  cp_settings :: pool_settings
  cp_validated :: bool
  cp_config_hash :: u64
  cp_paused :: bool
  cp_auth_hash :: "string option"
  cp_prepared_statement_cache :: "'p option"

text \<open>\<open>xs[i]\<close>\<close>

definition at_index :: "'a list \<Rightarrow> usize \<Rightarrow> 'a result" where
  "at_index xs i = (if unat i < length xs then Ok (xs ! unat i) else Panic)"

definition pool_shards :: "('d, 'p) connection_pool \<Rightarrow> usize" where
  "pool_shards self = of_nat (length (cp_databases self))"

definition valid_shard_id :: "usize option \<Rightarrow> ('d, 'p) connection_pool \<Rightarrow> bool" where
  "valid_shard_id shard_no self = (case shard_no of None \<Rightarrow> True | Some shard_no \<Rightarrow> shard_no < pool_shards self)"

definition pool_servers :: "usize \<Rightarrow> ('d, 'p) connection_pool \<Rightarrow> usize result" where
  "pool_servers shard_no self = rbind (at_index (cp_addresses self) shard_no) (\<lambda>servers. Ok (of_nat (length servers)))"

definition pool_address :: "usize \<Rightarrow> usize \<Rightarrow> ('d, 'p) connection_pool \<Rightarrow> address result" where
  "pool_address shard_no server self = rbind (at_index (cp_addresses self) shard_no) (\<lambda>servers. at_index servers server)"

definition pool_database :: "usize \<Rightarrow> usize \<Rightarrow> ('d, 'p) connection_pool \<Rightarrow> 'd result" where
  "pool_database shard_no server self = rbind (at_index (cp_databases self) shard_no) (\<lambda>dbs. at_index dbs server)"

fun total_servers :: "nat \<Rightarrow> ('d, 'p) connection_pool \<Rightarrow> usize result" where
  "total_servers 0 self = Ok 0"
| "total_servers (Suc n) self =
     rbind (total_servers n self) (\<lambda>databases. rbind (pool_servers (of_nat n) self) (\<lambda>servers. Ok (databases + servers)))"

definition pool_databases :: "('d, 'p) connection_pool \<Rightarrow> usize result" where
  "pool_databases self = total_servers (length (cp_databases self)) self"

definition get_bans :: "('d, 'p) connection_pool \<Rightarrow> (address \<times> ban_reason \<times> i64) list" where
  "get_bans self = concat (cp_banlist self)"

fun collect_from_host :: "nat \<Rightarrow> string \<Rightarrow> ('d, 'p) connection_pool \<Rightarrow> address list result" where
  "collect_from_host 0 host self = Ok []"
| "collect_from_host (Suc n) host self =
     rbind (collect_from_host n host self) (\<lambda>addresses.
     rbind (at_index (cp_addresses self) (of_nat n)) (\<lambda>servers.
     Ok (addresses @ filter (\<lambda>address. a_host address = host) servers)))"

definition get_addresses_from_host :: "string \<Rightarrow> ('d, 'p) connection_pool \<Rightarrow> address list result" where
  "get_addresses_from_host host self = collect_from_host (length (cp_databases self)) host self"

definition pool_pause :: "('d, 'p) connection_pool \<Rightarrow> ('d, 'p) connection_pool" where
  "pool_pause self = self\<lparr>cp_paused := True\<rparr>"

definition pool_resume :: "('d, 'p) connection_pool \<Rightarrow> ('d, 'p) connection_pool" where
  "pool_resume self = self\<lparr>cp_paused := False\<rparr>"

text \<open>Whether a client has to wait for the pool to be resumed.\<close>

definition wait_paused :: "('d, 'p) connection_pool \<Rightarrow> bool" where
  "wait_paused self = cp_paused self"

text \<open>The tasks of \<open>validate\<close>, in the order in which they finish: the parameters of the connections
  that could be made.\<close>

definition validate_task :: "server_parameters option \<Rightarrow> ('d, 'p) connection_pool \<Rightarrow> ('d, 'p) connection_pool" where
  "validate_task conn self =
     (case conn of
        None \<Rightarrow> self
      | Some parameters \<Rightarrow> self\<lparr>cp_original_server_parameters := parameters, cp_validated := True\<rparr>)"

definition pool_validate_connect :: "server_parameters option list \<Rightarrow> (('d, 'p) connection_pool, unit) act" where
  "pool_validate_connect tasks =
     act_bind (act_modify (fold validate_task tasks)) (\<lambda>_.
     act_get (\<lambda>self. if cp_validated self then Ok () else Err AllServersDown))"

definition register_parse_to_cache ::
  "(u64, parse_msg, 'p) lru_ops \<Rightarrow> u64 \<Rightarrow> parse_msg \<Rightarrow> ('d, 'p) connection_pool \<times> usize \<Rightarrow>
   parse_msg option \<times> ('d, 'p) connection_pool \<times> usize" where
  "register_parse_to_cache ops hash parse = (\<lambda>(self, counter).
     case cp_prepared_statement_cache self of
       Some cache \<Rightarrow>
         let (new_parse, cache, counter) = get_or_insert ops parse hash (cache, counter)
         in (Some new_parse, self\<lparr>cp_prepared_statement_cache := Some cache\<rparr>, counter)
     | None \<Rightarrow> (None, self, counter))"

definition promote_prepared_statement_hash ::
  "(u64, parse_msg, 'p) lru_ops \<Rightarrow> u64 \<Rightarrow> ('d, 'p) connection_pool \<Rightarrow> ('d, 'p) connection_pool" where
  "promote_prepared_statement_hash ops hash self =
     self\<lparr>cp_prepared_statement_cache := map_option (statement_cache_promote ops hash) (cp_prepared_statement_cache self)\<rparr>"

section \<open>Bans\<close>

definition increment_error_count :: "address \<Rightarrow> ('d, 'p) connection_pool \<Rightarrow> ('d, 'p) connection_pool" where
  "increment_error_count address self =
     self\<lparr>cp_error_count := (cp_error_count self)(a_id address := cp_error_count self (a_id address) + 1)\<rparr>"

definition reset_error_count :: "address \<Rightarrow> ('d, 'p) connection_pool \<Rightarrow> ('d, 'p) connection_pool" where
  "reset_error_count address self = self\<lparr>cp_error_count := (cp_error_count self)(a_id address := 0)\<rparr>"

definition on_address_stats ::
  "(address_stats \<Rightarrow> address_stats) \<Rightarrow> address \<Rightarrow> ('d, 'p) connection_pool \<Rightarrow> ('d, 'p) connection_pool" where
  "on_address_stats f address self =
     self\<lparr>cp_address_stats := (cp_address_stats self)(a_id address := f (cp_address_stats self (a_id address)))\<rparr>"

text \<open>\<open>guard[address.shard]\<close> changed by \<open>f\<close>.\<close>

definition on_bans ::
  "((address \<times> ban_reason \<times> i64) list \<Rightarrow> (address \<times> ban_reason \<times> i64) list) \<Rightarrow> address \<Rightarrow> (('d, 'p) connection_pool, unit) act" where
  "on_bans f address =
     act_bind (act_get (\<lambda>self. at_index (cp_banlist self) (a_shard address))) (\<lambda>bans.
     act_modify (\<lambda>self. self\<lparr>cp_banlist := (cp_banlist self)[unat (a_shard address) := f bans]\<rparr>))"

definition counts_as_error :: "ban_reason \<Rightarrow> bool" where
  "counts_as_error reason \<longleftrightarrow> reason \<in> {FailedHealthCheck, FailedCheckout, MessageSendFailed, MessageReceiveFailed}"

text \<open>\<open>ban\<close> returns the statistics of the client, which it changes.\<close>

definition ban ::
  "i64 \<Rightarrow> address \<Rightarrow> ban_reason \<Rightarrow> client_stats option \<Rightarrow> (('d, 'p) connection_pool, client_stats option) act" where
  "ban now address reason client_info =
     act_bind (act_when (counts_as_error reason) (act_modify (increment_error_count address))) (\<lambda>_.
     if a_role address = Primary then act_return client_info
     else
       act_bind (act_when (client_info \<noteq> None) (act_modify (on_address_stats address_stats_error address))) (\<lambda>_.
       act_bind (on_bans (AList.update address (reason, now)) address) (\<lambda>_.
       act_return (map_option ban_error client_info))))"

definition unban :: "address \<Rightarrow> (('d, 'p) connection_pool, unit) act" where
  "unban address = on_bans (AList.delete address) address"

definition is_banned :: "address \<Rightarrow> ('d, 'p) connection_pool \<Rightarrow> bool result" where
  "is_banned address self =
     rbind (at_index (cp_banlist self) (a_shard address)) (\<lambda>bans. Ok (map_of bans address \<noteq> None))"

text \<open>\<open>now.timestamp() - timestamp.timestamp() > limit\<close> on signed 64-bit integers.\<close>

definition exceeded_ban_time :: "i64 \<Rightarrow> i64 \<Rightarrow> ban_reason \<times> i64 \<Rightarrow> bool" where
  "exceeded_ban_time ban_time now = (\<lambda>(reason, timestamp).
     case reason of
       AdminBan duration \<Rightarrow> sint duration < sint (now - timestamp)
     | _ \<Rightarrow> sint ban_time < sint (now - timestamp))"

definition try_unban :: "i64 \<Rightarrow> address \<Rightarrow> (('d, 'p) connection_pool, bool) act" where
  "try_unban now address =
     (if a_role address = Primary then act_return True
      else
        act_bind (act_get (\<lambda>self. at_index (cp_addresses self) (a_shard address))) (\<lambda>servers.
        act_bind (act_get (\<lambda>self. at_index (cp_banlist self) (a_shard address))) (\<lambda>bans.
        if length bans = length (filter (\<lambda>addr. a_role addr = Replica) servers)
        then act_bind (on_bans (\<lambda>_. []) address) (\<lambda>_. act_return True)
        else
          act_bind (act_get (\<lambda>self. Ok (ps_ban_time (cp_settings self)))) (\<lambda>ban_time.
          case map_of bans address of
            None \<Rightarrow> act_return True
          | Some entry \<Rightarrow>
              if exceeded_ban_time ban_time now entry
              then act_bind (on_bans (AList.delete address) address) (\<lambda>_. act_return True)
              else act_return False))))"

section \<open>Checking out a connection\<close>

text \<open>
  What a call of \<open>get\<close> meets: the shuffled order, the number of connections and idle connections of a
  pool, the answer to a checkout, and for each candidate the time of day in seconds and in
  milliseconds, the time since the call started (again after a health check), the time since the
  client connected, and the progress of a health check that runs into its time limit.
\<close>

record ('d, 'c) pool_env =
  pe_shuffle :: "address list \<Rightarrow> address list"
  pe_state :: "'d \<Rightarrow> u32 \<times> u32"
  pe_get :: "'d \<Rightarrow> 'c server option"
  pe_utc :: "address \<Rightarrow> i64"
  pe_now :: "address \<Rightarrow> nat"
  pe_checked_us :: "address \<Rightarrow> u64"
  pe_elapsed_us :: "address \<Rightarrow> u64"
  pe_client_us :: "address \<Rightarrow> u64"
  pe_timeout :: "address \<Rightarrow> ('c server \<Rightarrow> 'c server) option"
  pe_start_us :: u64
  pe_end_us :: u64

text \<open>The state of a checkout: the pool, the statistics of the client, and the connections that went
  back to their pools.\<close>

record ('d, 'c, 'p) checkout =
  ck_pool :: "('d, 'p) connection_pool"
  ck_client :: client_stats
  ck_returned :: "'c server list"

definition on_pool :: "(('d, 'p) connection_pool, 'a) act \<Rightarrow> (('d, 'c, 'p) checkout, 'a) act" where
  "on_pool = act_zoom ck_pool (\<lambda>p s. s\<lparr>ck_pool := p\<rparr>)"

definition client_do :: "(client_stats \<Rightarrow> client_stats) \<Rightarrow> (('d, 'c, 'p) checkout, unit) act" where
  "client_do f = act_modify (\<lambda>s. s\<lparr>ck_client := f (ck_client s)\<rparr>)"

definition load_stats :: "('d, 'p) connection_pool \<Rightarrow> 'c server \<Rightarrow> 'c server" where
  "load_stats self = server_stats_do (\<lambda>st. st\<lparr>ss_address_stats := cp_address_stats self (a_id (ss_address st))\<rparr>)"

definition store_stats :: "'c server \<Rightarrow> ('d, 'p) connection_pool \<Rightarrow> ('d, 'p) connection_pool" where
  "store_stats server self = on_address_stats (\<lambda>_. ss_address_stats (sv_stats server)) (ss_address (sv_stats server)) self"

definition pool_ban :: "i64 \<Rightarrow> address \<Rightarrow> ban_reason \<Rightarrow> (('d, 'c, 'p) checkout, unit) act" where
  "pool_ban now address reason =
     act_bind (act_get (\<lambda>s. Ok (ck_client s))) (\<lambda>client.
     act_bind (on_pool (ban now address reason (Some client))) (\<lambda>client.
     client_do (\<lambda>c. case client of Some c \<Rightarrow> c | None \<Rightarrow> c)))"

definition run_health_check ::
  "('d, 'c) pool_env \<Rightarrow> (string, unit, 'c) lru_ops \<Rightarrow> address \<Rightarrow> 'c server \<Rightarrow> (('d, 'c, 'p) checkout, bool \<times> 'c server) act" where
  "run_health_check env ops address server =
     act_bind (act_get (\<lambda>s. Ok (server_stats_do server_tested (load_stats (ck_pool s) server), ct_application_name (ck_client s)))) (\<lambda>(server, name).
     let failed = (\<lambda>server.
           act_bind (on_pool (act_modify (store_stats server))) (\<lambda>_.
           act_bind (pool_ban (pe_utc env address) address FailedHealthCheck) (\<lambda>_.
           act_return (False, mark_bad server))))
     in case pe_timeout env address of
          Some progress \<Rightarrow> failed (progress server)
        | None \<Rightarrow>
            (case server_query ops (pe_now env address) '';'' server of
               (Ok _, server) \<Rightarrow>
                 let server = server_stats_do (\<lambda>st. server_active name (checkout_time (pe_checked_us env address) name st)) server
                 in act_bind (on_pool (act_modify (store_stats server))) (\<lambda>_.
                    act_bind (client_do (checkout_success (pe_client_us env address))) (\<lambda>_.
                    act_return (True, server)))
             | (Err _, server) \<Rightarrow> failed server
             | (Panic, _) \<Rightarrow> act_lift Panic))"

text \<open>\<open>server.last_activity().elapsed().unwrap().as_millis() > healthcheck_delay\<close>, unless forced.\<close>

definition require_healthcheck :: "bool \<Rightarrow> nat \<Rightarrow> u64 \<Rightarrow> 'c server \<Rightarrow> bool result" where
  "require_healthcheck force_healthcheck now healthcheck_delay server =
     (if force_healthcheck then Ok True
      else if now < sv_last_activity server then Panic
      else Ok (unat healthcheck_delay < now - sv_last_activity server))"

definition checked_out :: "('d, 'c) pool_env \<Rightarrow> address \<Rightarrow> 'c server \<Rightarrow> (('d, 'c, 'p) checkout, 'c server) act" where
  "checked_out env address server =
     act_bind (client_do (checkout_success (pe_client_us env address))) (\<lambda>_.
     act_bind (act_get (\<lambda>s. Ok (load_stats (ck_pool s) server, ct_application_name (ck_client s)))) (\<lambda>(server, name).
     let server = server_stats_do (\<lambda>st. server_active name (checkout_time (pe_elapsed_us env address) name st)) server
     in act_bind (on_pool (act_modify (store_stats server))) (\<lambda>_.
        act_bind (client_do client_active) (\<lambda>_.
        act_return server))))"

definition checkout_from ::
  "('d, 'c) pool_env \<Rightarrow> (string, unit, 'c) lru_ops \<Rightarrow> address \<Rightarrow> bool \<Rightarrow> (('d, 'c, 'p) checkout, 'c server option) act" where
  "checkout_from env ops address force_healthcheck =
     act_bind (act_get (\<lambda>s. pool_database (a_shard address) (a_address_index address) (ck_pool s))) (\<lambda>db.
     case pe_get env db of
       None \<Rightarrow>
         act_bind (pool_ban (pe_utc env address) address FailedCheckout) (\<lambda>_.
         act_bind (on_pool (act_modify (on_address_stats address_stats_error address))) (\<lambda>_.
         act_bind (client_do (checkout_error (pe_client_us env address))) (\<lambda>_.
         act_return None)))
     | Some server \<Rightarrow>
         act_bind (on_pool (act_modify (reset_error_count address))) (\<lambda>_.
         act_bind (act_get (\<lambda>s. require_healthcheck force_healthcheck (pe_now env address)
                                  (ps_healthcheck_delay (cp_settings (ck_pool s))) server)) (\<lambda>required.
         if \<not> required then act_bind (checked_out env address server) (\<lambda>server. act_return (Some server))
         else
           act_bind (run_health_check env ops address server) (\<lambda>(healthy, server).
           if healthy then act_bind (checked_out env address server) (\<lambda>server. act_return (Some server))
           else
             act_bind (act_modify (\<lambda>s. s\<lparr>ck_returned := ck_returned s @ [server]\<rparr>)) (\<lambda>_.
             act_return None)))))"

definition try_candidate ::
  "('d, 'c) pool_env \<Rightarrow> (string, unit, 'c) lru_ops \<Rightarrow> address \<Rightarrow> (('d, 'c, 'p) checkout, 'c server option) act" where
  "try_candidate env ops address =
     act_bind (act_get (\<lambda>s. is_banned address (ck_pool s))) (\<lambda>banned.
     act_bind (if banned then on_pool (try_unban (pe_utc env address) address) else act_return True) (\<lambda>usable.
     if usable then checkout_from env ops address banned else act_return None))"

text \<open>The candidates in the order in which they are popped.\<close>

fun try_candidates ::
  "('d, 'c) pool_env \<Rightarrow> (string, unit, 'c) lru_ops \<Rightarrow> address list \<Rightarrow> (('d, 'c, 'p) checkout, 'c server \<times> address) act" where
  "try_candidates env ops [] =
     act_bind (client_do (checkout_error (pe_end_us env))) (\<lambda>_. act_lift (Err AllServersDown))"
| "try_candidates env ops (address # candidates) =
     act_bind (try_candidate env ops address) (\<lambda>conn.
     case conn of
       Some server \<Rightarrow> act_return (server, address)
     | None \<Rightarrow> try_candidates env ops candidates)"

definition busy_connection_count :: "('d, 'c) pool_env \<Rightarrow> address \<Rightarrow> ('d, 'p) connection_pool \<Rightarrow> u32 result" where
  "busy_connection_count env address self =
     rbind (pool_database (a_shard address) (a_address_index address) self) (\<lambda>db.
     let (provisioned, idle) = pe_state env db
     in Ok (if provisioned < idle then 0 else provisioned - idle))"

text \<open>A stable sort, largest count first; the comparison is called when there are two candidates.\<close>

definition sort_descending :: "(address \<Rightarrow> nat) \<Rightarrow> address list \<Rightarrow> address list" where
  "sort_descending count = sort_key (\<lambda>address. - int (count address))"

definition sort_by_busy :: "('d, 'c) pool_env \<Rightarrow> ('d, 'p) connection_pool \<Rightarrow> address list \<Rightarrow> address list result" where
  "sort_by_busy env self candidates =
     (if 2 \<le> length candidates \<and> list_ex (\<lambda>address. busy_connection_count env address self = Panic) candidates then Panic
      else Ok (sort_descending (\<lambda>address. case busy_connection_count env address self of Ok n \<Rightarrow> unat n | _ \<Rightarrow> 0) candidates))"

definition get_candidates ::
  "('d, 'c) pool_env \<Rightarrow> usize option \<Rightarrow> role option \<Rightarrow> ('d, 'p) connection_pool \<Rightarrow> address list result" where
  "get_candidates env effective_shard_id role self =
     (let candidates = pe_shuffle env (filter (\<lambda>address. role_matches (a_role address) role) (concat (cp_addresses self)));
          candidates =
            (case effective_shard_id of
               Some shard_id \<Rightarrow> filter (\<lambda>address. a_shard address = shard_id) candidates
             | None \<Rightarrow>
                 (case ps_default_shard (cp_settings self) of
                    Shard shard_id \<Rightarrow> filter (\<lambda>address. a_shard address = shard_id) candidates
                  | RandomShard \<Rightarrow> candidates
                  | RandomHealthy \<Rightarrow> sort_descending (\<lambda>address. unat (cp_error_count self (a_id address))) candidates))
      in if ps_load_balancing_mode (cp_settings self) = LeastOutstandingConnections
         then sort_by_busy env self candidates
         else Ok candidates)"

definition effective_shard :: "usize option \<Rightarrow> ('d, 'p) connection_pool \<Rightarrow> usize option result" where
  "effective_shard shard_no self =
     (if pool_shards self = 1 then Ok (Some 0)
      else if \<not> valid_shard_id shard_no self
      then rbind (unwrap shard_no) (\<lambda>shard_no. Err (InvalidShardId shard_no))
      else Ok shard_no)"

definition pool_get ::
  "('d, 'c) pool_env \<Rightarrow> (string, unit, 'c) lru_ops \<Rightarrow> usize option \<Rightarrow> role option \<Rightarrow> (('d, 'c, 'p) checkout, 'c server \<times> address) act" where
  "pool_get env ops shard_no role =
     act_bind (act_get (\<lambda>s. effective_shard shard_no (ck_pool s))) (\<lambda>effective_shard_id.
     act_bind (act_get (\<lambda>s. get_candidates env effective_shard_id role (ck_pool s))) (\<lambda>candidates.
     act_bind (client_do (client_waiting (pe_start_us env))) (\<lambda>_.
     try_candidates env ops (rev candidates))))"

end
