(* ===== verification/Auth_Passthrough.thy ===== *)
theory Auth_Passthrough
  imports Server_Startup Pool
begin

text \<open>
  \<open>src/src/auth_passthrough.rs\<close>: password hashes that are read from a server, with the query function of
  \<open>src/src/server.rs\<close> they use; and the connections a pool makes (\<open>ServerPool::connect\<close> in
  \<open>src/src/pool.rs\<close>, with the prewarming of \<open>src/src/plugins/prewarmer.rs\<close>).

  The parser of backend messages belongs to another package.  It is an argument: it takes a message off
  the buffer, or returns \<open>None\<close> for an incomplete one; \<open>show_debug\<close>, the debug text of a string, is one too.
\<close>

section \<open>Reading the rows of a query\<close>

text \<open>The messages \<open>parse_query_message\<close> tells apart: the values of the fields of an error and the columns of
  a row, each with the errors of the iterator over them.\<close>

datatype backend_message = RowDescription | ErrorResponse "(string, string) outcome list" | DataRow "(string, bytes option) outcome list"
  | CommandComplete | ReadyForQuery | OtherMessage

type_synonym backend_parser = "bytes \<Rightarrow> (string, (backend_message \<times> bytes) option) outcome"

fun row_columns :: "(string, bytes option) outcome list \<Rightarrow> string list result" where
  "row_columns [] = Ok []"
| "row_columns (item # items) =
     (case item of
        Ok (Some column) \<Rightarrow> rbind (row_columns items) (\<lambda>pair. Ok (from_utf8_lossy column # pair))
      | Ok None \<Rightarrow> Err (ProtocolSyncError ''Data expected while receiving query auth data, found nothing.'')
      | Err err \<Rightarrow> Err (ProtocolSyncError (''Data error, err: '' @ err))
      | Panic \<Rightarrow> Panic)"

text \<open>The text of an error: an error of the iterator is unwrapped, which panics.\<close>

fun error_fields :: "(string, string) outcome list \<Rightarrow> string result" where
  "error_fields [] = Ok []"
| "error_fields (element # elements) =
     (case element of
        Ok value \<Rightarrow> rbind (error_fields elements) (\<lambda>acc. Ok (value @ acc))
      | _ \<Rightarrow> Panic)"

text \<open>The loop over the rest of the buffer.\<close>

partial_function (option) parse_query_rows :: "backend_parser \<Rightarrow> string list \<Rightarrow> bytes \<Rightarrow> string list result option" where
  "parse_query_rows parse pair message =
     (if message = [] then Some (Ok pair)
      else (case parse message of
              Ok (Some (DataRow items, rest)) \<Rightarrow>
                (case row_columns items of
                   Ok columns \<Rightarrow> parse_query_rows parse (pair @ columns) rest
                 | Err e \<Rightarrow> Some (Err e)
                 | Panic \<Rightarrow> Some Panic)
            | Ok (Some (CommandComplete, rest)) \<Rightarrow> parse_query_rows parse pair rest
            | Ok (Some (ReadyForQuery, rest)) \<Rightarrow> parse_query_rows parse pair rest
            | Ok _ \<Rightarrow> Some (Err (ProtocolSyncError ''Unexpected message while receiving auth query data.''))
            | Err err \<Rightarrow> Some (Err (ProtocolSyncError (''Parse error, err: '' @ err)))
            | Panic \<Rightarrow> Some Panic))"

definition parse_query_message :: "backend_parser \<Rightarrow> (string \<Rightarrow> string) \<Rightarrow> bytes \<Rightarrow> string list result option" where
  "parse_query_message parse show_debug message =
     (case parse message of
        Ok (Some (RowDescription, rest)) \<Rightarrow> parse_query_rows parse [] rest
      | Ok (Some (ErrorResponse err_fields, rest)) \<Rightarrow>
          Some (rbind (error_fields err_fields) (\<lambda>text.
            Err (ProtocolSyncError (''Protocol error parsing response. Err: '' @ show_debug text))))
      | Ok _ \<Rightarrow> Some (Err (ProtocolSyncError ''Protocol error, expected Row Description.''))
      | Err err \<Rightarrow> Some (Err (ProtocolSyncError (''Protocol error parsing response. Err: '' @ err)))
      | Panic \<Rightarrow> Some Panic)"

text \<open>What the parser promises: a message it returns is taken off the buffer.\<close>

definition takes_off :: "backend_parser \<Rightarrow> bool" where
  "takes_off parse \<longleftrightarrow> (\<forall>bs m rest. parse bs = Ok (Some (m, rest)) \<longrightarrow> length rest < length bs)"

lemma parse_query_rows_returns: "takes_off parse \<Longrightarrow> \<exists>r. parse_query_rows parse pair message = Some r"
proof (induction "length message" arbitrary: pair message rule: less_induct)
  case less
  have "\<exists>r. parse_query_rows parse p rest = Some r" if "parse message = Ok (Some (m, rest))" for m rest p
    using less that by (auto simp: takes_off_def)
  then show ?case
    by (subst parse_query_rows.simps) (auto split: outcome.split option.split prod.split backend_message.split)
qed

lemma parse_query_message_returns: "takes_off parse \<Longrightarrow> \<exists>r. parse_query_message parse show_debug message = Some r"
  using parse_query_rows_returns
  by (auto simp: parse_query_message_def split: outcome.split option.split prod.split backend_message.split)

text \<open>One \<open>recv\<close> on a fresh connection, with no statement cache.\<close>

definition exec_simple_query ::
  "startup_env \<Rightarrow> (string, unit, 'c) lru_ops \<Rightarrow> backend_parser \<Rightarrow> (string \<Rightarrow> string) \<Rightarrow> general \<Rightarrow> address \<Rightarrow> user \<Rightarrow> string \<Rightarrow> cached_resolver \<Rightarrow>
   string list result option \<times> cached_resolver" where
  "exec_simple_query env ops parse show_debug general address user query resolver =
     (case server_startup env ops general address user (a_database address) server_stats_default None True 0 resolver of
        (Ok server, resolver) \<Rightarrow>
          (case act_bind (server_send (se_now env) (simple_query query)) (\<lambda>_. server_recv_none ops (se_now env)) server of
             (Ok message, _) \<Rightarrow> parse_query_message parse show_debug message
           | (Err e, _) \<Rightarrow> Some (Err e)
           | (Panic, _) \<Rightarrow> Some Panic, resolver)
      | (Err e, resolver) \<Rightarrow> (Some (Err e), resolver)
      | (Panic, resolver) \<Rightarrow> (Some Panic, resolver))"

section \<open>Password hashes\<close>

record auth_passthrough =
  ap_password :: string
  ap_query :: string
  ap_user :: string

definition auth_passthrough_new :: "string \<Rightarrow> string \<Rightarrow> string \<Rightarrow> auth_passthrough" where
  "auth_passthrough_new query user password = \<lparr> ap_password = password, ap_query = query, ap_user = user \<rparr>"

definition from_pool_config :: "pool_config \<Rightarrow> auth_passthrough option result" where
  "from_pool_config pool_config =
     (if pool_is_auth_query_configured pool_config
      then rbind (unwrap (pc_auth_query pool_config)) (\<lambda>query.
           rbind (unwrap (pc_auth_query_user pool_config)) (\<lambda>user.
           rbind (unwrap (pc_auth_query_password pool_config)) (\<lambda>password.
           Ok (Some (auth_passthrough_new query user password)))))
      else Ok None)"

definition from_pool_settings :: "pool_settings \<Rightarrow> auth_passthrough option result" where
  "from_pool_settings pool_settings =
     from_pool_config (pool_default\<lparr>pc_auth_query := ps_auth_query pool_settings,
       pc_auth_query_password := ps_auth_query_password pool_settings, pc_auth_query_user := ps_auth_query_user pool_settings\<rparr>)"

definition auth_user :: "auth_passthrough \<Rightarrow> user" where
  "auth_user self =
     \<lparr> u_username = ap_user self, u_password = Some (ap_password self), u_auth_type = MD5, u_server_username = None,
       u_server_password = None, u_pool_size = 1, u_min_pool_size = None, u_pool_mode = None, u_server_lifetime = None,
       u_statement_timeout = 0, u_connect_timeout = None, u_idle_timeout = None \<rparr>"

text \<open>The decision on the data the query returned; \<open>show_error\<close> is the debug text of an error.\<close>

definition hash_from_data :: "(error \<Rightarrow> string) \<Rightarrow> string \<Rightarrow> string list result \<Rightarrow> string result" where
  "hash_from_data show_error user password_data =
     (case password_data of
        Ok password_data \<Rightarrow>
          if length password_data = 2 \<and> password_data ! 0 = user
          then (case strip_prefix ''md5'' (last password_data) of
                  Some stripped_hash \<Rightarrow> Ok stripped_hash
                | None \<Rightarrow> Err (AuthPassthroughError ''Obtained hash from auth_query does not seem to be in md5 format.''))
          else Err (AuthPassthroughError (''Data obtained from query does not follow the scheme ''
                 @ [CHR 0x27] @ ''user'' @ [CHR 0x27] @ '','' @ [CHR 0x27] @ ''hash'' @ [CHR 0x27] @ ''.''))
      | Err err \<Rightarrow> Err (AuthPassthroughError (''Error trying to obtain password from auth_query, ignoring hash for user ''
                 @ [CHR 0x27] @ user @ [CHR 0x27] @ ''. Error: '' @ show_error err))
      | Panic \<Rightarrow> Panic)"

text \<open>\<open>exec\<close> is \<open>exec_simple_query\<close> on an address, as a user, with a query.\<close>

definition fetch_hash ::
  "(address \<Rightarrow> user \<Rightarrow> string \<Rightarrow> string list result) \<Rightarrow> (error \<Rightarrow> string) \<Rightarrow> address \<Rightarrow> auth_passthrough \<Rightarrow> string result" where
  "fetch_hash exec show_error address self =
     hash_from_data show_error (a_username address)
       (exec address (auth_user self) (replace_all ''$1'' (a_username address) (ap_query self)))"

definition refetch_auth_hash ::
  "(address \<Rightarrow> user \<Rightarrow> string \<Rightarrow> string list result) \<Rightarrow> (error \<Rightarrow> string) \<Rightarrow> (string \<Rightarrow> string) \<Rightarrow> ('d, 'p) connection_pool \<Rightarrow> string result" where
  "refetch_auth_hash exec show_error quoted pool =
     rbind (pool_address 0 0 pool) (\<lambda>address.
     rbind (from_pool_settings (cp_settings pool)) (\<lambda>apt.
     case apt of
       Some apt \<Rightarrow> fetch_hash exec show_error address apt
     | None \<Rightarrow> Err (ClientError (''Could not obtain hash for { username: '' @ quoted (a_username address)
          @ '', database: '' @ quoted (a_database address) @ '' }. Auth passthrough not enabled.''))))"

section \<open>Connections of a pool\<close>

fun prewarm_queries :: "(string, unit, 'c) lru_ops \<Rightarrow> nat \<Rightarrow> string list \<Rightarrow> ('c server, unit) act" where
  "prewarm_queries ops now [] = act_return ()"
| "prewarm_queries ops now (query # queries) =
     act_bind (server_query ops now query) (\<lambda>_. prewarm_queries ops now queries)"

definition prewarmer_run :: "(string, unit, 'c) lru_ops \<Rightarrow> nat \<Rightarrow> prewarmer \<Rightarrow> ('c server, unit) act" where
  "prewarmer_run ops now self = (if \<not> pw_enabled self then act_return () else prewarm_queries ops now (pw_queries self))"

record server_pool_manager =
  sp_address :: address
  sp_user :: user
  sp_database :: string
  sp_plugins :: "plugins option"
  sp_cleanup_connections :: bool
  sp_prepared_statement_cache_size :: usize

definition server_pool_manager_new ::
  "address \<Rightarrow> user \<Rightarrow> string \<Rightarrow> plugins option \<Rightarrow> bool \<Rightarrow> usize \<Rightarrow> server_pool_manager" where
  "server_pool_manager_new address user database plugins cleanup_connections prepared_statement_cache_size =
     \<lparr> sp_address = address, sp_user = user, sp_database = database, sp_plugins = plugins,
       sp_cleanup_connections = cleanup_connections, sp_prepared_statement_cache_size = prepared_statement_cache_size \<rparr>"

definition run_prewarmer :: "(string, unit, 'c) lru_ops \<Rightarrow> nat \<Rightarrow> plugins option \<Rightarrow> ('c server, unit) act" where
  "run_prewarmer ops now plugins =
     (case plugins of
        None \<Rightarrow> act_return ()
      | Some plugins \<Rightarrow> (case pl_prewarmer plugins of None \<Rightarrow> act_return () | Some prewarmer \<Rightarrow> prewarmer_run ops now prewarmer))"

text \<open>
  \<open>ServerPool::connect\<close>: \<open>random\<close> is the identifier of the new statistics, \<open>astats\<close> the counters of the
  address, \<open>auth_hash\<close> the hash the pool has.  A connection that fails to prewarm is dropped.
\<close>

definition manager_connect ::
  "startup_env \<Rightarrow> (string, unit, 'c) lru_ops \<Rightarrow> general \<Rightarrow> i32 \<Rightarrow> address_stats \<Rightarrow> string option \<Rightarrow> server_pool_manager \<Rightarrow>
   server_states_lookup \<times> cached_resolver \<Rightarrow> 'c server result \<times> server_states_lookup \<times> cached_resolver" where
  "manager_connect env ops general random astats auth_hash self = (\<lambda>(lookup, resolver).
     let (stats, lookup) = server_register (server_stats_new random (sp_address self) astats) lookup
     in case server_startup env ops general (sp_address self) (sp_user self) (sp_database self) stats auth_hash
               (sp_cleanup_connections self) (sp_prepared_statement_cache_size self) resolver of
          (Ok conn, resolver) \<Rightarrow>
            (case run_prewarmer ops (se_now env) (sp_plugins self) conn of
               (Ok _, conn) \<Rightarrow>
                 let conn = server_stats_do server_idle conn
                 in (Ok conn, lookup(ss_server_id (sv_stats conn) \<mapsto> sv_stats conn), resolver)
             | (Err e, conn) \<Rightarrow> (Err e, snd (server_drop conn lookup), resolver)
             | (Panic, conn) \<Rightarrow> (Panic, snd (server_drop conn lookup), resolver))
        | (Err e, resolver) \<Rightarrow> (Err e, server_disconnect stats lookup, resolver)
        | (Panic, resolver) \<Rightarrow> (Panic, lookup, resolver))"

definition manager_has_broken :: "cached_resolver \<Rightarrow> 'c server \<Rightarrow> bool" where
  "manager_has_broken = is_bad"

section \<open>Properties\<close>

text \<open>
  The hash is taken only from an answer of the agreed form.  \<open>fetch_hash\<close> succeeds exactly when the query,
  with the name of the user in place of \<open>$1\<close>, returned two values: the name of the user and a hash
  that starts with \<open>md5\<close>, which is cut off.  It asks as the configured user, and every other answer
  and every failure of the query is reported as an error of auth passthrough.
\<close>

theorem fetch_hash_spec:
  "(\<forall>h. fetch_hash exec show_error address self = Ok h \<longleftrightarrow>
      exec address (auth_user self) (replace_all ''$1'' (a_username address) (ap_query self)) = Ok [a_username address, ''md5'' @ h])
   \<and> (case fetch_hash exec show_error address self of Err e \<Rightarrow> \<exists>text. e = AuthPassthroughError text | _ \<Rightarrow> True)"
proof -
  have "length ps = 2 \<and> ps ! 0 = u \<and> last ps = v \<longleftrightarrow> ps = [u, v]" for ps :: "string list" and u v
    by (cases ps; cases "tl ps") auto
  then show ?thesis
    by (auto simp: fetch_hash_def hash_from_data_def strip_prefix_Some split: outcome.splits option.splits if_splits)
qed

text \<open>
  Incomplete settings of auth passthrough end in a panic.  Reading them panics exactly when the user and
  the password are set but the query is not, because the check that should cover the three settings
  tests the password twice.
\<close>

theorem from_pool_config_panics:
  "from_pool_config pool = Panic \<longleftrightarrow>
     pc_auth_query pool = None \<and> pc_auth_query_user pool \<noteq> None \<and> pc_auth_query_password pool \<noteq> None"
  by (cases "pc_auth_query pool") (auto simp: from_pool_config_def pool_is_auth_query_configured_def rbind_Panic_iff)

end
