(* ===== verification/Pool_Laws.thy ===== *)
theory Pool_Laws
  imports Pool "HOL-Library.Multiset"
begin

text \<open>
  Properties of the connection pool: the invariant of the ban list and that every operation keeps it, what
  a checkout returns, and that it succeeds when a server can be used.
\<close>

section \<open>Invariant\<close>

text \<open>The address at position \<open>j\<close> of shard \<open>i\<close> carries these numbers.\<close>

definition aligned :: "'d list list \<Rightarrow> address list list \<Rightarrow> bool" where
  "aligned dbs addrs \<longleftrightarrow> length dbs = length addrs \<and> length addrs < 2 ^ 64
     \<and> (\<forall>i < length addrs. length (dbs ! i) = length (addrs ! i) \<and> length (addrs ! i) < 2 ^ 64
          \<and> (\<forall>j < length (addrs ! i). unat (a_shard (addrs ! i ! j)) = i \<and> unat (a_address_index (addrs ! i ! j)) = j))"

text \<open>Each shard bans some of its own servers, none of them a primary.\<close>

definition bans_ok :: "address list list \<Rightarrow> ban_list \<Rightarrow> bool" where
  "bans_ok addrs bans \<longleftrightarrow> length bans = length addrs
     \<and> (\<forall>i < length addrs. distinct (map fst (bans ! i)) \<and> (\<forall>a \<in> fst ` set (bans ! i). a \<in> set (addrs ! i) \<and> a_role a \<noteq> Primary))"

definition pool_inv :: "('d, 'p) connection_pool \<Rightarrow> bool" where
  "pool_inv p \<longleftrightarrow> aligned (cp_databases p) (cp_addresses p) \<and> bans_ok (cp_addresses p) (cp_banlist p)"

text \<open>What no operation of a pool changes.\<close>

definition layout :: "('d, 'p) connection_pool \<Rightarrow> 'd list list \<times> address list list \<times> pool_settings" where
  "layout p = (cp_databases p, cp_addresses p, cp_settings p)"

definition pool_at :: "'d list list \<times> address list list \<times> pool_settings \<Rightarrow> ('d, 'p) connection_pool \<Rightarrow> bool" where
  "pool_at l p \<longleftrightarrow> pool_inv p \<and> layout p = l"

definition members :: "'d list list \<times> address list list \<times> pool_settings \<Rightarrow> address set" where
  "members l = set (concat (fst (snd l)))"

lemma aligned_member:
  assumes "aligned dbs addrs" "a \<in> set (concat addrs)"
  shows "unat (a_shard a) < length addrs" "unat (a_address_index a) < length (addrs ! unat (a_shard a))"
    and "addrs ! unat (a_shard a) ! unat (a_address_index a) = a"
proof -
  from assms(2) obtain i j where ij: "i < length addrs" "j < length (addrs ! i)" "a = addrs ! i ! j"
    by (auto simp: in_set_conv_nth)
  with assms(1) have "unat (a_shard a) = i" "unat (a_address_index a) = j" by (auto simp: aligned_def)
  with ij show "unat (a_shard a) < length addrs" "unat (a_address_index a) < length (addrs ! unat (a_shard a))"
    "addrs ! unat (a_shard a) ! unat (a_address_index a) = a" by auto
qed

lemma aligned_nth_member: "aligned dbs addrs \<Longrightarrow> i < length addrs \<Longrightarrow> a \<in> set (addrs ! i) \<Longrightarrow> unat (a_shard a) = i"
  by (auto simp: aligned_def in_set_conv_nth)

lemma aligned_distinct: "aligned dbs addrs \<Longrightarrow> i < length addrs \<Longrightarrow> distinct (addrs ! i)"
  by (auto simp: aligned_def distinct_conv_nth) metis

lemma member_shard: "aligned dbs addrs \<Longrightarrow> a \<in> set (concat addrs) \<Longrightarrow> a \<in> set (addrs ! unat (a_shard a))"
  using aligned_member [of dbs addrs a] nth_mem by metis

lemma pool_atD:
  assumes "pool_at l p"
  shows "aligned (cp_databases p) (cp_addresses p)" "bans_ok (cp_addresses p) (cp_banlist p)" "members l = set (concat (cp_addresses p))"
    "layout p = l"
  using assms by (auto simp: pool_at_def pool_inv_def members_def layout_def)

lemma pool_at_index:
  assumes "pool_at l p" "a \<in> members l"
  shows "at_index (cp_banlist p) (a_shard a) = Ok (cp_banlist p ! unat (a_shard a))"
    and "at_index (cp_addresses p) (a_shard a) = Ok (cp_addresses p ! unat (a_shard a))"
    and "pool_database (a_shard a) (a_address_index a) p = Ok (cp_databases p ! unat (a_shard a) ! unat (a_address_index a))"
  using pool_atD [OF assms(1)] assms(2) aligned_member [of "cp_databases p" "cp_addresses p" a]
  by (auto simp: at_index_def bans_ok_def pool_database_def aligned_def)

lemma keeps_pool_modify:
  "(\<And>p. layout (f p) = layout p \<and> cp_banlist (f p) = cp_banlist p) \<Longrightarrow> keeps (pool_at l) (act_modify f)"
  by (rule keeps_modify) (auto simp: pool_at_def pool_inv_def layout_def)

lemma bans_ok_update:
  assumes "bans_ok addrs bans" "distinct (map fst b)" "\<forall>x \<in> fst ` set b. x \<in> set (addrs ! i) \<and> a_role x \<noteq> Primary"
  shows "bans_ok addrs (bans[i := b])"
proof -
  have "distinct (map fst (bans[i := b] ! k)) \<and> (\<forall>a \<in> fst ` set (bans[i := b] ! k). a \<in> set (addrs ! k) \<and> a_role a \<noteq> Primary)"
    if "k < length addrs" for k
    using assms that by (cases "k = i") (auto simp: bans_ok_def)
  then show ?thesis using assms(1) by (simp add: bans_ok_def)
qed

lemma keeps_on_bans:
  assumes "a \<in> members l"
    and f: "\<And>bans. distinct (map fst bans) \<Longrightarrow> distinct (map fst (f bans)) \<and> fst ` set (f bans) \<subseteq> fst ` set bans \<union> (if a_role a = Primary then {} else {a})"
  shows "keeps (pool_at l) (on_bans f a)"
  unfolding keeps_def
proof (intro allI impI)
  fix p assume p: "pool_at l p"
  let ?i = "unat (a_shard a)" let ?b = "cp_banlist p ! ?i" let ?p = "p\<lparr>cp_banlist := (cp_banlist p)[?i := f ?b]\<rparr>"
  have run: "snd (on_bans f a p) = ?p"
    using pool_at_index(1) [OF p assms(1)] by (simp add: on_bans_def act_bind_def act_get_def act_modify_def)
  note d = pool_atD [OF p]
  have i: "?i < length (cp_addresses p)" "a \<in> set (cp_addresses p ! ?i)"
    using aligned_member(1) [OF d(1)] member_shard [OF d(1)] assms(1) d(3) by auto
  then have "distinct (map fst ?b)" "\<forall>x \<in> fst ` set ?b. x \<in> set (cp_addresses p ! ?i) \<and> a_role x \<noteq> Primary" using d(2) by (auto simp: bans_ok_def)
  moreover from this(1) f [of ?b] have ds: "distinct (map fst (f ?b))"
    and sub: "fst ` set (f ?b) \<subseteq> fst ` set ?b \<union> (if a_role a = Primary then {} else {a})" by auto
  have "x \<in> fst ` set ?b \<or> x = a \<and> a_role a \<noteq> Primary" if "x \<in> fst ` set (f ?b)" for x
    using subsetD [OF sub that] by (simp only: Un_iff split: if_splits) simp_all
  ultimately have "distinct (map fst (f ?b)) \<and> (\<forall>x \<in> fst ` set (f ?b). x \<in> set (cp_addresses p ! ?i) \<and> a_role x \<noteq> Primary)"
    using i(2) ds by blast
  with d(2) have "bans_ok (cp_addresses p) ((cp_banlist p)[?i := f ?b])" by (intro bans_ok_update) auto
  with p show "pool_at l (snd (on_bans f a p))" unfolding run by (auto simp: pool_at_def pool_inv_def layout_def)
qed

lemma on_bans_delete: "distinct (map fst bans) \<Longrightarrow> distinct (map fst (AList.delete a bans)) \<and> fst ` set (AList.delete a bans) \<subseteq> fst ` set bans \<union> X"
  using AList.distinct_delete [of bans a] by (auto simp: AList.delete_eq)

lemmas pool_updates = layout_def increment_error_count_def reset_error_count_def on_address_stats_def store_stats_def

lemma keeps_ban: "a \<in> members l \<Longrightarrow> keeps (pool_at l) (ban now a reason client)"
  unfolding ban_def
  by (intro keeps_intro keeps_pool_modify keeps_on_bans)
     (auto simp: pool_updates AList.distinct_update AList.dom_update)

lemma keeps_unban: "a \<in> members l \<Longrightarrow> keeps (pool_at l) (unban a)"
  unfolding unban_def by (intro keeps_on_bans on_bans_delete)

lemma keeps_try_unban: "a \<in> members l \<Longrightarrow> keeps (pool_at l) (try_unban now a)"
  unfolding try_unban_def by (intro keeps_intro keeps_on_bans on_bans_delete) auto

section \<open>The checkout keeps the invariant\<close>

lemma keeps_on_pool: "keeps P m \<Longrightarrow> keeps (\<lambda>s. P (ck_pool s)) (on_pool m)"
  unfolding on_pool_def by (rule keeps_zoom) (auto dest: keepsD)

lemma keeps_client_do [keeps_intro]: "(\<And>s f. P s \<Longrightarrow> P (s\<lparr>ck_client := f (ck_client s)\<rparr>)) \<Longrightarrow> keeps P (client_do f)"
  unfolding client_do_def by (rule keeps_modify) simp

abbreviation checkout_at :: "'d list list \<times> address list list \<times> pool_settings \<Rightarrow> ('d, 'c, 'p) checkout \<Rightarrow> bool" where
  "checkout_at l \<equiv> (\<lambda>s. pool_at l (ck_pool s))"

lemma keeps_pool_ban: "a \<in> members l \<Longrightarrow> keeps (checkout_at l) (pool_ban now a reason)"
  unfolding pool_ban_def by (intro keeps_intro keeps_on_pool keeps_ban) auto

lemma keeps_store_stats: "keeps (checkout_at l) (on_pool (act_modify (store_stats server)))"
  by (intro keeps_on_pool keeps_pool_modify) (simp add: pool_updates)

lemma keeps_run_health_check: "a \<in> members l \<Longrightarrow> keeps (checkout_at l) (run_health_check env ops a server)"
  unfolding run_health_check_def Let_def
  by (intro keeps_intro keeps_store_stats keeps_pool_ban) auto

lemma keeps_checked_out: "keeps (checkout_at l) (checked_out env a server)"
  unfolding checked_out_def Let_def by (intro keeps_intro keeps_store_stats) auto

lemma keeps_checkout_from: "a \<in> members l \<Longrightarrow> keeps (checkout_at l) (checkout_from env ops a force)"
  unfolding checkout_from_def
  by (intro keeps_intro keeps_pool_ban keeps_checked_out keeps_run_health_check keeps_on_pool keeps_pool_modify)
     (auto simp: pool_updates)

lemma keeps_try_candidate: "a \<in> members l \<Longrightarrow> keeps (checkout_at l) (try_candidate env ops a)"
  unfolding try_candidate_def by (intro keeps_intro keeps_checkout_from keeps_on_pool keeps_try_unban) auto

lemma keeps_try_candidates: "set cs \<subseteq> members l \<Longrightarrow> keeps (checkout_at l) (try_candidates env ops cs)"
proof (induction cs)
  case Nil
  show ?case unfolding try_candidates.simps by (intro keeps_intro) auto
next
  case (Cons a cs)
  then show ?case unfolding try_candidates.simps by (intro keeps_intro keeps_try_candidate) auto
qed

section \<open>Candidates\<close>

definition shard_selected :: "usize option \<Rightarrow> default_shard \<Rightarrow> address \<Rightarrow> bool" where
  "shard_selected effective dflt a \<longleftrightarrow>
     (case effective of
        Some i \<Rightarrow> a_shard a = i
      | None \<Rightarrow> (case dflt of Shard i \<Rightarrow> a_shard a = i | _ \<Rightarrow> True))"

text \<open>The documented contract of \<open>shuffle\<close>: it permutes the list.\<close>

definition fair_shuffle :: "('d, 'c) pool_env \<Rightarrow> bool" where
  "fair_shuffle env \<longleftrightarrow> (\<forall>xs. mset (pe_shuffle env xs) = mset xs)"

lemma fair_shuffle_set: "fair_shuffle env \<Longrightarrow> set (pe_shuffle env xs) = set xs"
  unfolding fair_shuffle_def by (metis set_mset_mset)

lemma set_sort_descending [simp]: "set (sort_descending f xs) = set xs"
  by (simp add: sort_descending_def)

lemma sort_by_busy_set: "sort_by_busy env p xs = Ok cs \<Longrightarrow> set cs = set xs"
  by (simp add: sort_by_busy_def split: if_splits) auto

lemma get_candidates_set:
  assumes "fair_shuffle env" "get_candidates env e role p = Ok cs"
  shows "set cs = {a \<in> set (concat (cp_addresses p)). role_matches (a_role a) role
    \<and> shard_selected e (ps_default_shard (cp_settings p)) a}"
proof -
  let ?base = "pe_shuffle env (filter (\<lambda>a. role_matches (a_role a) role) (concat (cp_addresses p)))"
  define sel where "sel =
    (case e of
       Some shard_id \<Rightarrow> filter (\<lambda>address. a_shard address = shard_id) ?base
     | None \<Rightarrow>
         (case ps_default_shard (cp_settings p) of
            Shard shard_id \<Rightarrow> filter (\<lambda>address. a_shard address = shard_id) ?base
          | RandomShard \<Rightarrow> ?base
          | RandomHealthy \<Rightarrow> sort_descending (\<lambda>address. unat (cp_error_count p (a_id address))) ?base))"
  have "set cs = set sel"
    using assms(2) sort_by_busy_set [of env p sel cs]
    unfolding get_candidates_def Let_def sel_def [symmetric] by (simp split: if_splits)
  also have "\<dots> = {a \<in> set ?base. shard_selected e (ps_default_shard (cp_settings p)) a}"
    by (simp add: sel_def shard_selected_def split: option.split default_shard.split)
  finally show ?thesis by (auto simp: fair_shuffle_set [OF assms(1)])
qed

lemma keeps_pool_get:
  fixes env :: "('d, 'c) pool_env"
  assumes "fair_shuffle env"
  shows "keeps (checkout_at l :: ('d, 'c, 'p) checkout \<Rightarrow> bool) (pool_get env ops shard_no role)"
  unfolding keeps_def
proof (intro allI impI)
  fix s :: "('d, 'c, 'p) checkout" assume s: "checkout_at l s"
  show "checkout_at l (snd (pool_get env ops shard_no role s))"
  proof (cases "\<exists>e cs. effective_shard shard_no (ck_pool s) = Ok e \<and> get_candidates env e role (ck_pool s) = Ok cs")
    case True
    then obtain e cs where e: "effective_shard shard_no (ck_pool s) = Ok e" and cs: "get_candidates env e role (ck_pool s) = Ok cs" by blast
    have "set (rev cs) \<subseteq> members l"
      using get_candidates_set [OF assms cs] pool_atD(3) [OF s] by auto
    then have k: "keeps (checkout_at l :: ('d, 'c, 'p) checkout \<Rightarrow> bool) (act_bind (client_do (client_waiting (pe_start_us env))) (\<lambda>_. try_candidates env ops (rev cs)))"
      by (intro keeps_intro keeps_try_candidates) auto
    have "pool_get env ops shard_no role s = act_bind (client_do (client_waiting (pe_start_us env))) (\<lambda>_. try_candidates env ops (rev cs)) s"
      using e cs by (simp add: pool_get_def)
    then show ?thesis using keepsD [OF k s] by (metis prod.collapse)
  next
    case False
    then have "snd (pool_get env ops shard_no role s) = s"
      by (auto simp: pool_get_def act_bind_def act_get_def split: outcome.splits)
    with s show ?thesis by simp
  qed
qed

section \<open>The effect of a candidate\<close>

text \<open>What trying the candidate \<open>b\<close> does to the ban list, once it is not skipped.\<close>

definition bans_after :: "address \<Rightarrow> ban_list \<Rightarrow> ban_list \<Rightarrow> bool" where
  "bans_after b bans bans' \<longleftrightarrow> bans' = bans
     \<or> a_role b \<noteq> Primary \<and> (\<exists>v. bans' = bans[unat (a_shard b) := AList.update b v (bans ! unat (a_shard b))])"

lemma pool_ban_effect:
  assumes "checkout_at l s" "b \<in> members l"
  shows "\<exists>t. pool_ban now b reason s = (Ok (), t) \<and> ck_returned t = ck_returned s
    \<and> bans_after b (cp_banlist (ck_pool s)) (cp_banlist (ck_pool t))"
  using pool_at_index(1) [OF assms]
  by (auto simp: pool_ban_def ban_def on_pool_def act_zoom_def act_bind_def act_get_def act_when_def act_modify_def act_return_def client_do_def
      on_bans_def bans_after_def increment_error_count_def on_address_stats_def at_index_def split: if_splits)

text \<open>A connection on which a health check cannot panic.\<close>

definition tranquil :: "('d, 'c) pool_env \<Rightarrow> (string, unit, 'c) lru_ops \<Rightarrow> address \<Rightarrow> 'c server \<Rightarrow> bool" where
  "tranquil env ops b c \<longleftrightarrow> sv_last_activity c \<le> pe_now env b
     \<and> (\<forall>f. fst (server_query ops (pe_now env b) '';'' (server_stats_do f c)) \<noteq> Panic)"

lemma server_stats_do_compose: "server_stats_do f (server_stats_do g s) = server_stats_do (\<lambda>st. f (g st)) s"
  by (simp add: server_stats_do_def)

lemma load_stats_eq: "\<exists>g. load_stats p c = server_stats_do g c"
  by (auto simp: load_stats_def)

lemma server_stats_do_simps [simp]:
  "sv_bad (server_stats_do f c) = sv_bad c" "sv_address (server_stats_do f c) = sv_address c"
  "sv_last_activity (server_stats_do f c) = sv_last_activity c"
  by (simp_all add: server_stats_do_def)

lemma load_stats_simps [simp]: "sv_bad (load_stats p c) = sv_bad c" "sv_address (load_stats p c) = sv_address c"
  by (simp_all add: load_stats_def)

lemma checked_out_effect:
  "\<exists>f t. checked_out env a c s = (Ok (server_stats_do f c), t) \<and> ck_returned t = ck_returned s
    \<and> ct_state (ck_client t) = ClientActive \<and> cp_banlist (ck_pool t) = cp_banlist (ck_pool s)"
  by (auto simp: checked_out_def client_do_def act_bind_def act_modify_def act_get_def act_return_def on_pool_def act_zoom_def
      store_stats_def on_address_stats_def client_active_def load_stats_def server_stats_do_compose Let_def)

text \<open>The failing branch of a health check.\<close>

lemma health_check_failed:
  assumes "checkout_at l s" "b \<in> members l"
  shows "\<exists>t. act_bind (on_pool (act_modify (store_stats server))) (\<lambda>_.
           act_bind (pool_ban now b FailedHealthCheck) (\<lambda>_. act_return (False, mark_bad server))) s = (Ok (False, mark_bad server), t)
    \<and> ck_returned t = ck_returned s \<and> bans_after b (cp_banlist (ck_pool s)) (cp_banlist (ck_pool t))"
proof -
  let ?s1 = "s\<lparr>ck_pool := store_stats server (ck_pool s)\<rparr>"
  have st: "on_pool (act_modify (store_stats server)) s = (Ok (), ?s1)" by (simp add: on_pool_def act_zoom_def act_modify_def)
  have "checkout_at l ?s1" using keepsD [OF keeps_store_stats assms(1) st] .
  from pool_ban_effect [OF this assms(2), of now FailedHealthCheck] obtain t where
    "pool_ban now b FailedHealthCheck ?s1 = (Ok (), t)" "ck_returned t = ck_returned s"
    "bans_after b (cp_banlist (ck_pool s)) (cp_banlist (ck_pool t))"
    by (auto simp: store_stats_def on_address_stats_def)
  then show ?thesis by (simp add: st act_return_def)
qed

lemma run_health_check_effect:
  assumes "checkout_at l s" "b \<in> members l" "tranquil env ops b c \<or> fst (run_health_check env ops b c s) \<noteq> Panic"
  shows "\<exists>healthy c' t. run_health_check env ops b c s = (Ok (healthy, c'), t) \<and> ck_returned t = ck_returned s
    \<and> bans_after b (cp_banlist (ck_pool s)) (cp_banlist (ck_pool t))
    \<and> (if healthy then sv_bad c' = sv_bad c \<and> sv_address c' = sv_address c \<and> cp_banlist (ck_pool t) = cp_banlist (ck_pool s)
        else sv_bad c')
    \<and> (pe_timeout env b = None \<and> responsive c \<longrightarrow> healthy)"
proof -
  define c1 where "c1 = server_stats_do server_tested (load_stats (ck_pool s) c)"
  obtain f where c1: "c1 = server_stats_do f c" by (auto simp: c1_def load_stats_def server_stats_do_compose)
  note eq = run_health_check_def Let_def act_bind_def [of "act_get _"] act_get_def c1_def [symmetric]
  show ?thesis
  proof (cases "pe_timeout env b")
    case (Some progress)
    with health_check_failed [OF assms(1,2), of "progress c1" "pe_utc env b"] show ?thesis by (auto simp: eq mark_bad_def)
  next
    case None
    obtain r c2 where q: "server_query ops (pe_now env b) '';'' c1 = (r, c2)" by force
    show ?thesis
    proof (cases r)
      case (Ok u)
      from server_query_Ok_healthy [of ops "pe_now env b" "'';''" c1 c2] q Ok have "sv_bad c2 = sv_bad c" "sv_address c2 = sv_address c"
        by (simp_all add: c1)
      with None q Ok show ?thesis
        by (auto simp: eq act_bind_def act_modify_def act_return_def on_pool_def act_zoom_def client_do_def store_stats_def
            on_address_stats_def bans_after_def)
    next
      case (Err e)
      moreover have "\<not> responsive c"
        using responsive_query [of c1 ops "pe_now env b" "'';''"] q Err by (auto simp: c1)
      ultimately show ?thesis using health_check_failed [OF assms(1,2), of c2 "pe_utc env b"] None q by (auto simp: eq mark_bad_def)
    next
      case Panic
      with q have "\<not> tranquil env ops b c" unfolding tranquil_def c1 by (metis fst_conv)
      moreover have "fst (run_health_check env ops b c s) = Panic" using None q Panic by (simp add: eq act_lift_def)
      ultimately have False using assms(3) by simp
      then show ?thesis ..
    qed
  qed
qed

text \<open>The pool of connections for an address.\<close>

definition database_of :: "'d list list \<times> address list list \<times> pool_settings \<Rightarrow> address \<Rightarrow> 'd" where
  "database_of l a = fst l ! unat (a_shard a) ! unat (a_address_index a)"

lemma pool_database_of: "checkout_at l s \<Longrightarrow> a \<in> members l \<Longrightarrow> pool_database (a_shard a) (a_address_index a) (ck_pool s) = Ok (database_of l a)"
  using pool_at_index(3) [of l "ck_pool s" a] pool_atD(4) [of l "ck_pool s"] by (auto simp: database_of_def layout_def)

text \<open>A connection, if there is one, with which the candidate can be judged without a panic.\<close>

definition judged :: "('d, 'c) pool_env \<Rightarrow> (string, unit, 'c) lru_ops \<Rightarrow> 'd list list \<times> address list list \<times> pool_settings \<Rightarrow> address \<Rightarrow> bool" where
  "judged env ops l b \<longleftrightarrow> (\<forall>c. pe_get env (database_of l b) = Some c \<longrightarrow> tranquil env ops b c)"

definition answers :: "('d, 'c) pool_env \<Rightarrow> 'd list list \<times> address list list \<times> pool_settings \<Rightarrow> address \<Rightarrow> bool" where
  "answers env l b \<longleftrightarrow> pe_timeout env b = None \<and> (\<exists>c. pe_get env (database_of l b) = Some c \<and> responsive c)"

lemma checkout_from_effect:
  fixes s :: "('d, 'c, 'p) checkout"
  assumes s: "checkout_at l s" and b: "b \<in> members l" and j: "judged env ops l b \<or> fst (checkout_from env ops b force s) \<noteq> Panic"
  shows "\<exists>r t. checkout_from env ops b force s = (Ok r, t)
    \<and> (answers env l b \<longrightarrow> r \<noteq> None)
    \<and> bans_after b (cp_banlist (ck_pool s)) (cp_banlist (ck_pool t))
    \<and> (case r of
         None \<Rightarrow> (\<exists>xs. ck_returned t = ck_returned s @ xs \<and> list_all sv_bad xs)
       | Some c' \<Rightarrow> ck_returned t = ck_returned s \<and> ct_state (ck_client t) = ClientActive \<and> cp_banlist (ck_pool t) = cp_banlist (ck_pool s)
           \<and> (\<exists>c. pe_get env (database_of l b) = Some c \<and> sv_bad c' = sv_bad c \<and> sv_address c' = sv_address c))"
proof (cases "pe_get env (database_of l b)")
  case None
  from pool_ban_effect [OF s b, of "pe_utc env b" FailedCheckout] obtain t where
    "pool_ban (pe_utc env b) b FailedCheckout s = (Ok (), t)" "ck_returned t = ck_returned s"
    "bans_after b (cp_banlist (ck_pool s)) (cp_banlist (ck_pool t))" by blast
  with None show ?thesis
    by (simp add: checkout_from_def pool_database_of [OF s b] act_bind_def [of "act_get _"] act_get_def
        act_bind_def [of "client_do _"] act_bind_def [of "on_pool _"] act_return_def client_do_def act_modify_def on_pool_def act_zoom_def
        on_address_stats_def answers_def)
next
  case (Some c)
  let ?s1 = "s\<lparr>ck_pool := reset_error_count b (ck_pool s)\<rparr>"
  have s1: "checkout_at l ?s1" using s by (auto simp: pool_at_def pool_inv_def pool_updates)
  have same: "cp_banlist (ck_pool ?s1) = cp_banlist (ck_pool s)" by (simp add: reset_error_count_def)
  note eq = checkout_from_def pool_database_of [OF s b] act_bind_def [of "act_get _"] act_get_def act_bind_def [of "on_pool _"]
    on_pool_def act_zoom_def act_modify_def require_healthcheck_def reset_error_count_def
  have clock: "force \<or> sv_last_activity c \<le> pe_now env b"
  proof (rule ccontr)
    assume "\<not> ?thesis"
    moreover from this have "fst (checkout_from env ops b force s) = Panic" using Some by (simp add: eq)
    ultimately show False using j Some by (simp add: judged_def tranquil_def)
  qed
  define req where "req \<longleftrightarrow> force \<or> unat (ps_healthcheck_delay (cp_settings (ck_pool s))) < pe_now env b - sv_last_activity c"
  have run: "checkout_from env ops b force s =
     (if \<not> req then act_bind (checked_out env b c) (\<lambda>server. act_return (Some server)) ?s1
      else act_bind (run_health_check env ops b c) (\<lambda>(healthy, server).
           if healthy then act_bind (checked_out env b server) (\<lambda>server. act_return (Some server))
           else act_bind (act_modify (\<lambda>s. s\<lparr>ck_returned := ck_returned s @ [server]\<rparr>)) (\<lambda>_. act_return None)) ?s1)"
    using clock Some by (auto simp: eq req_def)
  have out: "\<exists>t c'. act_bind (checked_out env b d) (\<lambda>server. act_return (Some server)) u = (Ok (Some c'), t)
      \<and> ck_returned t = ck_returned u \<and> ct_state (ck_client t) = ClientActive \<and> cp_banlist (ck_pool t) = cp_banlist (ck_pool u)
      \<and> sv_bad c' = sv_bad d \<and> sv_address c' = sv_address d" for d and u :: "('d, 'c, 'p) checkout"
    using checked_out_effect [of env b d u] by (auto simp: act_return_def)
  show ?thesis
  proof (cases req)
    case False
    with run out [of c ?s1] Some same show ?thesis by (auto simp: bans_after_def)
  next
    case True
    have "tranquil env ops b c \<or> fst (run_health_check env ops b c ?s1) \<noteq> Panic"
      using j Some run True by (cases "run_health_check env ops b c ?s1") (auto simp: judged_def)
    from run_health_check_effect [OF s1 b this, unfolded same] obtain healthy c' t where h: "run_health_check env ops b c ?s1 = (Ok (healthy, c'), t)"
      "ck_returned t = ck_returned s" "bans_after b (cp_banlist (ck_pool s)) (cp_banlist (ck_pool t))"
      "if healthy then sv_bad c' = sv_bad c \<and> sv_address c' = sv_address c \<and> cp_banlist (ck_pool t) = cp_banlist (ck_pool s) else sv_bad c'"
      "pe_timeout env b = None \<and> responsive c \<longrightarrow> healthy" by auto
    then show ?thesis
      using run True Some out [of c' t]
      by (cases healthy) (auto simp: act_modify_def act_return_def act_bind_def [of "act_modify _"] answers_def)
  qed
qed

section \<open>Bans in the course of a checkout\<close>

definition replicas_of :: "'d list list \<times> address list list \<times> pool_settings \<Rightarrow> address \<Rightarrow> address list" where
  "replicas_of l a = filter (\<lambda>addr. a_role addr = Replica) (fst (snd l) ! unat (a_shard a))"

text \<open>An address that a checkout will not skip: it is not banned, or all the replicas of its shard are.\<close>

definition open_to :: "'d list list \<times> address list list \<times> pool_settings \<Rightarrow> ban_list \<Rightarrow> address \<Rightarrow> bool" where
  "open_to l bans a \<longleftrightarrow> map_of (bans ! unat (a_shard a)) a = None \<or> length (bans ! unat (a_shard a)) = length (replicas_of l a)"

text \<open>If as many servers of a shard are banned as it has replicas, then all its replicas are banned.\<close>

lemma all_banned:
  assumes p: "pool_at l p" and b: "b \<in> members l" and mirror: "\<forall>x \<in> members l. a_role x \<noteq> Mirror" and "a_role b \<noteq> Primary"
    and len: "length (cp_banlist p ! unat (a_shard b)) = length (replicas_of l b)"
  shows "map_of (cp_banlist p ! unat (a_shard b)) b \<noteq> None"
proof -
  let ?i = "unat (a_shard b)" let ?keys = "fst ` set (cp_banlist p ! ?i)"
  note d = pool_atD [OF p]
  have i: "?i < length (cp_addresses p)" using aligned_member(1) [OF d(1)] b d(3) by simp
  have l: "fst (snd l) = cp_addresses p" using d(4) by (auto simp: layout_def)
  have reps: "set (replicas_of l b) = {x \<in> set (cp_addresses p ! ?i). a_role x = Replica}" by (auto simp: replicas_of_def l)
  have "?keys \<subseteq> set (replicas_of l b)"
  proof
    fix x assume "x \<in> ?keys"
    with d(2) i have x: "x \<in> set (cp_addresses p ! ?i)" "a_role x \<noteq> Primary" by (auto simp: bans_ok_def)
    then have "x \<in> members l" unfolding d(3) using i by auto
    with mirror x show "x \<in> set (replicas_of l b)" unfolding reps by (cases "a_role x") auto
  qed
  moreover have "card ?keys = length (cp_banlist p ! ?i)"
    using d(2) i distinct_card [of "map fst (cp_banlist p ! ?i)"] by (simp add: bans_ok_def)
  moreover have "card (set (replicas_of l b)) = length (replicas_of l b)"
    using aligned_distinct [OF d(1) i] by (intro distinct_card) (simp add: replicas_of_def l)
  ultimately have "?keys = set (replicas_of l b)" using len by (intro card_subset_eq) auto
  moreover have "b \<in> set (replicas_of l b)"
    unfolding reps using member_shard [OF d(1), of b] b d(3) mirror assms(4) by (cases "a_role b") auto
  ultimately show ?thesis by (simp add: map_of_eq_None_iff)
qed

lemma open_to_after:
  assumes p: "pool_at l p" and "a \<in> members l" "b \<in> members l" "a \<noteq> b" and mirror: "\<forall>x \<in> members l. a_role x \<noteq> Mirror"
    and free: "a_role b = Primary \<or> map_of (cp_banlist p ! unat (a_shard b)) b = None"
    and after: "bans_after b (cp_banlist p) bans" and op: "open_to l (cp_banlist p) a"
  shows "open_to l bans a"
proof (cases "bans = cp_banlist p")
  case False
  let ?i = "unat (a_shard b)"
  from False after obtain v where r: "a_role b \<noteq> Primary" and bans: "bans = (cp_banlist p)[?i := AList.update b v (cp_banlist p ! ?i)]"
    by (auto simp: bans_after_def)
  show ?thesis
  proof (cases "unat (a_shard a) = ?i")
    case True
    then have same: "replicas_of l a = replicas_of l b" by (simp add: replicas_of_def)
    have "length (cp_banlist p ! ?i) \<noteq> length (replicas_of l b)"
      using all_banned [OF p assms(3) mirror r] free r by auto
    with op True same have "map_of (cp_banlist p ! ?i) a = None" by (simp add: open_to_def)
    moreover have "?i < length (cp_banlist p)"
      using aligned_member(1) [OF pool_atD(1) [OF p]] pool_atD(2,3) [OF p] assms(3) by (simp add: bans_ok_def)
    ultimately show ?thesis using True assms(4) by (simp add: open_to_def bans AList.update_conv')
  qed (use op in \<open>simp add: open_to_def bans\<close>)
qed (use op in simp)

lemma try_unban_effect:
  assumes p: "pool_at l p" and b: "b \<in> members l"
  shows "\<exists>usable p'. try_unban now b p = (Ok usable, p')
    \<and> (usable \<longrightarrow> a_role b = Primary \<or> map_of (cp_banlist p' ! unat (a_shard b)) b = None)
    \<and> (open_to l (cp_banlist p) b \<longrightarrow> usable)
    \<and> (\<forall>a. a \<noteq> b \<longrightarrow> open_to l (cp_banlist p) a \<longrightarrow> open_to l (cp_banlist p') a)"
proof (cases "a_role b = Primary")
  case False
  let ?i = "unat (a_shard b)" let ?bans = "cp_banlist p ! ?i"
  note d = pool_atD [OF p]
  have l: "fst (snd l) = cp_addresses p" using d(4) by (auto simp: layout_def)
  have i: "?i < length (cp_banlist p)" using aligned_member(1) [OF d(1)] d(2,3) b by (simp add: bans_ok_def)
  note run = try_unban_def on_bans_def act_bind_def act_get_def act_modify_def act_return_def pool_at_index [OF p b] replicas_of_def l
  have other: "open_to l ((cp_banlist p)[?i := bs]) a"
    if "open_to l (cp_banlist p) a" "map_of bs a = None \<or> (map_of ?bans a \<noteq> None \<and> bs = ?bans)" for bs a
    using that i by (cases "unat (a_shard a) = ?i") (auto simp: open_to_def)
  consider "length ?bans = length (replicas_of l b)" | "length ?bans \<noteq> length (replicas_of l b)" "map_of ?bans b = None"
    | v where "length ?bans \<noteq> length (replicas_of l b)" "map_of ?bans b = Some v" by force
  then show ?thesis
  proof cases
    case 1
    then show ?thesis using False i other [of _ "[]"] by (simp add: run) (auto simp: open_to_def)
  next
    case 2
    then show ?thesis using False by (auto simp: run)
  next
    case 3
    have "open_to l ((cp_banlist p)[?i := AList.delete b ?bans]) a" if "open_to l (cp_banlist p) a" "a \<noteq> b" for a
    proof (cases "unat (a_shard a) = ?i")
      case True
      then have "replicas_of l a = replicas_of l b" by (simp add: replicas_of_def)
      with that 3 True have "map_of ?bans a = None" by (simp add: open_to_def)
      then show ?thesis using that True i by (simp add: open_to_def AList.delete_conv')
    qed (use that in \<open>simp add: open_to_def\<close>)
    with 3 False i show ?thesis
      by (cases "exceeded_ban_time (ps_ban_time (cp_settings p)) now v") (auto simp: run open_to_def AList.delete_conv')
  qed
qed (auto simp: try_unban_def act_return_def)

text \<open>A primary is never on the ban list.\<close>

lemma unbanned_primary:
  assumes p: "pool_at l p" and b: "b \<in> members l" and "a_role b = Primary"
  shows "map_of (cp_banlist p ! unat (a_shard b)) b = None"
proof -
  note d = pool_atD [OF p]
  have "unat (a_shard b) < length (cp_addresses p)" using aligned_member(1) [OF d(1)] b d(3) by simp
  with d(2) assms(3) show ?thesis by (fastforce simp: bans_ok_def map_of_eq_None_iff)
qed

lemma try_candidate_effect:
  fixes s :: "('d, 'c, 'p) checkout"
  assumes s: "checkout_at l s" and b: "b \<in> members l" and j: "judged env ops l b \<or> fst (try_candidate env ops b s) \<noteq> Panic"
  shows "\<exists>r t. try_candidate env ops b s = (Ok r, t) \<and> checkout_at l t
    \<and> (open_to l (cp_banlist (ck_pool s)) b \<longrightarrow> answers env l b \<longrightarrow> r \<noteq> None)
    \<and> ((\<forall>x \<in> members l. a_role x \<noteq> Mirror) \<longrightarrow>
         (\<forall>a \<in> members l. a \<noteq> b \<longrightarrow> open_to l (cp_banlist (ck_pool s)) a \<longrightarrow> open_to l (cp_banlist (ck_pool t)) a))
    \<and> (case r of
         None \<Rightarrow> (\<exists>xs. ck_returned t = ck_returned s @ xs \<and> list_all sv_bad xs)
       | Some c' \<Rightarrow> ck_returned t = ck_returned s \<and> ct_state (ck_client t) = ClientActive \<and> is_banned b (ck_pool t) = Ok False
           \<and> (\<exists>c. pe_get env (database_of l b) = Some c \<and> sv_bad c' = sv_bad c \<and> sv_address c' = sv_address c))"
proof -
  let ?bans = "\<lambda>s :: ('d, 'c, 'p) checkout. cp_banlist (ck_pool s)"
  define banned where "banned \<longleftrightarrow> map_of (?bans s ! unat (a_shard b)) b \<noteq> None"
  have ib: "is_banned b (ck_pool s) = Ok banned" using pool_at_index(1) [OF s b] by (simp add: is_banned_def banned_def)
  have "\<exists>usable u. (if banned then on_pool (try_unban (pe_utc env b) b) else act_return True) s = (Ok usable, u)
      \<and> checkout_at l u \<and> ck_returned u = ck_returned s
      \<and> (usable \<longrightarrow> a_role b = Primary \<or> map_of (?bans u ! unat (a_shard b)) b = None) \<and> (open_to l (?bans s) b \<longrightarrow> usable)
      \<and> (\<forall>a. a \<noteq> b \<longrightarrow> open_to l (?bans s) a \<longrightarrow> open_to l (?bans u) a)"
  proof (cases banned)
    case True
    from try_unban_effect [OF s b, of "pe_utc env b"] obtain usable p' where e: "try_unban (pe_utc env b) b (ck_pool s) = (Ok usable, p')"
      "usable \<longrightarrow> a_role b = Primary \<or> map_of (cp_banlist p' ! unat (a_shard b)) b = None" "open_to l (?bans s) b \<longrightarrow> usable"
      "\<forall>a. a \<noteq> b \<longrightarrow> open_to l (?bans s) a \<longrightarrow> open_to l (cp_banlist p') a" by blast
    moreover from keepsD [OF keeps_try_unban [OF b] s e(1)] have "pool_at l p'" .
    ultimately show ?thesis using True by (intro exI [of _ usable] exI [of _ "s\<lparr>ck_pool := p'\<rparr>"]) (simp add: on_pool_def act_zoom_def)
  qed (use s in \<open>auto simp: act_return_def banned_def\<close>)
  then obtain usable u where u: "(if banned then on_pool (try_unban (pe_utc env b) b) else act_return True) s = (Ok usable, u)"
    "checkout_at l u" "ck_returned u = ck_returned s" "usable \<longrightarrow> a_role b = Primary \<or> map_of (?bans u ! unat (a_shard b)) b = None"
    "open_to l (?bans s) b \<longrightarrow> usable" "\<forall>a. a \<noteq> b \<longrightarrow> open_to l (?bans s) a \<longrightarrow> open_to l (?bans u) a" by blast
  have run: "try_candidate env ops b s = (if usable then checkout_from env ops b banned u else (Ok None, u))"
    using u(1) by (simp add: try_candidate_def ib act_bind_def [of "act_get _"] act_get_def act_return_def)
  show ?thesis
  proof (cases usable)
    case True
    from j run True have "judged env ops l b \<or> fst (checkout_from env ops b banned u) \<noteq> Panic" by simp
    from checkout_from_effect [OF u(2) b this] obtain r t where e: "checkout_from env ops b banned u = (Ok r, t)"
      "answers env l b \<longrightarrow> r \<noteq> None" "bans_after b (?bans u) (?bans t)"
      "case r of
         None \<Rightarrow> (\<exists>xs. ck_returned t = ck_returned u @ xs \<and> list_all sv_bad xs)
       | Some c' \<Rightarrow> ck_returned t = ck_returned u \<and> ct_state (ck_client t) = ClientActive \<and> ?bans t = ?bans u
           \<and> (\<exists>c. pe_get env (database_of l b) = Some c \<and> sv_bad c' = sv_bad c \<and> sv_address c' = sv_address c)" by blast
    have "open_to l (?bans t) a" if "\<forall>x \<in> members l. a_role x \<noteq> Mirror" "a \<in> members l" "a \<noteq> b" "open_to l (?bans s) a" for a
    proof (rule open_to_after [OF u(2) that(2) b that(3,1) _ e(3)])
      show "a_role b = Primary \<or> map_of (?bans u ! unat (a_shard b)) b = None" using u(4) True by simp
      show "open_to l (?bans u) a" using u(6) that by simp
    qed
    moreover have "checkout_at l t" using keepsD [OF keeps_checkout_from [OF b] u(2) e(1)] .
    moreover have "is_banned b (ck_pool t) = Ok False" if "?bans t = ?bans u"
      using u(4) True unbanned_primary [OF u(2) b] pool_at_index(1) [OF u(2) b] that by (auto simp: is_banned_def)
    ultimately show ?thesis using e(1,2) e(4) [unfolded u(3)] run True
      by (intro exI [of _ r] exI [of _ t]) (simp split: option.split_asm)
  next
    case False
    with run u show ?thesis by simp
  qed
qed

section \<open>The whole checkout\<close>

text \<open>The documented contract of the pools of connections: a pool hands out connections that were made for
  its address and are not broken.\<close>

definition hands_out :: "('d, 'c) pool_env \<Rightarrow> ('d, 'p) connection_pool \<Rightarrow> bool" where
  "hands_out env p \<longleftrightarrow> (\<forall>i < length (cp_databases p). \<forall>j < length (cp_databases p ! i). \<forall>c.
     pe_get env (cp_databases p ! i ! j) = Some c \<longrightarrow> sv_address c = cp_addresses p ! i ! j \<and> \<not> sv_bad c)"

lemma hands_outD:
  assumes p: "pool_at l p" and "hands_out env p" "a \<in> members l" "pe_get env (database_of l a) = Some c"
  shows "sv_address c = a \<and> \<not> sv_bad c"
proof -
  note d = pool_atD [OF p]
  have "a \<in> set (concat (cp_addresses p))" using assms(3) d(3) by simp
  from aligned_member [OF d(1) this] d(1) assms(2,4) d(4) show ?thesis
    by (auto simp: hands_out_def database_of_def layout_def aligned_def)
qed

lemma try_candidates_result:
  fixes s :: "('d, 'c, 'p) checkout"
  assumes "checkout_at l s" "set cs \<subseteq> members l" "try_candidates env ops cs s = (r, t)" "r \<noteq> Panic"
  shows "(\<exists>xs. ck_returned t = ck_returned s @ xs \<and> list_all sv_bad xs)
    \<and> (case r of
         Ok (c', a) \<Rightarrow> a \<in> set cs \<and> ct_state (ck_client t) = ClientActive \<and> is_banned a (ck_pool t) = Ok False
           \<and> (\<exists>c. pe_get env (database_of l a) = Some c \<and> sv_bad c' = sv_bad c \<and> sv_address c' = sv_address c)
       | Err e \<Rightarrow> e = AllServersDown
       | Panic \<Rightarrow> True)"
  using assms
proof (induction cs arbitrary: s)
  case Nil
  then show ?case by (auto simp: act_bind_def client_do_def act_modify_def act_lift_def)
next
  case (Cons b cs)
  then have np: "fst (try_candidate env ops b s) \<noteq> Panic"
    by (cases "try_candidate env ops b s") auto
  from try_candidate_effect [of l s b env ops] Cons.prems(1,2) np obtain x u where e: "try_candidate env ops b s = (Ok x, u)" "checkout_at l u"
    "case x of
       None \<Rightarrow> (\<exists>xs. ck_returned u = ck_returned s @ xs \<and> list_all sv_bad xs)
     | Some c' \<Rightarrow> ck_returned u = ck_returned s \<and> ct_state (ck_client u) = ClientActive \<and> is_banned b (ck_pool u) = Ok False
         \<and> (\<exists>c. pe_get env (database_of l b) = Some c \<and> sv_bad c' = sv_bad c \<and> sv_address c' = sv_address c)" by auto
  show ?case
  proof (cases x)
    case None
    with e Cons.prems have "try_candidates env ops cs u = (r, t)" by simp
    from Cons.IH [OF e(2) _ this Cons.prems(4)] Cons.prems(2)
    have h: "(\<exists>xs. ck_returned t = ck_returned u @ xs \<and> list_all sv_bad xs)"
      "(case r of
         Ok (c', a) \<Rightarrow> a \<in> set cs \<and> ct_state (ck_client t) = ClientActive \<and> is_banned a (ck_pool t) = Ok False
           \<and> (\<exists>c. pe_get env (database_of l a) = Some c \<and> sv_bad c' = sv_bad c \<and> sv_address c' = sv_address c)
       | Err e \<Rightarrow> e = AllServersDown
       | Panic \<Rightarrow> True)" by auto
    from e(3) None obtain xs where "ck_returned u = ck_returned s @ xs" "list_all sv_bad xs" by auto
    with h(1) have "\<exists>xs. ck_returned t = ck_returned s @ xs \<and> list_all sv_bad xs" by fastforce
    with h(2) show ?thesis by (auto split: outcome.splits prod.splits)
  next
    case (Some c')
    with e Cons.prems(3) have "r = Ok (c', b)" "t = u" by (auto simp: act_return_def)
    with e(3) Some show ?thesis by auto
  qed
qed

lemma try_candidates_succeeds:
  fixes s :: "('d, 'c, 'p) checkout"
  assumes "checkout_at l s" "set cs \<subseteq> members l" "\<forall>b \<in> set cs. judged env ops l b" "\<forall>x \<in> members l. a_role x \<noteq> Mirror"
    and "a \<in> set cs" "open_to l (cp_banlist (ck_pool s)) a" "answers env l a"
  shows "\<exists>x t. try_candidates env ops cs s = (Ok x, t)"
  using assms
proof (induction cs arbitrary: s)
  case (Cons b cs)
  from try_candidate_effect [of l s b env ops] Cons.prems(1,2,3,4) obtain x u where e: "try_candidate env ops b s = (Ok x, u)" "checkout_at l u"
    "open_to l (cp_banlist (ck_pool s)) b \<longrightarrow> answers env l b \<longrightarrow> x \<noteq> None"
    "\<forall>a \<in> members l. a \<noteq> b \<longrightarrow> open_to l (cp_banlist (ck_pool s)) a \<longrightarrow> open_to l (cp_banlist (ck_pool u)) a" by auto
  show ?case
  proof (cases x)
    case (Some c)
    with e(1) show ?thesis by (auto simp: act_return_def)
  next
    case None
    with e(3) Cons.prems(6,7) have "a \<noteq> b" by auto
    with Cons.prems e(4) have "a \<in> set cs" "open_to l (cp_banlist (ck_pool u)) a" by auto
    with Cons.IH [OF e(2)] Cons.prems e(1) None show ?thesis by auto
  qed
qed simp

lemma pool_get_eq:
  assumes "effective_shard shard_no (ck_pool s) = Ok e" "get_candidates env e role (ck_pool s) = Ok cs"
  shows "pool_get env ops shard_no role s = try_candidates env ops (rev cs) (s\<lparr>ck_client := client_waiting (pe_start_us env) (ck_client s)\<rparr>)"
  using assms by (simp add: pool_get_def act_bind_def act_get_def client_do_def act_modify_def)

lemma effective_shard_Err:
  "effective_shard shard_no p = Err x \<longleftrightarrow> (\<exists>i. shard_no = Some i \<and> x = InvalidShardId i \<and> pool_shards p \<noteq> 1 \<and> pool_shards p \<le> i)"
  by (auto simp: effective_shard_def valid_shard_id_def split: option.splits)

lemma effective_shard_Panic: "effective_shard shard_no p \<noteq> Panic"
  by (auto simp: effective_shard_def valid_shard_id_def split: option.splits)

lemma get_candidates_Err: "get_candidates env e role p \<noteq> Err x"
  by (auto simp: get_candidates_def sort_by_busy_def Let_def)

lemma get_candidates_total: "pool_inv p \<Longrightarrow> fair_shuffle env \<Longrightarrow> \<exists>cs. get_candidates env e role p = Ok cs"
proof -
  assume inv: "pool_inv p" and sh: "fair_shuffle env"
  let ?sel = "\<lambda>cs. set cs \<subseteq> set (concat (cp_addresses p))"
  have "sort_by_busy env p cs \<noteq> Panic" if "?sel cs" for cs
  proof -
    have "pool_database (a_shard a) (a_address_index a) p \<noteq> Panic" if "a \<in> set cs" for a
      using pool_at_index(3) [of "layout p" p a] subsetD [OF \<open>?sel cs\<close> that] inv by (simp add: pool_at_def members_def layout_def)
    then have "\<not> list_ex (\<lambda>a. busy_connection_count env a p = Panic) cs"
      by (auto simp: busy_connection_count_def list_ex_iff rbind_Panic_iff split: prod.splits)
    then show ?thesis by (simp add: sort_by_busy_def)
  qed
  moreover have "sort_by_busy env p cs \<noteq> Err x" for cs x by (simp add: sort_by_busy_def)
  ultimately have ok: "\<exists>ds. sort_by_busy env p cs = Ok ds" if "?sel cs" for cs using that by (metis outcome.exhaust)
  show ?thesis unfolding get_candidates_def Let_def
    by (auto intro!: ok simp: fair_shuffle_set [OF sh] split: option.split default_shard.split)
qed

lemma pool_get_open:
  assumes inv: "pool_inv (ck_pool s)" and sh: "fair_shuffle env" and l: "l = layout (ck_pool s)"
    and e: "effective_shard shard_no (ck_pool s) = Ok e"
    and a: "a \<in> members l" "role_matches (a_role a) role" "shard_selected e (ps_default_shard (cp_settings (ck_pool s))) a"
    and "open_to l (cp_banlist (ck_pool s)) a" "answers env l a" "\<forall>b \<in> members l. judged env ops l b \<and> a_role b \<noteq> Mirror"
  shows "\<exists>conn b t. pool_get env ops shard_no role s = (Ok (conn, b), t)"
proof -
  have at: "checkout_at l s" using inv by (simp add: pool_at_def l)
  from get_candidates_total [OF inv sh] obtain cs where cs: "get_candidates env e role (ck_pool s) = Ok cs" by blast
  note set_cs = get_candidates_set [OF sh cs]
  let ?s = "s\<lparr>ck_client := client_waiting (pe_start_us env) (ck_client s)\<rparr>"
  have sub: "set (rev cs) \<subseteq> members l" using set_cs pool_atD(3) [OF at] by auto
  have at': "checkout_at l ?s" using at by simp
  have mem: "a \<in> set (rev cs)" using a set_cs pool_atD(3) [OF at] by auto
  have "\<exists>x t. try_candidates env ops (rev cs) ?s = (Ok x, t)"
    by (rule try_candidates_succeeds [OF at' sub _ _ mem]) (use assms(8,9,10) sub in auto)
  then show ?thesis by (simp add: pool_get_eq [OF e cs] split_paired_Ex)
qed

lemma responsive_tranquil: "responsive c \<Longrightarrow> sv_last_activity c \<le> pe_now env b \<Longrightarrow> tranquil env ops b c"
  unfolding tranquil_def by (metis fst_conv outcome.distinct(3) responsive_query responsive_stats)

section \<open>Operations on a pool\<close>

text \<open>What the sessions and the administrator do to a pool, in any order; \<open>E\<close> are the environments a
  checkout may meet.\<close>

inductive pool_step :: "('d, 'c) pool_env set \<Rightarrow> ('d, 'p) connection_pool \<Rightarrow> ('d, 'p) connection_pool \<Rightarrow> bool" for E where
  step_ban: "a \<in> set (concat (cp_addresses p)) \<Longrightarrow> ban now a reason client p = (r, p') \<Longrightarrow> pool_step E p p'"
| step_unban: "a \<in> set (concat (cp_addresses p)) \<Longrightarrow> unban a p = (r, p') \<Longrightarrow> pool_step E p p'"
| step_get: "env \<in> E \<Longrightarrow> pool_get env ops shard_no role s = (r, t) \<Longrightarrow> pool_step E (ck_pool s) (ck_pool t)"
| step_pause: "pool_step E p (pool_pause p)"
| step_resume: "pool_step E p (pool_resume p)"
| step_validate: "pool_validate_connect tasks p = (r, p') \<Longrightarrow> pool_step E p p'"
| step_parse: "register_parse_to_cache ops hash parse (p, counter) = (r, p', counter') \<Longrightarrow> pool_step E p p'"
| step_promote: "pool_step E p (promote_prepared_statement_hash ops hash p)"

lemma pool_at_cong: "layout p' = layout p \<Longrightarrow> cp_banlist p' = cp_banlist p \<Longrightarrow> pool_at l p \<Longrightarrow> pool_at l p'"
  by (auto simp: pool_at_def pool_inv_def layout_def)

lemma fold_validate_layout [simp]:
  "layout (fold validate_task tasks p) = layout p \<and> cp_banlist (fold validate_task tasks p) = cp_banlist p"
  by (induction tasks arbitrary: p) (auto simp: validate_task_def layout_def split: option.split)

lemma pool_step_keeps:
  assumes "\<forall>env \<in> E. fair_shuffle env" "pool_step E p p'" "pool_at l p"
  shows "pool_at l p'"
  using assms(2,3,1)
proof (induction rule: pool_step.induct)
  case (step_ban a p now reason client r p')
  then show ?case using keepsD [OF keeps_ban, of a l p] pool_atD(3) by blast
next
  case (step_unban a p r p')
  then show ?case using keepsD [OF keeps_unban, of a l p] pool_atD(3) by blast
next
  case (step_get env ops shard_no role s r t)
  then show ?case using keepsD [OF keeps_pool_get, of env l s] by blast
next
  case (step_validate tasks p r p')
  then have "p' = fold validate_task tasks p" by (auto simp: pool_validate_connect_def act_bind_def act_modify_def act_get_def)
  then show ?case using step_validate by (auto intro: pool_at_cong)
next
  case (step_parse ops hash parse p counter r p' counter')
  then have "layout p' = layout p" "cp_banlist p' = cp_banlist p"
    by (auto simp: register_parse_to_cache_def layout_def split: option.splits prod.splits)
  then show ?case using step_parse by (auto intro: pool_at_cong)
qed (auto simp: pool_pause_def pool_resume_def promote_prepared_statement_hash_def layout_def intro: pool_at_cong)

lemma pool_steps_keep: "(pool_step E)\<^sup>*\<^sup>* p p' \<Longrightarrow> \<forall>env \<in> E. fair_shuffle env \<Longrightarrow> pool_at l p \<Longrightarrow> pool_at l p'"
  by (induction rule: rtranclp_induct) (auto intro: pool_step_keeps)

section \<open>Properties\<close>

text \<open>One shard with a primary, a replica and their pools of connections; the replica is banned.\<close>

definition example_address :: "usize \<Rightarrow> role \<Rightarrow> address" where
  "example_address i role = Address i ''db'' 5432 0 ''shard0'' role 0 i ''user'' ''pool'' []"

definition example_pool :: "(nat, unit) connection_pool" where
  "example_pool =
     \<lparr> cp_databases = [[0, 1]], cp_addresses = [[example_address 0 Primary, example_address 1 Replica]],
       cp_banlist = [[(example_address 1 Replica, FailedCheckout, 0)]], cp_address_stats = (\<lambda>_. address_stats_default),
       cp_error_count = (\<lambda>_. 0), cp_original_server_parameters = [], cp_settings = pool_settings_default,
       cp_validated = True, cp_config_hash = 0, cp_paused = False, cp_auth_hash = None, cp_prepared_statement_cache = None \<rparr>"

definition example_env :: "(nat, (string, unit) lru_list) pool_env" where
  "example_env =
     \<lparr> pe_shuffle = rev, pe_state = (\<lambda>_. (1, 0)),
       pe_get = (\<lambda>db. Some ((example_server (reply_bytes [(CHR ''I'', [])] CHR ''I''))
                  \<lparr>sv_address := example_address (of_nat db) (if db = 0 then Primary else Replica)\<rparr>)),
       pe_utc = (\<lambda>_. 1), pe_now = (\<lambda>_. 60000), pe_checked_us = (\<lambda>_. 5), pe_elapsed_us = (\<lambda>_. 6), pe_client_us = (\<lambda>_. 7),
       pe_timeout = (\<lambda>_. None), pe_start_us = 1, pe_end_us = 9 \<rparr>"

definition example_checkout :: "(nat, (string, unit) lru_list, unit) checkout" where
  "example_checkout = \<lparr> ck_pool = example_pool, ck_client = client_stats_default, ck_returned = [] \<rparr>"

lemma example_inv: "pool_inv example_pool"
  by (auto simp: pool_inv_def aligned_def bans_ok_def example_pool_def example_address_def less_Suc_eq)

lemma example_shuffle: "fair_shuffle example_env"
  by (simp add: fair_shuffle_def example_env_def)

text \<open>
  C6: a checkout serves what was asked for.  If \<open>get\<close> returns a connection, then it is a connection to the
  address returned with it, which belongs to the pool, has the role asked for and lies on the
  shard asked for (or on the default shard) and is not banned when the connection is handed out; the
  connection is not broken, and the client counts as active.  An error is \<open>InvalidShardId\<close> for a shard
  number that is out of range, or \<open>AllServersDown\<close>.  Connections that went back to their pools on the way
  are marked as bad.  However the checkout ends, the pool keeps its invariant, and its addresses, its
  pools of connections and its settings stay what they were.
\<close>

theorem pool_get_serves:
  assumes inv: "pool_inv (ck_pool s)" and sh: "fair_shuffle env" and ho: "hands_out env (ck_pool s)"
    and run: "pool_get env ops shard_no role s = (r, t)"
  shows "pool_inv (ck_pool t) \<and> layout (ck_pool t) = layout (ck_pool s) \<and>
    (case r of
      Ok (conn, a) \<Rightarrow> a \<in> set (concat (cp_addresses (ck_pool s))) \<and> role_matches (a_role a) role
        \<and> (\<exists>e. effective_shard shard_no (ck_pool s) = Ok e \<and> shard_selected e (ps_default_shard (cp_settings (ck_pool s))) a)
        \<and> is_banned a (ck_pool t) = Ok False
        \<and> sv_address conn = a \<and> \<not> sv_bad conn \<and> ct_state (ck_client t) = ClientActive
        \<and> (\<exists>xs. ck_returned t = ck_returned s @ xs \<and> list_all sv_bad xs)
    | Err x \<Rightarrow> (x = AllServersDown \<or> (\<exists>i. shard_no = Some i \<and> x = InvalidShardId i
          \<and> pool_shards (ck_pool s) \<noteq> 1 \<and> pool_shards (ck_pool s) \<le> i))
        \<and> (\<exists>xs. ck_returned t = ck_returned s @ xs \<and> list_all sv_bad xs)
    | Panic \<Rightarrow> True)" (is "_ \<and> _ \<and> ?outcome")
proof -
  have "checkout_at (layout (ck_pool s)) s" using inv by (simp add: pool_at_def)
  from keepsD [OF keeps_pool_get [OF sh] this run] have kept: "pool_inv (ck_pool t)" "layout (ck_pool t) = layout (ck_pool s)"
    by (simp_all add: pool_at_def)
  have ?outcome
  proof (cases "effective_shard shard_no (ck_pool s)")
    case (Ok e)
    define l where "l = layout (ck_pool s)"
    have at: "checkout_at l s" using inv by (simp add: pool_at_def l_def)
    from get_candidates_total [OF inv sh] obtain cs where cs: "get_candidates env e role (ck_pool s) = Ok cs" by blast
    note set_cs = get_candidates_set [OF sh cs]
    let ?s = "s\<lparr>ck_client := client_waiting (pe_start_us env) (ck_client s)\<rparr>"
    have tc: "try_candidates env ops (rev cs) ?s = (r, t)" using run pool_get_eq [OF Ok cs] by simp
    have sub: "set (rev cs) \<subseteq> members l" using set_cs pool_atD(3) [OF at] by auto
    have at': "checkout_at l ?s" using at by simp
    note res = try_candidates_result [OF at' sub tc]
    show ?thesis
    proof (cases r)
      case r: (Ok x)
      obtain c' a where x: "x = (c', a)" by force
      with res r obtain c where a: "a \<in> set cs" "ct_state (ck_client t) = ClientActive" "pe_get env (database_of l a) = Some c"
        "sv_bad c' = sv_bad c" "sv_address c' = sv_address c" "\<exists>xs. ck_returned t = ck_returned s @ xs \<and> list_all sv_bad xs"
        "is_banned a (ck_pool t) = Ok False" by auto
      from hands_outD [OF at ho _ a(3)] a(1) sub have "sv_address c = a \<and> \<not> sv_bad c" by auto
      with a set_cs Ok r x show ?thesis by auto
    qed (use res in auto)
  next
    case (Err x)
    then have "pool_get env ops shard_no role s = (Err x, s)" by (simp add: pool_get_def act_bind_def act_get_def)
    with run Err effective_shard_Err [of shard_no "ck_pool s" x] show ?thesis by auto
  next
    case Panic
    then show ?thesis using effective_shard_Panic by blast
  qed
  with kept show ?thesis by blast
qed

lemma example_hands_out: "hands_out example_env example_pool"
  by (auto simp: hands_out_def example_pool_def example_env_def example_server_def less_Suc_eq)

lemma example_responsive: "pe_get example_env db = Some c \<Longrightarrow> responsive c \<and> sv_last_activity c \<le> pe_now example_env a"
  by (auto simp: example_env_def example_server_def responsive_def plain_message_def status_byte_def
      intro!: exI [of _ "[(CHR ''I'', [])]"] exI [of _ "CHR ''I''"] simp del: reply_bytes_simps)

lemma example_judged: "judged example_env ops l b"
  using example_responsive responsive_tranquil by (fastforce simp: judged_def)

lemma example_answers: "answers example_env l b"
proof -
  obtain c where "pe_get example_env (database_of l b) = Some c" by (simp add: example_env_def)
  then show ?thesis using example_responsive [of "database_of l b" c] by (auto simp: answers_def example_env_def)
qed

lemma example_layout: "members (layout (ck_pool example_checkout)) = {example_address 0 Primary, example_address 1 Replica}"
  by (auto simp: members_def layout_def example_checkout_def example_pool_def)

lemma example_open: "open_to (layout (ck_pool example_checkout)) (cp_banlist (ck_pool example_checkout)) (example_address 1 Replica)"
  by (simp add: open_to_def replicas_of_def layout_def example_checkout_def example_pool_def example_address_def)

theorem pool_get_serves_witness:
  "\<exists>conn t. pool_get example_env lru_list_ops None (Some Replica) example_checkout = (Ok (conn, example_address 1 Replica), t)
     \<and> sv_address conn = example_address 1 Replica \<and> \<not> sv_bad conn
     \<and> is_banned (example_address 1 Replica) (ck_pool example_checkout) = Ok True \<and> is_banned (example_address 1 Replica) (ck_pool t) = Ok False"
proof -
  have inv: "pool_inv (ck_pool example_checkout)" "hands_out example_env (ck_pool example_checkout)"
    using example_inv example_hands_out by (simp_all add: example_checkout_def)
  have e: "effective_shard None (ck_pool example_checkout) = Ok (Some 0)"
    by (simp add: effective_shard_def pool_shards_def example_checkout_def example_pool_def)
  have "\<exists>conn b t. pool_get example_env lru_list_ops None (Some Replica) example_checkout = (Ok (conn, b), t)"
    by (rule pool_get_open [OF inv(1) example_shuffle refl e _ _ _ example_open example_answers])
       (auto simp: example_layout example_judged shard_selected_def example_address_def)
  then obtain conn b t where r: "pool_get example_env lru_list_ops None (Some Replica) example_checkout = (Ok (conn, b), t)" by blast
  from pool_get_serves [OF inv(1) example_shuffle inv(2) r] r show ?thesis
    by (auto simp: example_checkout_def example_pool_def example_address_def is_banned_def at_index_def)
qed

text \<open>
  C12: a checkout succeeds when a server can be used.  If some server of the pool fits the role and the shard
  asked for, is not banned (or all the replicas of its shard are, so that the bans are lifted), and
  answers the health check on a connection its pool hands out, then \<open>get\<close> returns a connection:
  failures of other candidates, and the bans they cause on the way, do not prevent it.  The other
  candidates must not make the health check panic, and no server has the role of a mirror.
\<close>

theorem pool_get_succeeds:
  assumes "pool_inv (ck_pool s)" "fair_shuffle env" "effective_shard shard_no (ck_pool s) = Ok e"
    and "a \<in> set (concat (cp_addresses (ck_pool s)))" "role_matches (a_role a) role"
    and "shard_selected e (ps_default_shard (cp_settings (ck_pool s))) a"
    and "open_to (layout (ck_pool s)) (cp_banlist (ck_pool s)) a" "answers env (layout (ck_pool s)) a"
    and "\<forall>b \<in> set (concat (cp_addresses (ck_pool s))). judged env ops (layout (ck_pool s)) b \<and> a_role b \<noteq> Mirror"
  shows "\<exists>conn b t. pool_get env ops shard_no role s = (Ok (conn, b), t)"
  by (rule pool_get_open [OF assms(1,2) refl assms(3) _ assms(5,6,7,8)]) (use assms(4,9) in \<open>simp_all add: members_def layout_def\<close>)

theorem pool_get_succeeds_witness:
  "\<exists>conn b t. pool_get example_env lru_list_ops None (Some Replica) example_checkout = (Ok (conn, b), t)"
proof (rule pool_get_succeeds [where e = "Some 0" and a = "example_address 1 Replica"])
  show "pool_inv (ck_pool example_checkout)" using example_inv by (simp add: example_checkout_def)
  show "effective_shard None (ck_pool example_checkout) = Ok (Some 0)"
    by (simp add: effective_shard_def pool_shards_def example_checkout_def example_pool_def)
  show "\<forall>b \<in> set (concat (cp_addresses (ck_pool example_checkout))). judged example_env lru_list_ops (layout (ck_pool example_checkout)) b \<and> a_role b \<noteq> Mirror"
    by (auto simp: example_judged example_checkout_def example_pool_def example_address_def)
  show "open_to (layout (ck_pool example_checkout)) (cp_banlist (ck_pool example_checkout)) (example_address 1 Replica)" by (rule example_open)
qed (auto simp: example_shuffle example_answers example_checkout_def example_pool_def shard_selected_def example_address_def)

text \<open>
  C4: a primary is never banned.  From a pool without bans, any sequence of bans, unbans, checkouts, pauses,
  validations and statement registrations leaves the addresses and settings as they are and keeps
  the invariant of the pool; in particular no primary is on the ban list, and asking for it does not
  panic.
\<close>

theorem primary_never_banned:
  assumes "aligned (cp_databases p) (cp_addresses p)" "cp_banlist p = replicate (length (cp_addresses p)) []"
    and "\<forall>env \<in> E. fair_shuffle env" "(pool_step E)\<^sup>*\<^sup>* p p'"
  shows "pool_inv p' \<and> layout p' = layout p
    \<and> (\<forall>a \<in> set (concat (cp_addresses p')). \<exists>banned. is_banned a p' = Ok banned \<and> (a_role a = Primary \<longrightarrow> \<not> banned))"
proof -
  have "pool_at (layout p) p" using assms(1,2) by (simp add: pool_at_def pool_inv_def bans_ok_def)
  from pool_steps_keep [OF assms(4,3) this] have p': "pool_at (layout p) p'" .
  have "\<exists>banned. is_banned a p' = Ok banned \<and> (a_role a = Primary \<longrightarrow> \<not> banned)" if a: "a \<in> set (concat (cp_addresses p'))" for a
  proof -
    note d = pool_atD [OF p']
    have i: "unat (a_shard a) < length (cp_addresses p')" using aligned_member(1) [OF d(1) a] .
    have "a \<notin> fst ` set (cp_banlist p' ! unat (a_shard a))" if "a_role a = Primary"
      using d(2) i that by (auto simp: bans_ok_def)
    then show ?thesis using pool_at_index(1) [OF p'] a d(3) by (simp add: is_banned_def map_of_eq_None_iff)
  qed
  with p' show ?thesis by (simp add: pool_at_def)
qed

theorem primary_never_banned_witness:
  "is_banned (example_address 0 Primary) (snd (ban 5 (example_address 0 Primary) FailedCheckout None (example_pool\<lparr>cp_banlist := [[]]\<rparr>))) = Ok False"
proof -
  let ?p = "example_pool\<lparr>cp_banlist := [[]]\<rparr>" let ?a = "example_address 0 Primary"
  let ?p' = "snd (ban 5 ?a FailedCheckout None ?p)"
  have "pool_step {example_env} ?p ?p'"
    by (rule step_ban [of ?a _ 5 FailedCheckout None "fst (ban 5 ?a FailedCheckout None ?p)"]) (simp_all add: example_pool_def)
  then have "(pool_step {example_env})\<^sup>*\<^sup>* ?p ?p'" by (rule r_into_rtranclp)
  moreover have "aligned (cp_databases ?p) (cp_addresses ?p)" using example_inv by (simp add: pool_inv_def)
  moreover have "cp_banlist ?p = replicate (length (cp_addresses ?p)) []" by (simp add: example_pool_def)
  ultimately have "layout ?p' = layout ?p \<and> (\<forall>a \<in> set (concat (cp_addresses ?p')). \<exists>banned. is_banned a ?p' = Ok banned \<and> (a_role a = Primary \<longrightarrow> \<not> banned))"
    using primary_never_banned [of ?p "{example_env}" ?p'] example_shuffle by simp
  moreover from this have "?a \<in> set (concat (cp_addresses ?p'))" by (auto simp: layout_def example_pool_def)
  moreover have "a_role ?a = Primary" by (simp add: example_address_def)
  ultimately show ?thesis by fastforce
qed

text \<open>
  Bans hold until they are lifted.  A replica that is banned at time \<open>t\<close> counts as banned; a later
  \<open>try_unban\<close> succeeds exactly when all the replicas of its shard are banned or the time of the ban
  has passed, the duration given by the administrator or the configured one, and then the replica is no
  longer banned.
\<close>

theorem ban_until_lifted:
  assumes "pool_inv p" "a \<in> set (concat (cp_addresses p))" "a_role a \<noteq> Primary"
    and "ban t a reason client p = (Ok client', p1)" "try_unban now a p1 = (Ok usable, p2)"
  shows "is_banned a p1 = Ok True \<and> is_banned a p2 = Ok (\<not> usable)
    \<and> (usable \<longleftrightarrow> length (cp_banlist p1 ! unat (a_shard a)) = length (filter (\<lambda>x. a_role x = Replica) (cp_addresses p ! unat (a_shard a)))
          \<or> sint (case reason of AdminBan duration \<Rightarrow> duration | _ \<Rightarrow> ps_ban_time (cp_settings p)) < sint (now - t))"
proof -
  let ?i = "unat (a_shard a)"
  have at: "pool_at (layout p) p" "a \<in> members (layout p)" using assms(1,2) by (simp_all add: pool_at_def members_def layout_def)
  from keepsD [OF keeps_ban [OF at(2)] at(1) assms(4)] have p1: "pool_at (layout p) p1" .
  from keepsD [OF keeps_try_unban [OF at(2)] p1 assms(5)] have p2: "pool_at (layout p) p2" .
  have i: "?i < length (cp_banlist p)" using pool_at_index(1) [OF at] by (auto simp: at_index_def split: if_splits)
  have b1: "cp_banlist p1 = (cp_banlist p)[?i := AList.update a (reason, t) (cp_banlist p ! ?i)]"
    using assms(3,4) pool_at_index(1) [OF at]
    by (auto simp: ban_def act_bind_Ok_iff act_when_def on_bans_def increment_error_count_def on_address_stats_def at_index_def split: if_splits)
  have m1: "map_of (cp_banlist p1 ! ?i) a = Some (reason, t)" using i by (simp add: b1 AList.update_conv')
  have l1: "cp_addresses p1 = cp_addresses p" "cp_settings p1 = cp_settings p" using pool_atD(4) [OF p1] by (simp_all add: layout_def)
  have lim: "exceeded_ban_time (ps_ban_time (cp_settings p)) now (reason, t)
      \<longleftrightarrow> sint (case reason of AdminBan duration \<Rightarrow> duration | _ \<Rightarrow> ps_ban_time (cp_settings p)) < sint (now - t)"
    by (cases reason) (simp_all add: exceeded_ban_time_def)
  note run = assms(5) [unfolded try_unban_def on_bans_def]
  show ?thesis
    using run assms(3) m1 i pool_at_index(1) [OF p1 at(2)] pool_at_index(1) [OF p2 at(2)] pool_at_index(2) [OF p1 at(2)] lim l1
    by (auto simp: is_banned_def act_bind_Ok_iff AList.delete_conv' b1 split: if_splits option.splits)
qed

theorem ban_until_lifted_witness:
  "is_banned (example_address 1 Replica) (snd (ban 5 (example_address 1 Replica) (AdminBan 60) None (example_pool\<lparr>cp_banlist := [[]]\<rparr>))) = Ok True"
proof -
  let ?p = "example_pool\<lparr>cp_banlist := [[]]\<rparr>" let ?a = "example_address 1 Replica"
  obtain c p1 where b: "ban 5 ?a (AdminBan 60) None ?p = (Ok c, p1)"
    by (simp add: ban_def act_bind_def act_when_def act_return_def act_get_def act_modify_def on_bans_def at_index_def counts_as_error_def
        example_address_def example_pool_def)
  have inv: "pool_inv ?p" using example_inv by (simp add: pool_inv_def bans_ok_def example_pool_def)
  have mem: "?a \<in> set (concat (cp_addresses ?p))" and role: "a_role ?a \<noteq> Primary" by (simp_all add: example_pool_def example_address_def)
  have at: "pool_at (layout ?p) ?p" "?a \<in> members (layout ?p)" using inv mem by (simp_all add: pool_at_def members_def layout_def)
  from try_unban_effect [OF keepsD [OF keeps_ban [OF at(2)] at(1) b] at(2), of 70] obtain usable p2 where "try_unban 70 ?a p1 = (Ok usable, p2)" by blast
  from ban_until_lifted [OF inv mem role b this] b show ?thesis by simp
qed

end
