(* ===== verification/Pool_Config.thy ===== *)
theory Pool_Config
  imports Auth_Passthrough Pool_Laws
begin

text \<open>
  \<open>ConnectionPool::from_config\<close> in \<open>src/src/pool.rs\<close>: the pools for a configuration.

  The environment makes a pool of connections from its settings and its manager, reads password
  hashes, hashes a configuration and compiles regular expressions.  The tasks that validate the new
  pools run on their own and are not part of the function.
\<close>

section \<open>Model\<close>

datatype queue_strategy = Fifo | Lifo

record pool_builder =
  pb_max_size :: u32
  pb_min_idle :: "u32 option"
  pb_connection_timeout :: u64
  pb_idle_timeout :: u64
  pb_max_lifetime :: u64
  pb_reaper_rate :: u64
  pb_queue_strategy :: queue_strategy

record 'd build_env =
  be_build :: "pool_builder \<Rightarrow> server_pool_manager \<Rightarrow> 'd result"
  be_build_unchecked :: "pool_builder \<Rightarrow> server_pool_manager \<Rightarrow> 'd"
  be_fetch_hash :: "auth_passthrough \<Rightarrow> address \<Rightarrow> string result"
  be_hash_value :: "pool_config \<Rightarrow> u64"
  be_regex :: "string \<Rightarrow> bool"

type_synonym ('d, 'p) pool_map = "pool_identifier \<rightharpoonup> ('d, 'p) connection_pool"

definition get_pool :: "string \<Rightarrow> string \<Rightarrow> ('d, 'p) pool_map \<Rightarrow> ('d, 'p) connection_pool option" where
  "get_pool db user pools = pools (pool_identifier_new db user)"

definition get_all_pools :: "('d, 'p) pool_map \<Rightarrow> ('d, 'p) pool_map" where
  "get_all_pools pools = pools"

text \<open>The mirrors of the server at \<open>address_index\<close>, from the position \<open>mirror_idx\<close> on, numbered from \<open>address_id\<close>.\<close>

fun mirror_addresses ::
  "(usize \<Rightarrow> usize \<Rightarrow> mirror_server_config \<Rightarrow> address) \<Rightarrow> usize \<Rightarrow> usize \<Rightarrow> mirror_server_config list \<Rightarrow> usize \<Rightarrow> address list \<times> usize" where
  "mirror_addresses mk address_index mirror_idx [] address_id = ([], address_id)"
| "mirror_addresses mk address_index mirror_idx (mirror # mirrors) address_id =
     (if ms_mirroring_target_index mirror \<noteq> address_index
      then mirror_addresses mk address_index (mirror_idx + 1) mirrors address_id
      else let (addresses, next_id) = mirror_addresses mk address_index (mirror_idx + 1) mirrors (address_id + 1)
           in (mk address_id mirror_idx mirror # addresses, next_id))"

text \<open>The timeouts of a user, or of the pool, or the general ones.\<close>

definition first_set :: "'a option \<Rightarrow> 'a option \<Rightarrow> 'a \<Rightarrow> 'a" where
  "first_set user pool general = (case user of Some x \<Rightarrow> x | None \<Rightarrow> (case pool of Some x \<Rightarrow> x | None \<Rightarrow> general))"

definition POOL_REAPER_RATE :: u64 where
  "POOL_REAPER_RATE = 30000"

definition builder_for :: "general \<Rightarrow> pool_config \<Rightarrow> user \<Rightarrow> pool_builder" where
  "builder_for general pool_config user =
     (let connect_timeout = first_set (u_connect_timeout user) (pc_connect_timeout pool_config) (g_connect_timeout general);
          idle_timeout = first_set (u_idle_timeout user) (pc_idle_timeout pool_config) (g_idle_timeout general);
          server_lifetime = first_set (u_server_lifetime user) (pc_server_lifetime pool_config) (g_server_lifetime general)
      in \<lparr> pb_max_size = u_pool_size user, pb_min_idle = u_min_pool_size user, pb_connection_timeout = connect_timeout,
           pb_idle_timeout = idle_timeout, pb_max_lifetime = server_lifetime,
           pb_reaper_rate = min idle_timeout (min server_lifetime POOL_REAPER_RATE),
           pb_queue_strategy = (if g_server_round_robin general then Fifo else Lifo) \<rparr>)"

definition pool_plugins :: "config \<Rightarrow> pool_config \<Rightarrow> plugins option" where
  "pool_plugins config pool_config = (case pc_plugins pool_config of Some plugins \<Rightarrow> Some plugins | None \<Rightarrow> cf_plugins config)"

text \<open>The hash of a server, which replaces the one found before; a failure is only logged.\<close>

definition fetch_pool_hash :: "'d build_env \<Rightarrow> pool_config \<Rightarrow> address \<Rightarrow> string option \<Rightarrow> string option result" where
  "fetch_pool_hash env pool_config address pool_auth_hash =
     rbind (from_pool_config pool_config) (\<lambda>auth_passthrough.
     case auth_passthrough of
       None \<Rightarrow> Ok pool_auth_hash
     | Some apt \<Rightarrow> (case be_fetch_hash env apt address of Ok hash \<Rightarrow> Ok (Some hash) | Err _ \<Rightarrow> Ok pool_auth_hash | Panic \<Rightarrow> Panic))"

definition build_pool_of :: "'d build_env \<Rightarrow> config \<Rightarrow> pool_config \<Rightarrow> user \<Rightarrow> string \<Rightarrow> address \<Rightarrow> 'd result" where
  "build_pool_of env config pool_config user database address =
     (let manager = server_pool_manager_new address user database (pool_plugins config pool_config)
            (pc_cleanup_server_connections pool_config) (pc_prepared_statements_cache_size pool_config);
          builder = builder_for (cf_general config) pool_config user
      in if g_validate_config (cf_general config) then be_build env builder manager
         else Ok (be_build_unchecked env builder manager))"

text \<open>The servers of a shard from the position \<open>address_index\<close> on, with the identifiers and the hash
  passed along.\<close>

fun build_servers ::
  "'d build_env \<Rightarrow> config \<Rightarrow> string \<Rightarrow> pool_config \<Rightarrow> user \<Rightarrow> string \<Rightarrow> shard_config \<Rightarrow> usize \<Rightarrow> usize \<Rightarrow> server_config list \<Rightarrow>
   usize \<times> string option \<Rightarrow> (('d \<times> address) list \<times> usize \<times> string option) result" where
  "build_servers env config pool_name pool_config user shard_idx sh address_index replica_number [] (address_id, hash) = Ok ([], address_id, hash)"
| "build_servers env config pool_name pool_config user shard_idx sh address_index replica_number (server # servers) (address_id, hash) =
     rbind (unwrap (parse_usize shard_idx)) (\<lambda>shard_no.
     let (mirrors, address_id) =
           mirror_addresses (\<lambda>id idx m. Address id (ms_host m) (ms_port m) shard_no (sh_database sh) (sc_role server) replica_number idx
                                (u_username user) pool_name [])
             address_index 0 (case sh_mirrors sh of Some ms \<Rightarrow> ms | None \<Rightarrow> []) address_id;
         address = Address address_id (sc_host server) (sc_port server) shard_no (sh_database sh) (sc_role server) replica_number address_index
                     (u_username user) pool_name mirrors
     in rbind (fetch_pool_hash env pool_config address hash) (\<lambda>hash.
        rbind (build_pool_of env config pool_config user (sh_database sh) address) (\<lambda>pool.
        rbind (build_servers env config pool_name pool_config user shard_idx sh (address_index + 1)
                 (if sc_role server = Replica then replica_number + 1 else replica_number) servers (address_id + 1, hash)) (\<lambda>(rest, address_id, hash).
        Ok ((pool, address) # rest, address_id, hash)))))"

fun build_shards ::
  "'d build_env \<Rightarrow> config \<Rightarrow> string \<Rightarrow> pool_config \<Rightarrow> user \<Rightarrow> string list \<Rightarrow> usize \<times> string option \<Rightarrow>
   (('d \<times> address) list list \<times> usize \<times> string option) result" where
  "build_shards env config pool_name pool_config user [] (address_id, hash) = Ok ([], address_id, hash)"
| "build_shards env config pool_name pool_config user (shard_idx # shard_ids) (address_id, hash) =
     rbind (unwrap (map_of (pc_shards pool_config) shard_idx)) (\<lambda>sh.
     rbind (build_servers env config pool_name pool_config user shard_idx sh 0 0 (sh_servers sh) (address_id, hash)) (\<lambda>(servers, address_id, hash).
     rbind (build_shards env config pool_name pool_config user shard_ids (address_id, hash)) (\<lambda>(rest, address_id, hash).
     Ok (servers # rest, address_id, hash))))"

text \<open>\<open>sort_by_key(|k| k.parse::<i64>().unwrap())\<close> reads the keys when there are two.\<close>

definition sort_shard_ids :: "string list \<Rightarrow> string list result" where
  "sort_shard_ids shard_ids =
     (if 2 \<le> length shard_ids \<and> list_ex (\<lambda>k. parse_i64 k = None) shard_ids then Panic
      else Ok (sort_key (\<lambda>k. case parse_i64 k of Some i \<Rightarrow> sint i | None \<Rightarrow> 0) shard_ids))"

definition default_role_of :: "string \<Rightarrow> role option result" where
  "default_role_of name =
     (if name = ''any'' then Ok None else if name = ''replica'' then Ok (Some Replica)
      else if name = ''primary'' then Ok (Some Primary) else Panic)"

definition compile_regex :: "'d build_env \<Rightarrow> string option \<Rightarrow> string option result" where
  "compile_regex env regex =
     (case regex of None \<Rightarrow> Ok None | Some r \<Rightarrow> if be_regex env r then Ok (Some r) else Panic)"

definition settings_for :: "'d build_env \<Rightarrow> config \<Rightarrow> string \<Rightarrow> pool_config \<Rightarrow> user \<Rightarrow> nat \<Rightarrow> pool_settings result" where
  "settings_for env config pool_name pool_config user n =
     rbind (default_role_of (pc_default_role pool_config)) (\<lambda>default_role.
     rbind (compile_regex env (pc_sharding_key_regex pool_config)) (\<lambda>sharding_key_regex.
     rbind (compile_regex env (pc_shard_id_regex pool_config)) (\<lambda>shard_id_regex.
     Ok \<lparr> ps_pool_mode = (case u_pool_mode user of Some mode \<Rightarrow> mode | None \<Rightarrow> pc_pool_mode pool_config),
          ps_load_balancing_mode = pc_load_balancing_mode pool_config,
          ps_checkout_failure_limit = pc_checkout_failure_limit pool_config, ps_shards = of_nat n, ps_user = user, ps_db = pool_name,
          ps_default_role = default_role, ps_query_parser_enabled = pc_query_parser_enabled pool_config,
          ps_query_parser_max_length = pc_query_parser_max_length pool_config,
          ps_query_parser_read_write_splitting = pc_query_parser_read_write_splitting pool_config,
          ps_primary_reads_enabled = pc_primary_reads_enabled pool_config,
          ps_db_activity_based_routing = pc_db_activity_based_routing pool_config,
          ps_db_activity_init_delay = pc_db_activity_init_delay pool_config, ps_db_activity_ttl = pc_db_activity_ttl pool_config,
          ps_table_mutation_cache_ms_ttl = pc_table_mutation_cache_ms_ttl pool_config,
          ps_sharding_function = pc_sharding_function pool_config,
          ps_automatic_sharding_key = pc_automatic_sharding_key pool_config,
          ps_healthcheck_timeout = g_healthcheck_timeout (cf_general config), ps_healthcheck_delay = g_healthcheck_delay (cf_general config),
          ps_ban_time = g_ban_time (cf_general config), ps_sharding_key_regex = sharding_key_regex, ps_shard_id_regex = shard_id_regex,
          ps_default_shard = pc_default_shard pool_config,
          ps_regex_search_limit = (case pc_regex_search_limit pool_config of Some n \<Rightarrow> n | None \<Rightarrow> 1000),
          ps_auth_query = pc_auth_query pool_config, ps_auth_query_user = pc_auth_query_user pool_config,
          ps_auth_query_password = pc_auth_query_password pool_config, ps_plugins = pool_plugins config pool_config \<rparr>)))"

text \<open>The new pool of a user, and the next address identifier.\<close>

definition build_pool ::
  "'d build_env \<Rightarrow> (u64, parse_msg, 'p) lru_ops \<Rightarrow> config \<Rightarrow> string \<Rightarrow> pool_config \<Rightarrow> user \<Rightarrow> usize \<Rightarrow> (('d, 'p) connection_pool \<times> usize) result" where
  "build_pool env ops config pool_name pool_config user address_id =
     rbind (sort_shard_ids (map fst (pc_shards pool_config))) (\<lambda>shard_ids.
     rbind (build_shards env config pool_name pool_config user shard_ids (address_id, None)) (\<lambda>(servers, address_id, hash).
     rbind (settings_for env config pool_name pool_config user (length shard_ids)) (\<lambda>settings.
     Ok (\<lparr> cp_databases = map (map fst) servers, cp_addresses = map (map snd) servers, cp_banlist = map (\<lambda>_. []) servers,
           cp_address_stats = (\<lambda>_. address_stats_default), cp_error_count = (\<lambda>_. 0),
           cp_original_server_parameters = server_parameters_new, cp_settings = settings, cp_validated = False,
           cp_config_hash = be_hash_value env pool_config, cp_paused = False, cp_auth_hash = hash,
           cp_prepared_statement_cache =
             (if pc_prepared_statements_cache_size pool_config = 0 then None
              else Some (statement_cache_new ops (pc_prepared_statements_cache_size pool_config))) \<rparr>,
         address_id))))"

definition build_user ::
  "'d build_env \<Rightarrow> (u64, parse_msg, 'p) lru_ops \<Rightarrow> config \<Rightarrow> ('d, 'p) pool_map \<Rightarrow> string \<Rightarrow> pool_config \<Rightarrow> user \<Rightarrow>
   ('d, 'p) pool_map \<times> usize \<Rightarrow> (('d, 'p) pool_map \<times> usize) result" where
  "build_user env ops config pools pool_name pool_config user = (\<lambda>(new_pools, address_id).
     let identifier = pool_identifier_new pool_name (u_username user);
         fresh = rbind (build_pool env ops config pool_name pool_config user address_id) (\<lambda>(pool, address_id).
                   Ok (new_pools(identifier \<mapsto> pool), address_id))
     in case get_pool pool_name (u_username user) pools of
          Some pool \<Rightarrow> if cp_config_hash pool = be_hash_value env pool_config then Ok (new_pools(identifier \<mapsto> pool), address_id) else fresh
        | None \<Rightarrow> fresh)"

fun foldM :: "('a \<Rightarrow> 's \<Rightarrow> 's result) \<Rightarrow> 'a list \<Rightarrow> 's \<Rightarrow> 's result" where
  "foldM f [] s = Ok s"
| "foldM f (x # xs) s = rbind (f x s) (foldM f xs)"

text \<open>The result and the pools in force afterwards.\<close>

definition pools_from_config ::
  "'d build_env \<Rightarrow> (u64, parse_msg, 'p) lru_ops \<Rightarrow> config \<Rightarrow> (('d, 'p) pool_map, unit) act" where
  "pools_from_config env ops config pools =
     (case foldM (\<lambda>(pool_name, pool_config). foldM (\<lambda>(_, user). build_user env ops config pools pool_name pool_config user) (pc_users pool_config))
             (cf_pools config) (Map.empty, 0) of
        Ok (new_pools, _) \<Rightarrow> (Ok (), new_pools)
      | Err e \<Rightarrow> (Err e, pools)
      | Panic \<Rightarrow> (Panic, pools))"

section \<open>Correctness\<close>

lemma build_servers_Ok:
  assumes "build_servers env config pool_name pool_config user shard_idx sh address_index replica_number servers (address_id, hash) = Ok (res, x)"
  shows "length res = length servers
    \<and> (\<forall>j < length servers. parse_usize shard_idx = Some (a_shard (snd (res ! j))) \<and> a_address_index (snd (res ! j)) = address_index + of_nat j
         \<and> a_host (snd (res ! j)) = sc_host (servers ! j) \<and> a_port (snd (res ! j)) = sc_port (servers ! j) \<and> a_role (snd (res ! j)) = sc_role (servers ! j))"
  using assms
proof (induction servers arbitrary: address_index replica_number address_id hash res x)
  case (Cons server servers)
  obtain n where n: "parse_usize shard_idx = Some n" using Cons.prems by (auto simp: rbind_Ok_iff unwrap_Ok_iff)
  let ?m = "mirror_addresses (\<lambda>id idx m. Address id (ms_host m) (ms_port m) n (sh_database sh) (sc_role server) replica_number idx
              (u_username user) pool_name []) address_index 0 (case sh_mirrors sh of Some ms \<Rightarrow> ms | None \<Rightarrow> []) address_id"
  obtain mirrors id where m: "?m = (mirrors, id)" by (cases ?m)
  from Cons.prems n m obtain pool rest hash' y
    where rest: "build_servers env config pool_name pool_config user shard_idx sh (address_index + 1)
                 (if sc_role server = Replica then replica_number + 1 else replica_number) servers (id + 1, hash') = Ok (rest, y)"
    and res: "res = (pool, Address id (sc_host server) (sc_port server) n (sh_database sh) (sc_role server) replica_number address_index
                     (u_username user) pool_name mirrors) # rest"
    by (auto simp: rbind_Ok_iff unwrap_Ok_iff Let_def split del: if_split)
  show ?case using Cons.IH [OF rest] n by (simp add: res All_less_Suc2 algebra_simps)
qed simp

lemma build_shards_Ok:
  assumes "build_shards env config pool_name pool_config user ids (address_id, hash) = Ok (res, x)"
  shows "length res = length ids
    \<and> (\<forall>i < length ids. \<exists>sh id h y. map_of (pc_shards pool_config) (ids ! i) = Some sh
         \<and> build_servers env config pool_name pool_config user (ids ! i) sh 0 0 (sh_servers sh) (id, h) = Ok (res ! i, y))"
  using assms
proof (induction ids arbitrary: address_id hash res x)
  case (Cons k ids)
  then obtain sh srv id h rest where k: "map_of (pc_shards pool_config) k = Some sh"
    "build_servers env config pool_name pool_config user k sh 0 0 (sh_servers sh) (address_id, hash) = Ok (srv, id, h)"
    and rest: "build_shards env config pool_name pool_config user ids (id, h) = Ok (rest, x)" and res: "res = srv # rest"
    by (auto simp: rbind_Ok_iff unwrap_Ok_iff split: prod.splits)
  have "length rest = length ids
    \<and> (\<forall>i < length ids. \<exists>sh id h y. map_of (pc_shards pool_config) (ids ! i) = Some sh
         \<and> build_servers env config pool_name pool_config user (ids ! i) sh 0 0 (sh_servers sh) (id, h) = Ok (rest ! i, y))"
    by (rule Cons.IH [OF rest])
  with k res show ?case by (auto simp: nth_Cons split: nat.splits)
qed simp

lemma of_nat_small: "n < 2 ^ 64 \<Longrightarrow> unat (of_nat n :: usize) = n" "n < 2 ^ 63 \<Longrightarrow> sint (of_nat n :: i64) = int n"
  "n < 2 ^ 64 \<Longrightarrow> uint (of_nat n :: usize) = int n"
  by (simp_all add: unat_of_nat take_bit_nat_eq_self signed_of_nat signed_take_bit_int_eq_self unsigned_of_nat)

lemma sort_map_int_upt: "sort (map int [0..<n]) = map int [0..<n]"
  by (rule sorted_sort_id) (simp add: sorted_map)

lemma parse_signed_unsigned:
  assumes "parse_unsigned mx k = Some n" "n \<le> mx'"
  shows "parse_signed mx' k = Some (int n)"
proof (cases k)
  case Nil
  then show ?thesis using assms by (simp add: parse_unsigned_def parse_digits_def)
next
  case (Cons c r)
  have "parse_digits (CHR ''-'' # r) = None" by (simp add: parse_digits_def is_digit_def)
  with assms Cons show ?thesis by (cases "c = CHR ''+''"; cases "c = CHR ''-''") (auto simp: parse_unsigned_def parse_signed_def split: option.splits if_splits)
qed

lemma parse_usize_i64:
  assumes "parse_usize k = Some (of_nat i)" "i < 2 ^ 63"
  shows "parse_i64 k = Some (of_nat i)"
proof -
  from assms(1) obtain n where n: "parse_unsigned 18446744073709551615 k = Some n" "(of_nat n :: usize) = of_nat i"
    by (auto simp: parse_usize_def)
  from n(1) have "n < 2 ^ 64" by (cases "parse_digits (case k of c # r \<Rightarrow> if c = CHR ''+'' then r else k | [] \<Rightarrow> k)") (simp_all add: parse_unsigned_def split: if_splits)
  then have "unat (of_nat n :: usize) = n" by (rule of_nat_small(1))
  moreover from assms(2) have "unat (of_nat i :: usize) = i" by (intro of_nat_small(1)) simp
  ultimately have "n = i" using n(2) by metis
  with n(1) assms(2) have "parse_signed 9223372036854775807 k = Some (int i)"
    by (intro parse_signed_unsigned [OF n(1) [unfolded \<open>n = i\<close>]]) simp
  then show ?thesis by (simp add: parse_i64_def)
qed

text \<open>The identifiers of the shards are the numbers below their count, in any order.\<close>

definition numbered :: "pool_config \<Rightarrow> bool" where
  "numbered pool_config \<longleftrightarrow>
     mset (map (parse_usize \<circ> fst) (pc_shards pool_config)) = mset (map (Some \<circ> of_nat) [0..<length (pc_shards pool_config)])"

lemma sort_shard_ids_numbered:
  assumes "sort_shard_ids ids = Ok sorted_ids" "length ids < 2 ^ 63"
  shows "mset (map parse_usize ids) = mset (map (Some \<circ> of_nat) [0..<length ids])
    \<longleftrightarrow> (\<forall>i < length ids. parse_usize (sorted_ids ! i) = Some (of_nat i))" (is "?l \<longleftrightarrow> ?r")
proof
  let ?f = "\<lambda>k. case parse_i64 k of Some i \<Rightarrow> sint i | None \<Rightarrow> 0"
  have srt: "sorted_ids = sort_key ?f ids" using assms(1) by (simp add: sort_shard_ids_def split: if_splits)
  then have ms: "mset sorted_ids = mset ids" "length sorted_ids = length ids" by auto
  show ?l if ?r
  proof -
    from that ms(2) have "map parse_usize sorted_ids = map (Some \<circ> of_nat) [0..<length ids]" by (intro nth_equalityI) auto
    with ms(1) show ?thesis by (metis mset_map)
  qed
  show ?r if ?l
  proof -
    have g: "parse_usize k = Some (of_nat i) \<Longrightarrow> i < length ids \<Longrightarrow> ?f k = int i" for k i
      using parse_usize_i64 [of k i] assms(2) by (simp add: of_nat_small)
    have p: "\<exists>i < length ids. parse_usize k = Some (of_nat i)" if "k \<in> set ids" for k
    proof -
      from that have "parse_usize k \<in># mset (map parse_usize ids)" by simp
      with \<open>?l\<close> show ?thesis by auto
    qed
    define h where "h = (\<lambda>x :: usize option. int (unat (the x)))"
    have hf: "h (parse_usize k) = ?f k" if "k \<in> set ids" for k
      using p [OF that] g assms(2) by (auto simp: h_def of_nat_small)
    have "map ?f ids = map h (map parse_usize ids)" using hf by simp
    then have "mset (map ?f ids) = image_mset h (mset (map parse_usize ids))" by (metis mset_map)
    also have "\<dots> = mset (map int [0..<length ids])"
      using \<open>?l\<close> assms(2) by (auto simp: h_def of_nat_small multiset.map_comp intro!: image_mset_cong)
    finally have "mset (map ?f sorted_ids) = mset (map int [0..<length ids])" using ms by (metis mset_map)
    moreover have "sorted (map ?f sorted_ids)" using srt by simp
    ultimately have eq: "map ?f sorted_ids = map int [0..<length ids]"
      by (metis properties_for_sort sorted_sort sort_map_int_upt)
    show ?r
    proof (intro allI impI)
      fix i assume i: "i < length ids"
      with ms have "sorted_ids ! i \<in> set ids" by (metis nth_mem set_mset_mset)
      then obtain j where j: "j < length ids" "parse_usize (sorted_ids ! i) = Some (of_nat j)" using p by auto
      from eq i ms(2) have "?f (sorted_ids ! i) = int i" by (metis (no_types, lifting) add_0 diff_zero length_upt nth_map nth_upt)
      with g [OF j(2) j(1)] j(2) show "parse_usize (sorted_ids ! i) = Some (of_nat i)" by simp
    qed
  qed
qed

lemma build_pool_shards:
  assumes "build_pool env ops config pool_name pool_config user address_id = Ok (pool, x)"
  obtains ids servers y where "sort_shard_ids (map fst (pc_shards pool_config)) = Ok ids" "mset ids = mset (map fst (pc_shards pool_config))"
    "build_shards env config pool_name pool_config user ids (address_id, None) = Ok (servers, y)"
    "cp_databases pool = map (map fst) servers" "cp_addresses pool = map (map snd) servers" "cp_banlist pool = map (\<lambda>_. []) servers"
proof -
  from assms obtain ids where "sort_shard_ids (map fst (pc_shards pool_config)) = Ok ids"
    "\<exists>servers y. build_shards env config pool_name pool_config user ids (address_id, None) = Ok (servers, y)
       \<and> cp_databases pool = map (map fst) servers \<and> cp_addresses pool = map (map snd) servers \<and> cp_banlist pool = map (\<lambda>_. []) servers"
    by (fastforce simp: build_pool_def rbind_Ok_iff)
  moreover from this(1) have "mset ids = mset (map fst (pc_shards pool_config))" by (auto simp: sort_shard_ids_def split: if_splits)
  ultimately show thesis using that by blast
qed

text \<open>The shards of a validated pool: each has servers, and fewer than the width of an index.\<close>

definition shards_filled :: "pool_config \<Rightarrow> bool" where
  "shards_filled pool_config \<longleftrightarrow> length (pc_shards pool_config) < 2 ^ 63
     \<and> list_all (\<lambda>(_, sh). sh_servers sh \<noteq> [] \<and> length (sh_servers sh) < 2 ^ 64) (pc_shards pool_config)"

text \<open>
  C21: The pool that \<open>from_config\<close> builds puts each address where its own shard number and index point,
  with nothing banned, exactly when the identifiers of the configured shards are the numbers from zero on.
  For every other choice of identifiers the lists are out of step with the addresses.
\<close>

theorem build_pool_inv:
  assumes built: "build_pool env ops config pool_name pool_config user address_id = Ok (pool, next_id)"
    and "shards_filled pool_config"
  shows "pool_inv pool \<longleftrightarrow> numbered pool_config"
proof -
  let ?n = "length (pc_shards pool_config)"
  obtain ids servers y where ids: "sort_shard_ids (map fst (pc_shards pool_config)) = Ok ids" "mset ids = mset (map fst (pc_shards pool_config))"
    and srv: "build_shards env config pool_name pool_config user ids (address_id, None) = Ok (servers, y)"
    and cp: "cp_databases pool = map (map fst) servers" "cp_addresses pool = map (map snd) servers" "cp_banlist pool = map (\<lambda>_. []) servers"
    using build_pool_shards [OF built] .
  have len: "length ids = ?n" "length servers = ?n" using mset_eq_length [OF ids(2)] build_shards_Ok [OF srv] by simp_all
  have row: "servers ! i \<noteq> [] \<and> length (servers ! i) < 2 ^ 64
      \<and> (\<forall>j < length (servers ! i). parse_usize (ids ! i) = Some (a_shard (snd (servers ! i ! j))) \<and> unat (a_address_index (snd (servers ! i ! j))) = j)"
    if i: "i < ?n" for i
  proof -
    from build_shards_Ok [OF srv] i len obtain sh id h z where sh: "map_of (pc_shards pool_config) (ids ! i) = Some sh"
      and b: "build_servers env config pool_name pool_config user (ids ! i) sh 0 0 (sh_servers sh) (id, h) = Ok (servers ! i, z)" by auto
    from map_of_SomeD [OF sh] assms(2) have "sh_servers sh \<noteq> []" "length (sh_servers sh) < 2 ^ 64"
      by (auto simp: shards_filled_def list_all_iff)
    with build_servers_Ok [OF b] show ?thesis by (auto simp: of_nat_small)
  qed
  have "pool_inv pool \<longleftrightarrow> (\<forall>i < ?n. \<forall>j < length (servers ! i). unat (a_shard (snd (servers ! i ! j))) = i)"
    using row assms(2) by (auto simp: pool_inv_def aligned_def bans_ok_def cp len shards_filled_def)
  also have "\<dots> \<longleftrightarrow> (\<forall>i < ?n. parse_usize (ids ! i) = Some (of_nat i))"
  proof (intro iff_allI imp_cong refl)
    fix i assume i: "i < ?n"
    with assms(2) have "unat (of_nat i :: usize) = i" by (intro of_nat_small) (simp add: shards_filled_def)
    then have "unat w = i \<longleftrightarrow> w = of_nat i" for w :: usize by auto
    with row [OF i] show "(\<forall>j < length (servers ! i). unat (a_shard (snd (servers ! i ! j))) = i) \<longleftrightarrow> parse_usize (ids ! i) = Some (of_nat i)"
      by (metis length_greater_0_conv option.inject)
  qed
  also have "\<dots> \<longleftrightarrow> numbered pool_config"
    using sort_shard_ids_numbered [OF ids(1)] assms(2) by (simp add: numbered_def shards_filled_def)
  finally show ?thesis .
qed

definition example_build_env :: "nat build_env" where
  "example_build_env =
     \<lparr> be_build = (\<lambda>_ _. Ok 0), be_build_unchecked = (\<lambda>_ _. 0), be_fetch_hash = (\<lambda>_ _. Err AllServersDown), be_hash_value = (\<lambda>_. 7), be_regex = (\<lambda>_. True) \<rparr>"

definition example_pool_config :: pool_config where
  "example_pool_config = pool_default\<lparr>pc_shards := [(''1'', shard_default), (''0'', shard_default)], pc_users := [(''0'', user_default)]\<rparr>"

lemmas pool_config_evals = build_pool_def sort_shard_ids_def parse_usize_def parse_i64_def parse_unsigned_def parse_signed_def parse_digits_def
  is_digit_def digits_val_def digit_val_def settings_for_def default_role_of_def compile_regex_def fetch_pool_hash_def from_pool_config_def
  pool_is_auth_query_configured_def build_pool_of_def pool_default_def shard_default_def example_build_env_def Let_def

theorem build_pool_inv_witness:
  "(\<exists>pool n. build_pool example_build_env lru_list_ops config_default ''db'' example_pool_config user_default 0 = Ok (pool, n) \<and> pool_inv pool)
   \<and> (\<exists>pool n. build_pool example_build_env lru_list_ops config_default ''db'' pool_default user_default 0 = Ok (pool, n) \<and> \<not> pool_inv pool)"
proof
  have "\<exists>pool n. build_pool example_build_env lru_list_ops config_default ''db'' example_pool_config user_default 0 = Ok (pool, n)"
    by (simp add: pool_config_evals example_pool_config_def config_default_def general_default_def)
  moreover have "shards_filled example_pool_config" by (simp add: shards_filled_def example_pool_config_def shard_default_def)
  moreover have "numbered example_pool_config" by (simp add: numbered_def example_pool_config_def pool_config_evals upt_rec)
  ultimately show "\<exists>pool n. build_pool example_build_env lru_list_ops config_default ''db'' example_pool_config user_default 0 = Ok (pool, n) \<and> pool_inv pool"
    using build_pool_inv by blast
  have "\<exists>pool n. build_pool example_build_env lru_list_ops config_default ''db'' pool_default user_default 0 = Ok (pool, n)"
    by (simp add: pool_config_evals config_default_def general_default_def)
  moreover have "shards_filled pool_default" by (simp add: shards_filled_def pool_default_def shard_default_def)
  moreover have "\<not> numbered pool_default" by (simp add: numbered_def pool_config_evals)
  ultimately show "\<exists>pool n. build_pool example_build_env lru_list_ops config_default ''db'' pool_default user_default 0 = Ok (pool, n) \<and> \<not> pool_inv pool"
    using build_pool_inv by blast
qed

subsection \<open>Reloading\<close>

definition configured :: "config \<Rightarrow> pool_identifier \<Rightarrow> bool" where
  "configured config i \<longleftrightarrow> (\<exists>pool_config. (pi_db i, pool_config) \<in> set (cf_pools config) \<and> pi_user i \<in> u_username ` snd ` set (pc_users pool_config))"

text \<open>The pool in force before when its configuration has the same hash, else a new one.\<close>

definition provided ::
  "'d build_env \<Rightarrow> (u64, parse_msg, 'p) lru_ops \<Rightarrow> config \<Rightarrow> ('d, 'p) pool_map \<Rightarrow> pool_config \<Rightarrow> pool_identifier \<Rightarrow> ('d, 'p) connection_pool \<Rightarrow> bool" where
  "provided env ops config pools pool_config i pool \<longleftrightarrow>
     (if \<exists>old. pools i = Some old \<and> cp_config_hash old = be_hash_value env pool_config then pools i = Some pool
      else \<exists>user id next_id. user \<in> snd ` set (pc_users pool_config) \<and> u_username user = pi_user i
             \<and> build_pool env ops config (pi_db i) pool_config user id = Ok (pool, next_id))"

lemma build_user_Ok:
  assumes "build_user env ops config pools name pool_config user (m, n) = Ok (m', n')" "user \<in> snd ` set (pc_users pool_config)"
  obtains pool where "m' = m(pool_identifier_new name (u_username user) \<mapsto> pool)"
    "provided env ops config pools pool_config (pool_identifier_new name (u_username user)) pool"
  using assms
  by (cases "pools (pool_identifier_new name (u_username user))")
    (auto simp: build_user_def get_pool_def provided_def Let_def rbind_Ok_iff pool_identifier_new_def image_iff split: if_splits)

lemma foldM_keeps:
  "foldM f xs s = Ok s' \<Longrightarrow> (\<And>x s s'. x \<in> set xs \<Longrightarrow> f x s = Ok s' \<Longrightarrow> I s \<Longrightarrow> I s') \<Longrightarrow> I s \<Longrightarrow> I s'"
  by (induction xs arbitrary: s) (auto simp: rbind_Ok_iff unwrap_Ok_iff)

lemma foldM_covers:
  assumes "foldM f xs s = Ok s'" and step: "\<And>x s s'. x \<in> set xs \<Longrightarrow> f x s = Ok s' \<Longrightarrow> D s \<union> g x \<subseteq> D s'"
  shows "D s \<union> (\<Union>x \<in> set xs. g x) \<subseteq> D s'"
  using assms
proof (induction xs arbitrary: s)
  case (Cons x xs)
  then obtain t where t: "f x s = Ok t" "foldM f xs t = Ok s'" by (auto simp: rbind_Ok_iff unwrap_Ok_iff)
  with Cons.IH [of t] Cons.prems(2) have "D t \<union> (\<Union>x \<in> set xs. g x) \<subseteq> D s'" by auto
  moreover have "D s \<union> g x \<subseteq> D t" by (rule Cons.prems(2) [OF _ t(1)]) simp
  ultimately show ?case by auto
qed simp

text \<open>What one database adds, and what all of them add.\<close>

definition pool_step_of :: "'d build_env \<Rightarrow> (u64, parse_msg, 'p) lru_ops \<Rightarrow> config \<Rightarrow> ('d, 'p) pool_map \<Rightarrow> string \<times> pool_config \<Rightarrow>
    ('d, 'p) pool_map \<times> usize \<Rightarrow> (('d, 'p) pool_map \<times> usize) result" where
  "pool_step_of env ops config pools = (\<lambda>(name, pool_config).
     foldM (\<lambda>(_, user). build_user env ops config pools name pool_config user) (pc_users pool_config))"

definition entries_from :: "'d build_env \<Rightarrow> (u64, parse_msg, 'p) lru_ops \<Rightarrow> config \<Rightarrow> ('d, 'p) pool_map \<Rightarrow> ('d, 'p) pool_map \<times> usize \<Rightarrow> bool" where
  "entries_from env ops config pools s \<longleftrightarrow> (\<forall>i pool. fst s i = Some pool \<longrightarrow> configured config i
     \<and> (\<exists>pool_config. (pi_db i, pool_config) \<in> set (cf_pools config) \<and> provided env ops config pools pool_config i pool))"

lemma build_user_entries:
  assumes "(name, pool_config) \<in> set (cf_pools config)" "(k, user) \<in> set (pc_users pool_config)"
    and "build_user env ops config pools name pool_config user s = Ok s'"
  shows "entries_from env ops config pools s \<Longrightarrow> entries_from env ops config pools s'"
    and "dom (fst s) \<union> {pool_identifier_new name (u_username user)} \<subseteq> dom (fst s')"
proof -
  obtain m n m' n' where e: "s = (m, n)" "s' = (m', n')" by (cases s; cases s')
  have u: "user \<in> snd ` set (pc_users pool_config)" using assms(2) by force
  from build_user_Ok [OF assms(3) [unfolded e] u] obtain pool
    where m': "m' = m(pool_identifier_new name (u_username user) \<mapsto> pool)"
      and p: "provided env ops config pools pool_config (pool_identifier_new name (u_username user)) pool" .
  show "dom (fst s) \<union> {pool_identifier_new name (u_username user)} \<subseteq> dom (fst s')" by (auto simp: e m')
  have "configured config (pool_identifier_new name (u_username user))"
    using assms(1) u by (auto simp: configured_def pool_identifier_new_def)
  then show "entries_from env ops config pools s'" if "entries_from env ops config pools s"
    using that p assms(1) by (auto simp: entries_from_def e m' pool_identifier_new_def)
qed

lemma pool_step_entries:
  assumes "(name, pool_config) \<in> set (cf_pools config)" and run: "pool_step_of env ops config pools (name, pool_config) s = Ok s'"
  shows "entries_from env ops config pools s \<Longrightarrow> entries_from env ops config pools s'"
    and "dom (fst s) \<union> (\<Union>(k, user) \<in> set (pc_users pool_config). {pool_identifier_new name (u_username user)}) \<subseteq> dom (fst s')"
proof -
  note step = build_user_entries [OF assms(1)]
  note run' = run [unfolded pool_step_of_def prod.case]
  show "entries_from env ops config pools s'" if "entries_from env ops config pools s"
    by (rule foldM_keeps [where I = "entries_from env ops config pools", OF run']) (auto dest: step(1) intro: that)
  show "dom (fst s) \<union> (\<Union>(k, user) \<in> set (pc_users pool_config). {pool_identifier_new name (u_username user)}) \<subseteq> dom (fst s')"
  proof (rule foldM_covers [OF run', where D = "\<lambda>s. dom (fst s)" and g = "\<lambda>(k, user). {pool_identifier_new name (u_username user)}"])
    fix ku t t' assume "ku \<in> set (pc_users pool_config)" "(case ku of (_, user) \<Rightarrow> build_user env ops config pools name pool_config user) t = Ok t'"
    then show "dom (fst t) \<union> (case ku of (k, user) \<Rightarrow> {pool_identifier_new name (u_username user)}) \<subseteq> dom (fst t')"
      using step(2) [of "fst ku" "snd ku" env ops pools t t'] by (simp add: case_prod_unfold)
  qed
qed

text \<open>
  C22: A reload that succeeds puts in force one pool for each configured pair of a database and a user, and no
  other.  A pool whose configuration has the hash of the pool in force is that very pool, with its bans, its
  connections and the general settings it was made with; every other pool is built from the new configuration.
\<close>

theorem reload_pools:
  assumes "pools_from_config env ops config pools = (Ok (), pools')"
  shows "(pools' i \<noteq> None \<longleftrightarrow> configured config i)
    \<and> (\<forall>pool. pools' i = Some pool \<longrightarrow> (\<exists>pool_config. (pi_db i, pool_config) \<in> set (cf_pools config) \<and> provided env ops config pools pool_config i pool))"
proof -
  let ?step = "pool_step_of env ops config pools"
  from assms obtain n where run: "foldM ?step (cf_pools config) (Map.empty, 0) = Ok (pools', n)"
    by (auto simp: pools_from_config_def pool_step_of_def split: outcome.splits)
  have "entries_from env ops config pools (pools', n)"
    by (rule foldM_keeps [OF run]) (auto dest: pool_step_entries(1), simp add: entries_from_def)
  moreover have "i \<in> dom pools'" if "configured config i"
  proof -
    have cover: "dom (fst (Map.empty :: ('a, 'b) pool_map, 0 :: usize))
        \<union> (\<Union>(name, pool_config) \<in> set (cf_pools config). \<Union>(k, user) \<in> set (pc_users pool_config). {pool_identifier_new name (u_username user)})
        \<subseteq> dom (fst (pools', n))"
    proof (rule foldM_covers [OF run, where D = "\<lambda>s. dom (fst s)"])
      fix x t t' assume "x \<in> set (cf_pools config)" "?step x t = Ok t'"
      then show "dom (fst t) \<union> (case x of (name, pool_config) \<Rightarrow> \<Union>(k, user) \<in> set (pc_users pool_config). {pool_identifier_new name (u_username user)})
          \<subseteq> dom (fst t')"
        using pool_step_entries(2) [of "fst x" "snd x" config env ops pools t t'] by (simp add: case_prod_unfold)
    qed
    from that obtain pool_config k user where "(pi_db i, pool_config) \<in> set (cf_pools config)" "(k, user) \<in> set (pc_users pool_config)"
      and "pool_identifier_new (pi_db i) (u_username user) = i" by (auto simp: configured_def pool_identifier_new_def)
    then have "\<exists>x \<in> set (cf_pools config). \<exists>u \<in> set (pc_users (snd x)). i = pool_identifier_new (fst x) (u_username (snd u))"
      by (intro bexI [where x = "(pi_db i, pool_config)"] bexI [where x = "(k, user)"]) simp_all
    with cover show ?thesis by (auto simp: case_prod_unfold subset_iff)
  qed
  ultimately show ?thesis by (auto simp: entries_from_def)
qed

theorem reload_pools_witness:
  "\<exists>pools. pools_from_config example_build_env lru_list_ops (config_default\<lparr>cf_pools := [(''db'', example_pool_config)]\<rparr>) Map.empty = (Ok (), pools)
     \<and> pools (pool_identifier_new ''db'' (u_username user_default)) \<noteq> None"
proof -
  let ?config = "config_default\<lparr>cf_pools := [(''db'', example_pool_config)]\<rparr>"
  have "\<exists>pools. pools_from_config example_build_env lru_list_ops ?config Map.empty = (Ok (), pools)"
    by (simp add: pools_from_config_def build_user_def get_pool_def example_pool_config_def config_default_def general_default_def pool_config_evals)
  then obtain pools where "pools_from_config example_build_env lru_list_ops ?config Map.empty = (Ok (), pools)" by blast
  moreover have "configured ?config (pool_identifier_new ''db'' (u_username user_default))"
    by (simp add: configured_def pool_identifier_new_def example_pool_config_def)
  ultimately show ?thesis using reload_pools by blast
qed

end
