(* ===== verification/Admin.thy ===== *)
theory Admin
  imports Pool_Config
begin

text \<open>
  \<open>src/src/admin.rs\<close>: the administration database, with \<open>reload_config\<close> of \<open>src/src/config.rs\<close>.

  The state is what the whole process shares: the configuration, the pools and the resolver cache.
  The environment gives the order in which hash maps are iterated, the registered statistics with the
  ages of their owners, the clock, and the answers of the file system, of the parser and of the kernel.
\<close>

section \<open>Reloading\<close>

record ('d, 'p) process =
  pr_config :: config
  pr_pools :: "('d, 'p) pool_map"
  pr_resolver :: cached_resolver
  pr_interrupted :: bool

record 'd reload_env =
  re_read_file :: "string \<Rightarrow> string option"
  re_toml :: "string \<Rightarrow> config option"
  re_certs_ok :: "string \<Rightarrow> bool"
  re_keys_ok :: "string \<Rightarrow> bool"
  re_resolver_error :: "string option"
  re_build :: "'d build_env"

text \<open>Equality of configurations: the pools are a hash map.\<close>

definition config_eq :: "config \<Rightarrow> config \<Rightarrow> bool" where
  "config_eq a b \<longleftrightarrow> a\<lparr>cf_pools := []\<rparr> = b\<lparr>cf_pools := []\<rparr> \<and> set (cf_pools a) = set (cf_pools b)"

definition reload_config :: "'d reload_env \<Rightarrow> (u64, parse_msg, 'p) lru_ops \<Rightarrow> (('d, 'p) process, bool) act" where
  "reload_config env ops self =
     (let old_config = pr_config self
      in case parse_config (re_read_file env) (re_toml env) (be_regex (re_build env)) (re_certs_ok env) (re_keys_ok env)
                (cf_path old_config) old_config of
           (Ok _, new_config) \<Rightarrow>
             let self = self\<lparr>pr_config := new_config,
                   pr_resolver := snd (resolver_from_config (re_resolver_error env) new_config (pr_resolver self))\<rparr>
             in if \<not> config_eq old_config new_config
                then (case pools_from_config (re_build env) ops new_config (pr_pools self) of
                        (Ok _, pools) \<Rightarrow> (Ok True, self\<lparr>pr_pools := pools\<rparr>)
                      | (Err e, pools) \<Rightarrow> (Err e, self\<lparr>pr_pools := pools\<rparr>)
                      | (Panic, pools) \<Rightarrow> (Panic, self\<lparr>pr_pools := pools\<rparr>))
                else (Ok False, self)
         | (Err _, config) \<Rightarrow> (Err BadConfig, self\<lparr>pr_config := config\<rparr>)
         | (Panic, config) \<Rightarrow> (Panic, self\<lparr>pr_config := config\<rparr>))"

section \<open>Words of a query\<close>

text \<open>\<open>char::is_whitespace\<close>: the number of bytes of the white space a string starts with, or 0.\<close>

definition whitespace_width :: "string \<Rightarrow> nat" where
  "whitespace_width s =
     (if s \<noteq> [] \<and> hd s \<in> {CHR 0x09, CHR 0x0A, CHR 0x0B, CHR 0x0C, CHR 0x0D, CHR 0x20} then 1
      else if list_ex (\<lambda>w. take 2 s = w) [[CHR 0xC2, CHR 0x85], [CHR 0xC2, CHR 0xA0]] then 2
      else if list_ex (\<lambda>w. take 3 s = w)
               ([CHR 0xE1, CHR 0x9A, CHR 0x80] # [CHR 0xE2, CHR 0x81, CHR 0x9F] # [CHR 0xE3, CHR 0x80, CHR 0x80]
                # map (\<lambda>c. [CHR 0xE2, CHR 0x80, c])
                    [CHR 0x80, CHR 0x81, CHR 0x82, CHR 0x83, CHR 0x84, CHR 0x85, CHR 0x86, CHR 0x87, CHR 0x88, CHR 0x89,
                     CHR 0x8A, CHR 0xA8, CHR 0xA9, CHR 0xAF]) then 3
      else 0)"

text \<open>\<open>split_whitespace\<close>, with the bytes of the current word in reverse.\<close>

function split_words :: "string \<Rightarrow> string \<Rightarrow> string list" where
  "split_words word [] = (if word = [] then [] else [rev word])"
| "split_words word (c # s) =
     (let n = whitespace_width (c # s)
      in if n = 0 then split_words (c # word) s
         else (if word = [] then [] else [rev word]) @ split_words [] (drop n (c # s)))"
  by pat_completeness auto
termination
  by (relation "measure (\<lambda>(w, s). length s)") auto

text \<open>\<open>str::trim\<close>\<close>

function trim_start :: "string \<Rightarrow> string" where
  "trim_start [] = []"
| "trim_start (c # s) = (let n = whitespace_width (c # s) in if n = 0 then c # s else trim_start (drop n (c # s)))"
  by pat_completeness auto
termination
  by (relation "measure length") auto

fun trim_end :: "string \<Rightarrow> string" where
  "trim_end [] = []"
| "trim_end (c # s) = (if trim_start (c # s) = [] then [] else c # trim_end s)"

definition str_trim :: "string \<Rightarrow> string" where
  "str_trim s = trim_end (trim_start s)"

definition query_parts :: "string \<Rightarrow> string list" where
  "query_parts query = split_words [] (rev (dropWhile (\<lambda>c. c = CHR '';'') (rev query)))"

definition part_upper :: "nat \<Rightarrow> string list \<Rightarrow> string" where
  "part_upper i parts = ascii_upper (if i < length parts then parts ! i else [])"

section \<open>Answers\<close>

record 'd admin_env =
  ae_pools :: "pool_identifier list"
  ae_clients :: "(client_stats \<times> u64 \<times> u64) list"
  ae_servers :: "(server_stats \<times> u64) list"
  ae_entries :: "(string \<rightharpoonup> string) \<Rightarrow> (string \<times> string) list"
  ae_lookup :: "pool_lookup \<Rightarrow> pool_stats list"
  ae_pool_state :: "'d \<Rightarrow> u32 \<times> u32"
  ae_utc :: i64
  ae_show_time :: "i64 \<Rightarrow> string"
  ae_debug :: "string \<Rightarrow> string"
  ae_version :: string
  ae_kill :: bool
  ae_reload :: "'d reload_env"

definition all_pools :: "'d admin_env \<Rightarrow> ('d, 'p) pool_map \<Rightarrow> (pool_identifier \<times> ('d, 'p) connection_pool) list" where
  "all_pools env pools = List.map_filter (\<lambda>i. map_option (Pair i) (get_all_pools pools i)) (ae_pools env)"

definition admin_ready :: bytes where
  "admin_ready = put_u8 CHR ''Z'' @ put_i32 5 @ put_u8 CHR ''I''"

definition admin_table :: "(string \<times> data_type) list \<Rightarrow> string list list \<Rightarrow> string \<Rightarrow> bytes" where
  "admin_table columns rows tag = row_description columns @ concat (map data_row rows) @ command_complete tag @ admin_ready"

definition show_u :: "'w::len word \<Rightarrow> string" where
  "show_u w = show_nat (unat w)"

fun sum_databases :: "('d, 'p) connection_pool list \<Rightarrow> usize result" where
  "sum_databases [] = Ok 1"
| "sum_databases (pool # pools) = rbind (pool_databases pool) (\<lambda>n. rbind (sum_databases pools) (\<lambda>m. Ok (n + m)))"

definition show_lists :: "'d admin_env \<Rightarrow> ('d, 'p) pool_map \<Rightarrow> bytes result" where
  "show_lists env pools =
     (let clients = (\<lambda>state. show_nat (length (filter (\<lambda>(client, _). ct_state client = state) (ae_clients env))));
          servers = (\<lambda>state. show_nat (length (filter (\<lambda>(server, _). ss_state server = state) (ae_servers env))))
      in rbind (sum_databases (map snd (all_pools env pools))) (\<lambda>databases.
         Ok (admin_table [(''list'', Text), (''items'', Int4)]
           [[''databases'', show_u databases], [''users'', show_nat (1 + length (all_pools env pools))], [''pools'', show_u databases],
            [''free_clients'', clients ClientIdle], [''used_clients'', clients ClientActive], [''login_clients'', ''0''],
            [''free_servers'', servers ServerIdle], [''used_servers'', servers ServerActive],
            [''dns_names'', ''0''], [''dns_zones'', ''0''], [''dns_queries'', ''0''], [''dns_pending'', ''0'']] ''SHOW'')))"

definition show_version :: "'d admin_env \<Rightarrow> bytes" where
  "show_version env = admin_table [(''version'', Text)] [[''PgCat '' @ ae_version env]] ''SHOW''"

definition show_pools :: "'d admin_env \<Rightarrow> ('d, 'p) pool_map \<Rightarrow> bytes" where
  "show_pools env pools =
     admin_table pool_stats_header
       (map pool_stats_row (ae_lookup env (construct_pool_lookup
          (map (\<lambda>(i, pool). (i, ps_pool_mode (cp_settings pool))) (all_pools env pools))
          (map (\<lambda>(client, _, us). (client, us)) (ae_clients env)) (map fst (ae_servers env))))) ''SHOW''"

definition show_help :: bytes where
  "show_help =
     notify ''Console usage'' (join [CHR 0x0A, CHR 0x09]
       [[], ''SHOW HELP|CONFIG|DATABASES|POOLS|CLIENTS|SERVERS|USERS|VERSION'', ''SHOW LISTS'', ''SHOW STATS'', ''SET key = arg'',
        ''RELOAD'', ''PAUSE [<db>, <user>]'', ''RESUME [<db>, <user>]'', ''SHUTDOWN''])
     @ command_complete ''SHOW'' @ admin_ready"

text \<open>\<open>for server in 0..pool.servers(shard)\<close> and \<open>for shard in 0..pool.shards()\<close>, collecting rows.\<close>

fun collect_rows :: "(usize \<Rightarrow> string list list result) \<Rightarrow> nat \<Rightarrow> string list list result" where
  "collect_rows row 0 = Ok []"
| "collect_rows row (Suc n) = rbind (collect_rows row n) (\<lambda>rows. rbind (row (of_nat n)) (\<lambda>new. Ok (rows @ new)))"

definition database_row :: "'d admin_env \<Rightarrow> ('d, 'p) connection_pool \<Rightarrow> usize \<Rightarrow> string \<Rightarrow> usize \<Rightarrow> string list list result" where
  "database_row env pool shard_no database_name server =
     rbind (pool_address shard_no server pool) (\<lambda>address.
     rbind (pool_database shard_no server pool) (\<lambda>db.
     rbind (is_banned address pool) (\<lambda>banned.
     let user = ps_user (cp_settings pool)
     in Ok [[address_name address, a_host address, show_u (a_port address), database_name, u_username user, show_u (u_pool_size user),
             show_u (case u_min_pool_size user of Some n \<Rightarrow> n | None \<Rightarrow> 0), ''0'', pool_mode_display (ps_pool_mode (cp_settings pool)),
             show_u (u_pool_size user), show_u (fst (ae_pool_state env db)), if cp_paused pool then ''1'' else ''0'',
             if banned then ''1'' else ''0'']])))"

definition pool_database_rows :: "'d admin_env \<Rightarrow> ('d, 'p) connection_pool \<Rightarrow> string list list result" where
  "pool_database_rows env pool =
     collect_rows (\<lambda>shard_no.
       rbind (pool_address shard_no 0 pool) (\<lambda>first.
       rbind (pool_servers shard_no pool) (\<lambda>servers.
       collect_rows (database_row env pool shard_no (a_database first)) (unat servers)))) (length (cp_databases pool))"

fun concat_rows :: "('a \<Rightarrow> string list list result) \<Rightarrow> 'a list \<Rightarrow> string list list result" where
  "concat_rows f [] = Ok []"
| "concat_rows f (x # xs) = rbind (f x) (\<lambda>rows. rbind (concat_rows f xs) (\<lambda>rest. Ok (rows @ rest)))"

definition show_databases :: "'d admin_env \<Rightarrow> ('d, 'p) pool_map \<Rightarrow> bytes result" where
  "show_databases env pools =
     rbind (concat_rows (\<lambda>(_, pool). pool_database_rows env pool) (all_pools env pools)) (\<lambda>rows.
     Ok (admin_table
       [(''name'', Text), (''host'', Text), (''port'', Text), (''database'', Text), (''force_user'', Text), (''pool_size'', Int4),
        (''min_pool_size'', Int4), (''reserve_pool'', Int4), (''pool_mode'', Text), (''max_connections'', Int4),
        (''current_connections'', Int4), (''paused'', Int4), (''disabled'', Int4)] rows ''SHOW''))"

definition show_config :: "'d admin_env \<Rightarrow> config \<Rightarrow> bytes" where
  "show_config env config =
     admin_table [(''key'', Text), (''value'', Text), (''default'', Text), (''changeable'', Text)]
       (map (\<lambda>(key, val). [key, val, ''-'', if key \<in> {''host'', ''port'', ''connect_timeout''} then ''no'' else ''yes''])
          (ae_entries env (config_to_map (ae_debug env) config))) ''SHOW''"

definition pool_stats_rows :: "pool_identifier \<Rightarrow> ('d, 'p) connection_pool \<Rightarrow> string list list result" where
  "pool_stats_rows user_pool pool =
     collect_rows (\<lambda>shard_no.
       rbind (pool_servers shard_no pool) (\<lambda>servers.
       collect_rows (\<lambda>server.
         rbind (pool_address shard_no server pool) (\<lambda>address.
         Ok [populate_row (cp_address_stats pool (a_id address)) [address_name address, pi_db user_pool, pi_user user_pool]]))
         (unat servers))) (length (cp_databases pool))"

definition show_stats :: "'d admin_env \<Rightarrow> ('d, 'p) pool_map \<Rightarrow> bytes result" where
  "show_stats env pools =
     rbind (concat_rows (\<lambda>(user_pool, pool). pool_stats_rows user_pool pool) (all_pools env pools)) (\<lambda>rows.
     Ok (admin_table
       ([(''instance'', Text), (''database'', Text), (''user'', Text)]
        @ map (\<lambda>name. (name, Numeric))
            [''total_xact_count'', ''total_query_count'', ''total_received'', ''total_sent'', ''total_xact_time'', ''total_query_time'',
             ''total_wait_time'', ''total_errors'', ''avg_xact_count'', ''avg_query_count'', ''avg_recv'', ''avg_sent'', ''avg_errors'',
             ''avg_xact_time'', ''avg_query_time'', ''avg_wait_time'']) rows ''SHOW''))"

text \<open>\<open>format!("{:#010X}", id)\<close>\<close>

definition show_id :: "i32 \<Rightarrow> string" where
  "show_id w = ''0x'' @ ascii_upper (lower_hex (put_i32 w))"

definition show_clients :: "'d admin_env \<Rightarrow> bytes" where
  "show_clients env =
     admin_table
       ([(''client_id'', Text), (''database'', Text), (''user'', Text), (''application_name'', Text), (''state'', Text)]
        @ map (\<lambda>name. (name, Numeric)) [''transaction_count'', ''query_count'', ''error_count'', ''age_seconds'', ''maxwait'', ''maxwait_us''])
       (map (\<lambda>(client, age, _).
          [show_id (ct_client_id client), ct_pool_name client, ct_username client, ct_application_name client,
           client_state_display (ct_state client), show_u (ct_transaction_count client), show_u (ct_query_count client),
           show_u (ct_error_count client), show_u age, show_u (ct_max_wait_time client div 1000000),
           show_u (ct_max_wait_time client mod 1000000)]) (ae_clients env)) ''SHOW''"

definition show_servers :: "'d admin_env \<Rightarrow> bytes" where
  "show_servers env =
     admin_table
       ([(''server_id'', Text), (''database_name'', Text), (''user'', Text), (''address_id'', Text), (''application_name'', Text), (''state'', Text)]
        @ map (\<lambda>name. (name, Numeric))
            [''transaction_count'', ''query_count'', ''bytes_sent'', ''bytes_received'', ''age_seconds'', ''prepare_cache_hit'',
             ''prepare_cache_miss'', ''prepare_cache_eviction'', ''prepare_cache_size''])
       (map (\<lambda>(server, age).
          [show_id (ss_server_id server), a_pool_name (ss_address server), a_username (ss_address server), address_name (ss_address server),
           ss_application_name server, server_state_display (ss_state server), show_u (ss_transaction_count server),
           show_u (ss_query_count server), show_u (ss_bytes_sent server), show_u (ss_bytes_received server), show_u age,
           show_u (ss_prepared_hit_count server), show_u (ss_prepared_miss_count server), show_u (ss_prepared_eviction_count server),
           show_u (ss_prepared_cache_size server)]) (ae_servers env)) ''SHOW''"

definition show_users :: "'d admin_env \<Rightarrow> ('d, 'p) pool_map \<Rightarrow> bytes" where
  "show_users env pools =
     admin_table [(''name'', Text), (''pool_mode'', Text)]
       (map (\<lambda>(user_pool, pool). [pi_user user_pool, pool_mode_display (ps_pool_mode (cp_settings pool))]) (all_pools env pools)) ''SHOW''"

fun ban_reason_debug :: "ban_reason \<Rightarrow> string" where
  "ban_reason_debug FailedHealthCheck = ''FailedHealthCheck''"
| "ban_reason_debug MessageSendFailed = ''MessageSendFailed''"
| "ban_reason_debug MessageReceiveFailed = ''MessageReceiveFailed''"
| "ban_reason_debug FailedCheckout = ''FailedCheckout''"
| "ban_reason_debug StatementTimeout = ''StatementTimeout''"
| "ban_reason_debug (AdminBan duration) = ''AdminBan('' @ show_int (sint duration) @ '')''"

definition ban_columns :: "(string \<times> data_type) list" where
  "ban_columns = [(''db'', Text), (''user'', Text), (''role'', Text), (''host'', Text)]"

definition show_bans :: "'d admin_env \<Rightarrow> ('d, 'p) pool_map \<Rightarrow> bytes" where
  "show_bans env pools =
     admin_table (ban_columns @ [(''reason'', Text), (''ban_time'', Text), (''ban_duration_seconds'', Text), (''ban_remaining_seconds'', Text)])
       (concat (map (\<lambda>(i, pool). List.map_filter (\<lambda>(address, ban_reason, ban_time).
          let ban_duration = (case ban_reason of AdminBan duration \<Rightarrow> duration | _ \<Rightarrow> ps_ban_time (cp_settings pool));
              remaining = ban_duration - (ae_utc env - ban_time)
          in if sint remaining \<le> 0 then None
             else Some [pi_db i, pi_user i, role_display (a_role address), a_host address, ban_reason_debug ban_reason,
                        ae_show_time env ban_time, show_int (sint ban_duration), show_int (sint remaining)]) (get_bans pool))
          (all_pools env pools))) ''SHOW BANS''"

section \<open>Commands\<close>

record ('d, 'p) admin =
  adm_stream :: stream
  adm_process :: "('d, 'p) process"

definition on_adm_stream :: "(stream, 'a) act \<Rightarrow> (('d, 'p) admin, 'a) act" where
  "on_adm_stream = act_zoom adm_stream (\<lambda>t s. s\<lparr>adm_stream := t\<rparr>)"

definition on_process :: "(('d, 'p) process, 'a) act \<Rightarrow> (('d, 'p) admin, 'a) act" where
  "on_process = act_zoom adm_process (\<lambda>p s. s\<lparr>adm_process := p\<rparr>)"

definition on_pools :: "(('d, 'p) pool_map, 'a) act \<Rightarrow> (('d, 'p) admin, 'a) act" where
  "on_pools m = on_process (act_zoom pr_pools (\<lambda>p s. s\<lparr>pr_pools := p\<rparr>) m)"

definition admin_say :: "(('d, 'p) process \<Rightarrow> bytes result) \<Rightarrow> (('d, 'p) admin, unit) act" where
  "admin_say answer = act_bind (act_get (\<lambda>s. answer (adm_process s))) (\<lambda>res. on_adm_stream (write_all_half res))"

definition admin_error :: "string \<Rightarrow> (('d, 'p) admin, unit) act" where
  "admin_error message = on_adm_stream (error_response message)"

text \<open>\<open>for (id, pool) in get_all_pools()\<close>; the pools are shared, so that a change is seen in the map.\<close>

definition on_pool_of :: "pool_identifier \<Rightarrow> (('d, 'p) connection_pool, 'a list) act \<Rightarrow> (('d, 'p) pool_map, 'a list) act" where
  "on_pool_of i m pools =
     (case pools i of
        None \<Rightarrow> (Ok [], pools)
      | Some pool \<Rightarrow> (case m pool of (r, pool) \<Rightarrow> (r, pools(i \<mapsto> pool))))"

fun over_pools :: "(pool_identifier \<Rightarrow> (('d, 'p) connection_pool, 'a list) act) \<Rightarrow> pool_identifier list \<Rightarrow> (('d, 'p) pool_map, 'a list) act" where
  "over_pools f [] = act_return []"
| "over_pools f (i # ids) =
     act_bind (on_pool_of i (f i)) (\<lambda>rows. act_bind (over_pools f ids) (\<lambda>rest. act_return (rows @ rest)))"

definition ban_row :: "pool_identifier \<Rightarrow> address \<Rightarrow> string list" where
  "ban_row i address = [pi_db i, pi_user i, role_display (a_role address), a_host address]"

fun ban_addresses :: "i64 \<Rightarrow> i64 \<Rightarrow> pool_identifier \<Rightarrow> address list \<Rightarrow> (('d, 'p) connection_pool, string list list) act" where
  "ban_addresses now duration i [] = act_return []"
| "ban_addresses now duration i (address # addresses) =
     act_bind (act_get (is_banned address)) (\<lambda>banned.
     if banned then ban_addresses now duration i addresses
     else act_bind (ban now address (AdminBan duration) None) (\<lambda>_.
          act_bind (ban_addresses now duration i addresses) (\<lambda>rows. act_return (ban_row i address # rows))))"

definition admin_ban :: "'d admin_env \<Rightarrow> string list \<Rightarrow> (('d, 'p) admin, unit) act" where
  "admin_ban env tokens =
     (if length tokens < 3 then admin_error ''usage: BAN hostname duration_seconds''
      else case parse_i64 (tokens ! 2) of
             None \<Rightarrow> admin_error ''duration_seconds must be an integer''
           | Some duration \<Rightarrow>
               if sint duration \<le> 0 then admin_error ''duration_seconds must be >= 0''
               else act_bind (on_pools (over_pools (\<lambda>i.
                      act_bind (act_get (get_addresses_from_host (tokens ! 1))) (ban_addresses (ae_utc env) duration i)) (ae_pools env))) (\<lambda>rows.
                    admin_say (\<lambda>_. Ok (admin_table ban_columns rows ''BAN''))))"

fun unban_addresses :: "pool_identifier \<Rightarrow> address list \<Rightarrow> (('d, 'p) connection_pool, string list list) act" where
  "unban_addresses i [] = act_return []"
| "unban_addresses i (address # addresses) =
     act_bind (act_get (is_banned address)) (\<lambda>banned.
     if \<not> banned then unban_addresses i addresses
     else act_bind (unban address) (\<lambda>_.
          act_bind (unban_addresses i addresses) (\<lambda>rows. act_return (ban_row i address # rows))))"

definition admin_unban :: "'d admin_env \<Rightarrow> string list \<Rightarrow> (('d, 'p) admin, unit) act" where
  "admin_unban env tokens =
     (if length tokens < 2 then admin_error ''UNBAN command requires a hostname to unban''
      else act_bind (on_pools (over_pools (\<lambda>i.
             act_bind (act_get (get_addresses_from_host (tokens ! 1))) (unban_addresses i)) (ae_pools env))) (\<lambda>rows.
           admin_say (\<lambda>_. Ok (admin_table ban_columns rows ''UNBAN''))))"

definition admin_reload :: "'d admin_env \<Rightarrow> (u64, parse_msg, 'p) lru_ops \<Rightarrow> (('d, 'p) admin, unit) act" where
  "admin_reload env ops =
     act_bind (on_process (reload_config (ae_reload env) ops)) (\<lambda>_.
     admin_say (\<lambda>_. Ok (command_complete ''RELOAD'' @ admin_ready)))"

text \<open>\<open>PAUSE\<close> and \<open>RESUME\<close> differ in the name and in what they do to a pool.\<close>

definition pool_list :: "string list \<Rightarrow> string list" where
  "pool_list tokens = (if length tokens = 2 then map str_trim (split_on CHR '','' (tokens ! 1)) else [])"

definition change_pool :: "(('d, 'p) connection_pool \<Rightarrow> ('d, 'p) connection_pool) \<Rightarrow> (('d, 'p) connection_pool, unit list) act" where
  "change_pool f pool = (Ok [], f pool)"

definition for_pools ::
  "'d admin_env \<Rightarrow> string \<Rightarrow> (('d, 'p) connection_pool \<Rightarrow> ('d, 'p) connection_pool) \<Rightarrow> string list \<Rightarrow> (('d, 'p) admin, unit) act" where
  "for_pools env name f tokens =
     (let parts = pool_list tokens
      in if parts = []
         then act_bind (on_pools (over_pools (\<lambda>_. change_pool f) (ae_pools env))) (\<lambda>_.
              admin_say (\<lambda>_. Ok (command_complete name @ admin_ready)))
         else if length parts = 2
         then let database = parts ! 0; user = parts ! 1
              in act_bind (act_get (\<lambda>s. Ok (get_pool database user (pr_pools (adm_process s))))) (\<lambda>pool.
                 case pool of
                   Some _ \<Rightarrow>
                     act_bind (on_pools (on_pool_of (pool_identifier_new database user) (change_pool f))) (\<lambda>_.
                     admin_say (\<lambda>_. Ok (command_complete (name @ '' '' @ database @ '','' @ user) @ admin_ready)))
                 | None \<Rightarrow> admin_error (''No pool configured for database: '' @ database @ '', user: '' @ user))
         else admin_error (''usage: '' @ name @ '' [db, user]''))"

definition admin_pause :: "'d admin_env \<Rightarrow> string list \<Rightarrow> (('d, 'p) admin, unit) act" where
  "admin_pause env = for_pools env ''PAUSE'' pool_pause"

definition admin_resume :: "'d admin_env \<Rightarrow> string list \<Rightarrow> (('d, 'p) admin, unit) act" where
  "admin_resume env = for_pools env ''RESUME'' pool_resume"

definition admin_shutdown :: "'d admin_env \<Rightarrow> (('d, 'p) admin, unit) act" where
  "admin_shutdown env =
     act_bind (act_when (ae_kill env) (on_process (act_modify (\<lambda>p. p\<lparr>pr_interrupted := True\<rparr>)))) (\<lambda>_.
     admin_say (\<lambda>_. Ok (admin_table [(''success'', Text)] [[if ae_kill env then ''t'' else ''f'']] ''SHUTDOWN'')))"

definition admin_show :: "'d admin_env \<Rightarrow> string list \<Rightarrow> (('d, 'p) admin, unit) act" where
  "admin_show env parts =
     (let what = part_upper 1 parts in
      if what = ''HELP'' then admin_say (\<lambda>_. Ok show_help)
      else if what = ''BANS'' then admin_say (\<lambda>p. Ok (show_bans env (pr_pools p)))
      else if what = ''CONFIG'' then admin_say (\<lambda>p. Ok (show_config env (pr_config p)))
      else if what = ''DATABASES'' then admin_say (\<lambda>p. show_databases env (pr_pools p))
      else if what = ''LISTS'' then admin_say (\<lambda>p. show_lists env (pr_pools p))
      else if what = ''POOLS'' then admin_say (\<lambda>p. Ok (show_pools env (pr_pools p)))
      else if what = ''CLIENTS'' then admin_say (\<lambda>_. Ok (show_clients env))
      else if what = ''SERVERS'' then admin_say (\<lambda>_. Ok (show_servers env))
      else if what = ''STATS'' then admin_say (\<lambda>p. show_stats env (pr_pools p))
      else if what = ''VERSION'' then admin_say (\<lambda>_. Ok (show_version env))
      else if what = ''USERS'' then admin_say (\<lambda>p. Ok (show_users env (pr_pools p)))
      else admin_error ''Unsupported SHOW query against the admin database'')"

text \<open>\<open>String::from_utf8_lossy(&query[..len - 5])\<close>\<close>

definition admin_query :: "bytes \<Rightarrow> string result" where
  "admin_query query =
     rbind (get_u8 query) (\<lambda>(code, query).
     if code \<noteq> CHR ''Q''
     then Err (ProtocolSyncError (''Invalid code, expected '' @ [CHR 0x27] @ ''Q'' @ [CHR 0x27] @ '' but got '' @ [CHR 0x27]
            @ push_latin1 code @ [CHR 0x27]))
     else
       rbind (get_i32 query) (\<lambda>(len, query).
       let n = scast len - 5 :: usize
       in if length query < unat n then Panic else Ok (from_utf8_lossy (take (unat n) query))))"

definition admin_command :: "'d admin_env \<Rightarrow> (u64, parse_msg, 'p) lru_ops \<Rightarrow> string list \<Rightarrow> (('d, 'p) admin, unit) act" where
  "admin_command env ops parts =
     (let word = part_upper 0 parts in
      if word = ''BAN'' then admin_ban env parts
      else if word = ''UNBAN'' then admin_unban env parts
      else if word = ''RELOAD'' then admin_reload env ops
      else if word = ''SET'' then on_adm_stream (custom_protocol_response_ok ''SET'')
      else if word = ''PAUSE'' then admin_pause env parts
      else if word = ''RESUME'' then admin_resume env parts
      else if word = ''SHUTDOWN'' then admin_shutdown env
      else if word = ''SHOW'' then admin_show env parts
      else admin_error ''Unsupported query against the admin database'')"

definition handle_admin :: "'d admin_env \<Rightarrow> (u64, parse_msg, 'p) lru_ops \<Rightarrow> bytes \<Rightarrow> (('d, 'p) admin, unit) act" where
  "handle_admin env ops query =
     act_bind (act_lift (admin_query query)) (\<lambda>query. admin_command env ops (query_parts query))"

definition generate_server_parameters_for_admin :: "string \<Rightarrow> server_parameters" where
  "generate_server_parameters_for_admin version =
     fold (\<lambda>(key, val). set_param key val True)
       [(''application_name'', []), (''client_encoding'', ''UTF8''), (''server_encoding'', ''UTF8''), (''server_version'', version),
        (''DateStyle'', ''ISO, MDY'')] server_parameters_new"

end
