(* ===== verification/Client_Startup.thy ===== *)
theory Client_Startup
  imports Admin
begin

text \<open>
  \<open>src/src/client.rs\<close>, first part: the client, the first message it sends, its authentication and the
  cancel request.

  The two halves of the socket are one \<^typ>\<open>stream\<close>.  The environment gives the random numbers (salt,
  process and key of the client), MD5, the answers of the out-of-band queries for password hashes, the
  answers of the servers to a validation of the pool, the order in which the hash map of the startup
  parameters is iterated, and the \<open>Debug\<close> form of strings and errors.  The pools of the process are
  state: a login may store a password hash in a pool and validates it.
\<close>

section \<open>The client\<close>

datatype client_connection_type = StartupConnection | TlsConnection | CancelQueryConnection

record client =
  cl_stream :: stream
  cl_buffer :: bytes
  cl_response_queue :: bytes
  cl_cancel_mode :: bool
  cl_transaction_mode :: bool
  cl_process_id :: i32
  cl_secret_key :: i32
  cl_parameters :: "string \<rightharpoonup> string"
  cl_stats :: client_stats
  cl_admin :: bool
  cl_last_address_id :: "usize option"
  cl_last_server_stats :: "i32 option"
  cl_connected_to_server :: bool
  cl_pool_name :: string
  cl_username :: string
  cl_server_parameters :: server_parameters
  cl_prepared_statements_enabled :: bool
  cl_prepared_statements :: "string \<rightharpoonup> parse_msg \<times> u64"
  cl_extended :: "extended_protocol_data list"

definition is_admin :: "client \<Rightarrow> bool" where
  "is_admin self = cl_admin self"

section \<open>The first message\<close>

text \<open>\<open>vec![0u8; n]\<close> followed by \<open>read_exact\<close>; the allocation panics above \<open>isize::MAX\<close>.\<close>

definition read_vec :: "usize \<Rightarrow> stream \<Rightarrow> (string, bytes) outcome \<times> stream" where
  "read_vec n s = (if 9223372036854775807 < unat n then (Panic, s) else stream_read_exact (unat n) s)"

definition get_startup :: "(stream, client_connection_type \<times> bytes) act" where
  "get_startup =
     act_bind (act_io stream_read_i32 (\<lambda>_. ClientBadStartup)) (\<lambda>len.
     act_bind (act_io (read_vec (scast len - 4)) (\<lambda>_. ClientBadStartup)) (\<lambda>startup.
     act_lift
       (rbind (get_i32 startup) (\<lambda>(code, bytes).
        if code = SSL_REQUEST_CODE then Ok (TlsConnection, bytes)
        else if code = PROTOCOL_VERSION_NUMBER then Ok (StartupConnection, bytes)
        else if code = CANCEL_REQUEST_CODE then Ok (CancelQueryConnection, bytes)
        else Err (ProtocolSyncError (''Unexpected startup code: '' @ show_int (sint code)))))))"

section \<open>Authentication\<close>

record login_env =
  le_salt :: bytes
  le_process_id :: i32
  le_secret_key :: i32
  le_md5 :: "bytes \<Rightarrow> bytes"
  le_exec :: "nat \<Rightarrow> address \<Rightarrow> user \<Rightarrow> string \<Rightarrow> string list result"
  le_tasks :: "server_parameters option list"
  le_keys :: "string list"
  le_version :: string
  le_quoted :: "string \<Rightarrow> string"
  le_debug :: "error \<Rightarrow> string"

record ('d, 'p) login =
  lg_stream :: stream
  lg_pools :: "('d, 'p) pool_map"

definition on_lg_stream :: "(stream, 'a) act \<Rightarrow> (('d, 'p) login, 'a) act" where
  "on_lg_stream = act_zoom lg_stream (\<lambda>t s. s\<lparr>lg_stream := t\<rparr>)"

definition on_lg_pools :: "(('d, 'p) pool_map \<Rightarrow> ('d, 'p) pool_map) \<Rightarrow> (('d, 'p) login, unit) act" where
  "on_lg_pools f = act_modify (\<lambda>s. s\<lparr>lg_pools := f (lg_pools s)\<rparr>)"

text \<open>The PasswordMessage of the client.\<close>

definition read_password :: "client_identifier \<Rightarrow> (stream, bytes) act" where
  "read_password client_identifier =
     act_bind (act_io stream_read_u8 (\<lambda>_. ClientSocketError ''password code'' client_identifier)) (\<lambda>code.
     if code \<noteq> CHR ''p'' then act_lift (Err (ProtocolSyncError (''Expected p, got '' @ push_latin1 code)))
     else
       act_bind (act_io stream_read_i32 (\<lambda>_. ClientSocketError ''password message length'' client_identifier)) (\<lambda>len.
       act_io (read_vec (scast (len - 4))) (\<lambda>_. ClientSocketError ''password message'' client_identifier)))"

text \<open>\<open>wrong_password(&mut write, username).await?; return Err(error)\<close>\<close>

definition refuse :: "string \<Rightarrow> error \<Rightarrow> (('d, 'p) login, 'a) act" where
  "refuse username error = act_bind (on_lg_stream (wrong_password username)) (\<lambda>_. act_lift (Err error))"

definition authenticate_admin :: "login_env \<Rightarrow> config \<Rightarrow> string \<Rightarrow> client_identifier \<Rightarrow> (('d, 'p) login, unit) act" where
  "authenticate_admin env config username client_identifier =
     (case g_admin_auth_type (cf_general config) of
        Trust \<Rightarrow> act_return ()
      | MD5 \<Rightarrow>
          act_bind (on_lg_stream (md5_challenge (le_salt env))) (\<lambda>salt.
          act_bind (on_lg_stream (read_password client_identifier)) (\<lambda>password_response.
          let password_hash = md5_hash_password (le_md5 env) (g_admin_username (cf_general config))
                                (g_admin_password (cf_general config)) salt
          in if password_hash \<noteq> password_response
             then refuse username (ClientGeneralError ''Invalid password'' client_identifier)
             else act_return ())))"

definition set_auth_hash :: "pool_identifier \<Rightarrow> string \<Rightarrow> (('d, 'p) login, unit) act" where
  "set_auth_hash i hash = on_lg_pools (map_adjust i (\<lambda>p. p\<lparr>cp_auth_hash := Some hash\<rparr>))"

definition refetch :: "login_env \<Rightarrow> nat \<Rightarrow> ('d, 'p) connection_pool \<Rightarrow> string result" where
  "refetch env attempt = refetch_auth_hash (le_exec env attempt) (error_display (le_debug env)) (le_quoted env)"

text \<open>The hash the response is compared with: from the password of the configuration, or from the hash the pool has.\<close>

definition expected_response ::
  "login_env \<Rightarrow> config \<Rightarrow> string \<Rightarrow> client_identifier \<Rightarrow> pool_identifier \<Rightarrow> ('d, 'p) connection_pool \<Rightarrow> bytes \<Rightarrow> (('d, 'p) login, bytes) act" where
  "expected_response env config username client_identifier i pool salt =
     (case u_password (ps_user (cp_settings pool)) of
        Some password \<Rightarrow> act_return (md5_hash_password (le_md5 env) username password salt)
      | None \<Rightarrow>
          if \<not> config_is_auth_query_configured config then refuse username (ClientAuthImpossible username)
          else
            (case cp_auth_hash pool of
               Some hash \<Rightarrow> act_return (md5_hash_second_pass (le_md5 env) hash salt)
             | None \<Rightarrow>
                 (case refetch env 0 pool of
                    Ok fetched_hash \<Rightarrow>
                      act_bind (set_auth_hash i fetched_hash) (\<lambda>_.
                      act_return (md5_hash_second_pass (le_md5 env) fetched_hash salt))
                  | Err err \<Rightarrow> refuse username (ClientAuthPassthroughError (error_display (le_debug env) err) client_identifier)
                  | Panic \<Rightarrow> act_lift Panic)))"

text \<open>A response that does not match is compared once more with a hash fetched anew.\<close>

definition check_response ::
  "login_env \<Rightarrow> string \<Rightarrow> client_identifier \<Rightarrow> pool_identifier \<Rightarrow> ('d, 'p) connection_pool \<Rightarrow> bytes \<Rightarrow> bytes \<Rightarrow> bytes \<Rightarrow> (('d, 'p) login, unit) act" where
  "check_response env username client_identifier i pool salt password_hash password_response =
     (if password_hash = password_response then act_return ()
      else
        (case refetch env 1 pool of
           Ok fetched_hash \<Rightarrow>
             if md5_hash_second_pass (le_md5 env) fetched_hash salt = password_response then set_auth_hash i fetched_hash
             else refuse username (ClientGeneralError ''Invalid password'' client_identifier)
         | Err err \<Rightarrow> refuse username err
         | Panic \<Rightarrow> act_lift Panic))"

definition authenticate_user ::
  "login_env \<Rightarrow> config \<Rightarrow> string \<Rightarrow> client_identifier \<Rightarrow> pool_identifier \<Rightarrow> ('d, 'p) connection_pool \<Rightarrow> (('d, 'p) login, unit) act" where
  "authenticate_user env config username client_identifier i pool =
     (case u_auth_type (ps_user (cp_settings pool)) of
        Trust \<Rightarrow> act_return ()
      | MD5 \<Rightarrow>
          act_bind (on_lg_stream (md5_challenge (le_salt env))) (\<lambda>salt.
          act_bind (on_lg_stream (read_password client_identifier)) (\<lambda>password_response.
          act_bind (expected_response env config username client_identifier i pool salt) (\<lambda>password_hash.
          check_response env username client_identifier i pool salt password_hash password_response))))"

section \<open>Startup\<close>

definition login_admin ::
  "login_env \<Rightarrow> config \<Rightarrow> string \<Rightarrow> client_identifier \<Rightarrow> (('d, 'p) login, bool \<times> bool \<times> server_parameters) act" where
  "login_admin env config username client_identifier =
     act_bind (authenticate_admin env config username client_identifier) (\<lambda>_.
     act_return (False, False, generate_server_parameters_for_admin (le_version env)))"

text \<open>The pool that was looked up: nothing takes it out of the map meanwhile.\<close>

definition own_pool :: "pool_identifier \<Rightarrow> (('d, 'p) connection_pool, 'a) act \<Rightarrow> (('d, 'p) login, 'a) act" where
  "own_pool i m s =
     (case lg_pools s i of
        None \<Rightarrow> (Panic, s)
      | Some pool \<Rightarrow> (case m pool of (r, pool) \<Rightarrow> (r, s\<lparr>lg_pools := (lg_pools s)(i \<mapsto> pool)\<rparr>)))"

text \<open>The mode, whether prepared statements are enabled, and the parameters of the servers.\<close>

definition login_user ::
  "login_env \<Rightarrow> config \<Rightarrow> string \<Rightarrow> string \<Rightarrow> client_identifier \<Rightarrow> (('d, 'p) login, bool \<times> bool \<times> server_parameters) act" where
  "login_user env config pool_name username client_identifier =
     act_bind (act_get (\<lambda>s. Ok (get_pool pool_name username (lg_pools s)))) (\<lambda>pool.
     let i = pool_identifier_new pool_name username in
     case pool of
       None \<Rightarrow>
         act_bind (on_lg_stream (error_response (''No pool configured for database: '' @ le_quoted env pool_name
                                                 @ '', user: '' @ le_quoted env username))) (\<lambda>_.
         act_lift (Err (ClientGeneralError ''Invalid pool name'' client_identifier)))
     | Some pool \<Rightarrow>
         act_bind (authenticate_user env config username client_identifier i pool) (\<lambda>_.
         let transaction_mode = (ps_pool_mode (cp_settings pool) = Transaction);
             prepared_statements_enabled = (transaction_mode \<and> cp_prepared_statement_cache pool \<noteq> None)
         in
         act_bind (own_pool i (act_get (\<lambda>pool. Ok (cp_validated pool)))) (\<lambda>validated.
         act_bind
           (act_when (\<not> validated)
              (\<lambda>s. case own_pool i (pool_validate_connect (le_tasks env)) s of
                     (Ok _, s) \<Rightarrow> (Ok (), s)
                   | (Err err, s) \<Rightarrow>
                       act_bind (on_lg_stream (error_response (''Pool down for database: '' @ le_quoted env pool_name
                                                               @ '', user: '' @ le_quoted env username))) (\<lambda>_.
                       act_lift (Err (ClientError (''Pool down: '' @ le_debug env err)))) s
                   | (Panic, s) \<Rightarrow> (Panic, s))) (\<lambda>_.
         act_bind (own_pool i (act_get (\<lambda>pool. Ok (cp_original_server_parameters pool)))) (\<lambda>server_parameters.
         act_return (transaction_mode, prepared_statements_enabled, server_parameters))))))"

definition client_of ::
  "login_env \<Rightarrow> (string \<rightharpoonup> string) \<Rightarrow> string \<Rightarrow> string \<Rightarrow> string \<Rightarrow> bool \<Rightarrow> bool \<Rightarrow> bool \<Rightarrow> server_parameters \<Rightarrow> stream \<Rightarrow> client" where
  "client_of env parameters application_name username pool_name admin transaction_mode prepared_statements_enabled server_parameters stream =
     \<lparr> cl_stream = stream, cl_buffer = [], cl_response_queue = [], cl_cancel_mode = False,
       cl_transaction_mode = transaction_mode, cl_process_id = le_process_id env, cl_secret_key = le_secret_key env,
       cl_parameters = parameters, cl_stats = client_stats_new (le_process_id env) application_name username pool_name,
       cl_admin = admin, cl_last_address_id = None, cl_last_server_stats = None, cl_connected_to_server = False,
       cl_pool_name = pool_name, cl_username = username, cl_server_parameters = server_parameters,
       cl_prepared_statements_enabled = prepared_statements_enabled, cl_prepared_statements = Map.empty, cl_extended = [] \<rparr>"

text \<open>What a client is told when it is let in.\<close>

definition client_welcome :: "login_env \<Rightarrow> server_parameters \<Rightarrow> (stream, unit) act" where
  "client_welcome env server_parameters =
     act_bind auth_ok (\<lambda>_.
     act_bind (write_all (server_parameters_bytes server_parameters)) (\<lambda>_.
     act_bind (backend_key_data (le_process_id env) (le_secret_key env)) (\<lambda>_.
     send_ready_for_query)))"

definition parameter_pairs :: "login_env \<Rightarrow> (string \<rightharpoonup> string) \<Rightarrow> (string \<times> string) list" where
  "parameter_pairs env parameters = List.map_filter (\<lambda>key. map_option (Pair key) (parameters key)) (le_keys env)"

definition startup_pool_name :: "(string \<rightharpoonup> string) \<Rightarrow> string \<Rightarrow> string" where
  "startup_pool_name parameters username = (case parameters ''database'' of Some db \<Rightarrow> db | None \<Rightarrow> username)"

definition startup_application_name :: "(string \<rightharpoonup> string) \<Rightarrow> string" where
  "startup_application_name parameters = (case parameters ''application_name'' of Some name \<Rightarrow> name | None \<Rightarrow> ''pgcat'')"

definition admin_database :: "string \<Rightarrow> bool" where
  "admin_database pool_name = (length (filter (\<lambda>db. db = pool_name) [''pgcat'', ''pgbouncer'']) = 1)"

definition client_startup :: "login_env \<Rightarrow> config \<Rightarrow> bytes \<Rightarrow> bool \<Rightarrow> (('d, 'p) login, client) act" where
  "client_startup env config bytes admin_only =
     act_bind (act_lift (parse_startup bytes)) (\<lambda>parameters.
     case parameters ''user'' of
       None \<Rightarrow> act_lift (Err (ClientError ''Missing user parameter on client startup''))
     | Some username \<Rightarrow>
         let pool_name = startup_pool_name parameters username;
             application_name = startup_application_name parameters;
             client_identifier = client_identifier_new application_name username pool_name;
             admin = admin_database pool_name
         in if \<not> admin \<and> admin_only then
              act_bind (on_lg_stream (error_response_terminal ''terminating connection due to administrator command'')) (\<lambda>_.
              act_lift (Err ShuttingDown))
            else
              act_bind (if admin then login_admin env config username client_identifier
                        else login_user env config pool_name username client_identifier)
                (\<lambda>(transaction_mode, prepared_statements_enabled, server_parameters).
              let server_parameters = set_from_hashmap (parameter_pairs env parameters) False server_parameters
              in act_bind (on_lg_stream (client_welcome env server_parameters)) (\<lambda>_.
                 act_get (\<lambda>s. Ok (client_of env parameters application_name username pool_name admin transaction_mode
                                    prepared_statements_enabled server_parameters (lg_stream s))))))"

section \<open>Cancel requests\<close>

definition client_cancel :: "bytes \<Rightarrow> (stream, client) act" where
  "client_cancel bytes =
     act_bind (act_lift (rbind (get_i32 bytes) (\<lambda>(process_id, bytes). rbind (get_i32 bytes) (\<lambda>(secret_key, _). Ok (process_id, secret_key)))))
       (\<lambda>(process_id, secret_key).
     act_get (\<lambda>stream. Ok
       \<lparr> cl_stream = stream, cl_buffer = [], cl_response_queue = [], cl_cancel_mode = True,
         cl_transaction_mode = False, cl_process_id = process_id, cl_secret_key = secret_key,
         cl_parameters = Map.empty, cl_stats = client_stats_default,
         cl_admin = False, cl_last_address_id = None, cl_last_server_stats = None, cl_connected_to_server = False,
         cl_pool_name = ''undefined'', cl_username = ''undefined'', cl_server_parameters = server_parameters_new,
         cl_prepared_statements_enabled = False, cl_prepared_statements = Map.empty, cl_extended = [] \<rparr>))"

text \<open>\<open>startup_tls\<close>: \<open>accept\<close> is the TLS handshake of the library, or why the certificate could not be loaded.\<close>

definition startup_tls ::
  "login_env \<Rightarrow> config \<Rightarrow> (stream \<Rightarrow> (string, stream) outcome) result \<Rightarrow> bool \<Rightarrow> (('d, 'p) login, client) act" where
  "startup_tls env config tls admin_only =
     act_bind (act_lift tls) (\<lambda>accept.
     act_bind (on_lg_stream (act_io (\<lambda>s. case accept s of Ok t \<Rightarrow> (Ok (), t) | Err e \<Rightarrow> (Err e, s) | Panic \<Rightarrow> (Panic, s)) (\<lambda>_. TlsError))) (\<lambda>_.
     act_bind (on_lg_stream get_startup) (\<lambda>(kind, bytes).
     case kind of
       StartupConnection \<Rightarrow> client_startup env config bytes admin_only
     | _ \<Rightarrow> act_lift (Err (ProtocolSyncError ''Bad postgres client (tls)'')))))"

end
