(* ===== verification/Query_Router.thy ===== *)
theory Query_Router
  imports Pool_Settings Extended_Protocol
begin

text \<open>
  \<open>src/src/query_router.rs\<close> and \<open>src/src/plugins\<close>: the custom commands, the choice of role and
  shard from a parsed query or a Bind message, and the plugins.

  The SQL parser (the \<open>sqlparser\<close> crate) is an argument; its syntax trees are datatypes with the
  constructors and fields the router looks at, and one constructor for all the others.  The Unicode
  lower case function, the patterns of the configuration (\<open>capture1 pattern text\<close> is the first group
  of the first match), the random number of \<open>SET SHARD TO 'ANY'\<close>, the relations and the rendering of
  a statement are arguments as well.  The two process-wide \<open>moka\<close> caches are state: the entries that
  have not expired when the call is made.
\<close>

section \<open>Syntax trees\<close>

type_synonym ident = string

datatype binary_operator = EqOp | OrOp | AndOp | OtherOp

datatype expr =
    BinaryOp expr binary_operator expr
  | Identifier ident
  | CompoundIdentifier "ident list"
  | Number string
  | PlaceholderValue string
  | OtherExpr

type_synonym object_name = "ident list"

datatype table_factor = Table object_name | OtherFactor

datatype join_operator = InnerOn expr | OtherJoin

record join =
  jn_relation :: table_factor
  jn_operator :: join_operator

record table_with_joins =
  tj_relation :: table_factor
  tj_joins :: "join list"

record select =
  sl_from :: "table_with_joins list"
  sl_selection :: "expr option"

datatype lock_clause = LockClause

datatype set_expr =
    SelectBody select
  | QueryBody query
  | ValuesBody "expr list list"
  | InsertBody
  | UpdateBody
  | OtherBody
and query = SqlQuery (q_body: set_expr) (q_locks: "lock_clause list")

text \<open>The target of an assignment is its rendering, \<open>a.target.to_string()\<close>.\<close>

record insert_stmt =
  is_or :: "string option"
  is_table_name :: object_name
  is_columns :: "ident list"
  is_source :: "query option"
  is_partitioned :: "expr list option"
  is_after_columns :: "ident list"

record delete_stmt =
  ds_tables :: "object_name list"
  ds_using :: "table_with_joins list option"
  ds_selection :: "expr option"

record update_stmt =
  us_table :: table_with_joins
  us_assignments :: "string list"
  us_from :: "table_with_joins option"
  us_selection :: "expr option"

datatype statement =
    StartTransaction
  | QueryStmt query
  | Insert insert_stmt
  | Delete delete_stmt
  | Update update_stmt
  | OtherStmt

section \<open>The router\<close>

datatype command =
    SetShardingKey | SetShard | ShowShard | SetServerRole | ShowServerRole | SetPrimaryReads
  | ShowPrimaryReads

datatype sharding_key = Value i64 | Placeholder i16

datatype parameter_format = TextFormat | BinaryFormat | Uniform parameter_format | Specified "parameter_format list"

datatype database_activity_state = Active | Initializing

record query_router =
  rt_active_shard :: "usize option"
  rt_active_role :: "role option"
  rt_query_parser_enabled :: "bool option"
  rt_primary_reads_enabled :: "bool option"
  rt_pool_settings :: pool_settings
  rt_placeholders :: "i16 list"

text \<open>\<open>DATABASE_ACTIVITY_CACHE\<close> and \<open>TABLE_MUTATIONS_CACHE\<close>.\<close>

record route_caches =
  rc_activity :: "string \<rightharpoonup> database_activity_state"
  rc_mutations :: "string list"

definition query_router_new :: query_router where
  "query_router_new =
     \<lparr> rt_active_shard = None, rt_active_role = None, rt_query_parser_enabled = None,
       rt_primary_reads_enabled = None, rt_pool_settings = pool_settings_default,
       rt_placeholders = [] \<rparr>"

definition update_pool_settings :: "pool_settings \<Rightarrow> query_router \<Rightarrow> query_router" where
  "update_pool_settings settings self = self\<lparr>rt_pool_settings := settings\<rparr>"

definition set_default_role :: "query_router \<Rightarrow> query_router" where
  "set_default_role self = self\<lparr>rt_active_role := ps_default_role (rt_pool_settings self)\<rparr>"

definition set_shard :: "usize option \<Rightarrow> query_router \<Rightarrow> query_router" where
  "set_shard s self = self\<lparr>rt_active_shard := s\<rparr>"

definition router_role :: "query_router \<Rightarrow> role option" where
  "router_role self = rt_active_role self"

definition router_shard :: "query_router \<Rightarrow> usize option" where
  "router_shard self = rt_active_shard self"

definition query_parser_enabled :: "query_router \<Rightarrow> bool" where
  "query_parser_enabled self =
     (case rt_query_parser_enabled self of
        None \<Rightarrow> ps_query_parser_enabled (rt_pool_settings self)
      | Some v \<Rightarrow> v)"

definition primary_reads_enabled :: "query_router \<Rightarrow> bool" where
  "primary_reads_enabled self =
     (case rt_primary_reads_enabled self of
        None \<Rightarrow> ps_primary_reads_enabled (rt_pool_settings self)
      | Some v \<Rightarrow> v)"

definition router_sharder :: "query_router \<Rightarrow> sharder" where
  "router_sharder self =
     sharder_new (ps_shards (rt_pool_settings self)) (ps_sharding_function (rt_pool_settings self))"

definition set_sharding_key :: "(bytes \<Rightarrow> bytes) \<Rightarrow> i64 \<Rightarrow> query_router \<Rightarrow> (query_router \<times> usize option) result" where
  "set_sharding_key digest key self =
     rbind (shard digest (router_sharder self) key) (\<lambda>shard.
       let self = set_shard (Some shard) self in Ok (self, rt_active_shard self))"

section \<open>Custom commands\<close>

text \<open>
  The regular expressions of \<open>CUSTOM_SQL_REGEXES\<close>.  They ignore case with Unicode folding, under
  which the letters s and k have a third form (the long s and the Kelvin sign).
\<close>

definition fold_ci :: "char \<Rightarrow> string \<Rightarrow> string option" where
  "fold_ci c s =
     (case s of
        [] \<Rightarrow> None
      | x # r \<Rightarrow>
          if ascii_upper [x] = ascii_upper [c] then Some r
          else if ascii_upper [c] = ''S'' then strip_prefix [CHR 0xC5, CHR 0xBF] s
          else if ascii_upper [c] = ''K'' then strip_prefix [CHR 0xE2, CHR 0x84, CHR 0xAA] s
          else None)"

fun match_ci :: "string \<Rightarrow> string \<Rightarrow> string option" where
  "match_ci [] s = Some s"
| "match_ci (c # p) s = (case fold_ci c s of None \<Rightarrow> None | Some r \<Rightarrow> match_ci p r)"

definition skip_spaces :: "string \<Rightarrow> string" where
  "skip_spaces s = dropWhile (\<lambda>c. c = CHR '' '') s"

definition skip_optional :: "char \<Rightarrow> string \<Rightarrow> string" where
  "skip_optional c s = (case s of x # r \<Rightarrow> if x = c then r else s | [] \<Rightarrow> [])"

text \<open>The tail \<open> *;? *$\<close> of each of them.\<close>

definition at_end :: "string \<Rightarrow> bool" where
  "at_end s = (skip_spaces (skip_optional (CHR '';'') (skip_spaces s)) = [])"

text \<open>A group: the digits \<open>[0-9]+\<close>, or one of the words, with the rest of the text.\<close>

definition match_digits :: "string \<Rightarrow> (string \<times> string) option" where
  "match_digits s =
     (let d = takeWhile is_digit s in if d = [] then None else Some (d, drop (length d) s))"

fun match_words :: "string list \<Rightarrow> string \<Rightarrow> (string \<times> string) option" where
  "match_words [] s = None"
| "match_words (w # ws) s =
     (case match_ci w s of
        Some r \<Rightarrow> Some (take (length s - length r) s, r)
      | None \<Rightarrow> match_words ws s)"

definition or_match :: "('a \<Rightarrow> 'b option) \<Rightarrow> ('a \<Rightarrow> 'b option) \<Rightarrow> 'a \<Rightarrow> 'b option" where
  "or_match f g s = (case f s of None \<Rightarrow> g s | r \<Rightarrow> r)"

text \<open>\<open>^ *<keywords>'?(group)'? *;? *$\<close>, with the quotes optional or required.\<close>

definition match_set :: "bool \<Rightarrow> string \<Rightarrow> (string \<Rightarrow> (string \<times> string) option) \<Rightarrow> string \<Rightarrow> string option" where
  "match_set quoted keywords grp query =
     (case match_ci keywords (skip_spaces query) of
        None \<Rightarrow> None
      | Some s \<Rightarrow>
          if quoted \<and> \<not> (s \<noteq> [] \<and> hd s = CHR 0x27) then None
          else (case grp (skip_optional (CHR 0x27) s) of
                  None \<Rightarrow> None
                | Some (val, r) \<Rightarrow>
                    if quoted \<and> \<not> (r \<noteq> [] \<and> hd r = CHR 0x27) then None
                    else if at_end (skip_optional (CHR 0x27) r) then Some val else None))"

definition match_show :: "string \<Rightarrow> string \<Rightarrow> string option" where
  "match_show keywords query =
     (case match_ci keywords (skip_spaces query) of
        None \<Rightarrow> None
      | Some s \<Rightarrow> if at_end s then Some [] else None)"

fun match_command :: "command \<Rightarrow> string \<Rightarrow> string option" where
  "match_command SetShardingKey = match_set False ''SET SHARDING KEY TO '' match_digits"
| "match_command SetShard = match_set False ''SET SHARD TO '' (or_match match_digits (match_words [''ANY'']))"
| "match_command ShowShard = match_show ''SHOW SHARD''"
| "match_command SetServerRole =
     match_set True ''SET SERVER ROLE TO '' (match_words [''PRIMARY'', ''REPLICA'', ''ANY'', ''AUTO'', ''DEFAULT''])"
| "match_command ShowServerRole = match_show ''SHOW SERVER ROLE''"
| "match_command SetPrimaryReads = match_set False ''SET PRIMARY READS TO '' (match_words [''on'', ''off'', ''default''])"
| "match_command ShowPrimaryReads = match_show ''SHOW PRIMARY READS''"

definition CUSTOM_SQL_REGEXES :: "command list" where
  "CUSTOM_SQL_REGEXES =
     [SetShardingKey, SetShard, ShowShard, SetServerRole, ShowServerRole, SetPrimaryReads, ShowPrimaryReads]"

definition custom_matches :: "string \<Rightarrow> command list" where
  "custom_matches query = filter (\<lambda>c. match_command c query \<noteq> None) CUSTOM_SQL_REGEXES"

text \<open>
  The value of the command as the source computes it before executing it; \<open>None\<close> is the early
  return.  A matching \<open>Set\<close> command always has its group.
\<close>

definition command_value :: "query_router \<Rightarrow> command \<Rightarrow> string \<Rightarrow> string option" where
  "command_value self command query =
     (case command of
        ShowShard \<Rightarrow> Some (case router_shard self of None \<Rightarrow> ''unset'' | Some x \<Rightarrow> show_nat (unat x))
      | ShowServerRole \<Rightarrow>
          Some (case rt_active_role self of
                  Some r \<Rightarrow> role_display r
                | None \<Rightarrow> if query_parser_enabled self then ''auto'' else ''any'')
      | ShowPrimaryReads \<Rightarrow> Some (if primary_reads_enabled self then ''on'' else ''off'')
      | _ \<Rightarrow> match_command command query)"

definition set_server_role :: "string \<Rightarrow> query_router \<Rightarrow> query_router result" where
  "set_server_role val self =
     (let v = ascii_lower val in
      if v = ''primary'' then Ok (self\<lparr>rt_query_parser_enabled := Some False, rt_active_role := Some Primary\<rparr>)
      else if v = ''replica'' then Ok (self\<lparr>rt_query_parser_enabled := Some False, rt_active_role := Some Replica\<rparr>)
      else if v = ''any'' then Ok (self\<lparr>rt_query_parser_enabled := Some False, rt_active_role := None\<rparr>)
      else if v = ''auto'' then Ok (self\<lparr>rt_query_parser_enabled := Some True, rt_active_role := None\<rparr>)
      else if v = ''default'' then
        Ok (self\<lparr>rt_active_role := ps_default_role (rt_pool_settings self), rt_query_parser_enabled := None\<rparr>)
      else Panic)"

definition set_primary_reads :: "string \<Rightarrow> query_router \<Rightarrow> query_router" where
  "set_primary_reads val self =
     (if val = ''on'' then self\<lparr>rt_primary_reads_enabled := Some True\<rparr>
      else if val = ''off'' then self\<lparr>rt_primary_reads_enabled := Some False\<rparr>
      else if val = ''default'' then self\<lparr>rt_primary_reads_enabled := None\<rparr>
      else self)"

definition execute_command ::
  "(bytes \<Rightarrow> bytes) \<Rightarrow> usize \<Rightarrow> command \<Rightarrow> string \<Rightarrow> query_router \<Rightarrow> (query_router \<times> string) result" where
  "execute_command digest random command val self =
     (case command of
        SetShardingKey \<Rightarrow>
          rbind (unwrap (parse_i64 val)) (\<lambda>key.
          rbind (set_sharding_key digest key self) (\<lambda>(self, shard).
          rbind (unwrap shard) (\<lambda>shard. Ok (self, show_nat (unat shard)))))
      | SetShard \<Rightarrow>
          rbind (if ascii_upper val = ''ANY'' then usize_rem random (ps_shards (rt_pool_settings self))
                 else unwrap (parse_usize val)) (\<lambda>shard.
          Ok (self\<lparr>rt_active_shard := Some shard\<rparr>, val))
      | SetServerRole \<Rightarrow> rbind (set_server_role val self) (\<lambda>self. Ok (self, val))
      | SetPrimaryReads \<Rightarrow> Ok (set_primary_reads val self, val)
      | _ \<Rightarrow> Ok (self, val))"

text \<open>
  The part of \<open>try_execute_command\<close> that looks for a shard or a sharding key in the first bytes of a
  query; \<open>Some\<close> is the early return.
\<close>

definition comment_routing ::
  "(string \<Rightarrow> string \<Rightarrow> string option) \<Rightarrow> (bytes \<Rightarrow> bytes) \<Rightarrow> usize \<Rightarrow> bytes \<Rightarrow> query_router \<Rightarrow> query_router option result" where
  "comment_routing capture1 digest len message self =
     (let settings = rt_pool_settings self;
          seg = min (len - 5) (ps_regex_search_limit settings);
          query_start_index = 1 + 4;
          query_end = of_nat query_start_index + seg
      in if query_end < of_nat query_start_index \<or> length message < unat query_end then Panic
         else
           let initial_segment = from_utf8_lossy (take (unat seg) (drop query_start_index message));
               shard_id = Option.bind (ps_shard_id_regex settings) (\<lambda>r. Option.bind (capture1 r initial_segment) parse_usize);
               key = Option.bind (ps_sharding_key_regex settings) (\<lambda>r. Option.bind (capture1 r initial_segment) parse_i64)
           in case shard_id of
                Some shard_id \<Rightarrow> Ok (Some (set_shard (Some shard_id) self))
              | None \<Rightarrow>
                  (case key of
                     Some key \<Rightarrow> rbind (set_sharding_key digest key self) (\<lambda>(self, _). Ok (Some self))
                   | None \<Rightarrow> Ok None))"

text \<open>\<open>ready\<close>: \<open>setup\<close> has compiled the regular expressions.\<close>

definition try_execute_command ::
  "bool \<Rightarrow> (string \<Rightarrow> string \<Rightarrow> string option) \<Rightarrow> (bytes \<Rightarrow> bytes) \<Rightarrow> usize \<Rightarrow> bytes \<Rightarrow> query_router
   \<Rightarrow> (query_router \<times> (command \<times> string) option) result" where
  "try_execute_command ready capture1 digest random message_buffer self =
     rbind (get_u8 message_buffer) (\<lambda>(code, message_cursor).
     rbind (get_i32 message_cursor) (\<lambda>(len, message_cursor).
     let comment_shard_routing_enabled =
           (ps_shard_id_regex (rt_pool_settings self) \<noteq> None
            \<or> ps_sharding_key_regex (rt_pool_settings self) \<noteq> None)
     in
     rbind (if comment_shard_routing_enabled \<and> (code = CHR ''P'' \<or> code = CHR ''Q'')
            then comment_routing capture1 digest (scast len) message_buffer self else Ok None) (\<lambda>routed.
     case routed of
       Some self \<Rightarrow> Ok (self, None)
     | None \<Rightarrow>
         if code \<noteq> CHR ''Q'' then Ok (self, None)
         else
           rbind (unwrap_res (cursor_read_string message_cursor)) (\<lambda>(query, _).
           if \<not> ready then Ok (self, None)
           else (case custom_matches query of
                   [command] \<Rightarrow>
                     (case command_value self command query of
                        None \<Rightarrow> Ok (self, None)
                      | Some val \<Rightarrow>
                          rbind (execute_command digest random command val self) (\<lambda>(self, val).
                          Ok (self, Some (command, val))))
                 | _ \<Rightarrow> Ok (self, None))))))"

definition router_parse :: "(string \<Rightarrow> (string, statement list) outcome) \<Rightarrow> bytes \<Rightarrow> query_router \<Rightarrow> statement list result" where
  "router_parse parse_sql message self =
     rbind (get_u8 message) (\<lambda>(code, message_cursor).
     rbind (get_i32 message_cursor) (\<lambda>(len, message_cursor).
     let len = scast len :: usize;
         max_length = ps_query_parser_max_length (rt_pool_settings self)
     in if (case max_length of Some m \<Rightarrow> m < len | None \<Rightarrow> False)
        then Err (QueryRouterParserError (''Query too long for parser: '' @ show_nat (unat len) @ '' > ''
                    @ show_nat (unat (the max_length))))
        else
          rbind (if code = CHR ''Q'' then
                   rbind (unwrap_res (cursor_read_string message_cursor)) (\<lambda>(query, _). Ok query)
                 else if code = CHR ''P'' then
                   rbind (unwrap_res (cursor_read_string message_cursor)) (\<lambda>(_, message_cursor).
                   rbind (unwrap_res (cursor_read_string message_cursor)) (\<lambda>(query, _). Ok query))
                 else Err UnsupportedStatement) (\<lambda>query.
          case parse_sql query of
            Ok ast \<Rightarrow> Ok ast
          | Err err \<Rightarrow> Err (QueryRouterParserError err)
          | Panic \<Rightarrow> Panic)))"

section \<open>Tables and conditions of a statement\<close>

text \<open>
  The \<open>process_*\<close> functions push to \<open>exprs\<close> and \<open>table_names\<close>; here they take the two vectors and
  return them.
\<close>

type_synonym extraction = "expr list \<times> object_name list"

definition process_table :: "object_name \<Rightarrow> extraction \<Rightarrow> extraction" where
  "process_table name acc = (case acc of (exprs, table_names) \<Rightarrow> (exprs, table_names @ [name]))"

definition process_factor :: "table_factor \<Rightarrow> extraction \<Rightarrow> extraction" where
  "process_factor f acc = (case f of Table name \<Rightarrow> process_table name acc | OtherFactor \<Rightarrow> acc)"

definition process_selection :: "expr option \<Rightarrow> extraction \<Rightarrow> extraction" where
  "process_selection selection acc =
     (case acc of (exprs, table_names) \<Rightarrow>
        case selection of Some selection \<Rightarrow> (exprs @ [selection], table_names) | None \<Rightarrow> acc)"

definition process_join :: "join \<Rightarrow> extraction \<Rightarrow> extraction" where
  "process_join jn acc =
     (let acc = process_factor (jn_relation jn) acc
      in case jn_operator jn of InnerOn e \<Rightarrow> process_selection (Some e) acc | OtherJoin \<Rightarrow> acc)"

definition process_table_with_join :: "table_with_joins \<Rightarrow> extraction \<Rightarrow> extraction" where
  "process_table_with_join table acc = fold process_join (tj_joins table) (process_factor (tj_relation table) acc)"

definition process_tables_with_join :: "table_with_joins list \<Rightarrow> extraction \<Rightarrow> extraction" where
  "process_tables_with_join tables acc = fold process_table_with_join tables acc"

text \<open>The equations \<open>column = value\<close> of a row of \<open>VALUES\<close>; values beyond the columns are skipped.\<close>

definition row_equations :: "ident list \<Rightarrow> expr list \<Rightarrow> expr list" where
  "row_equations cols row = map (\<lambda>(col, e). BinaryOp (Identifier col) EqOp e) (zip cols row)"

fun process_set_expr :: "set_expr \<Rightarrow> ident list option \<Rightarrow> extraction \<Rightarrow> extraction"
  and process_query :: "query \<Rightarrow> ident list option \<Rightarrow> extraction \<Rightarrow> extraction" where
  "process_set_expr (QueryBody query) columns acc = process_query query columns acc"
| "process_set_expr (SelectBody sel) columns acc =
     process_selection (sl_selection sel) (process_tables_with_join (sl_from sel) acc)"
| "process_set_expr (ValuesBody rows) columns acc =
     (case columns of
        Some cols \<Rightarrow> (case acc of (exprs, table_names) \<Rightarrow>
          (exprs @ concat (map (row_equations cols) rows), table_names))
      | None \<Rightarrow> acc)"
| "process_set_expr _ columns acc = acc"
| "process_query (SqlQuery body locks) columns acc = process_set_expr body columns acc"

fun is_mutation_set_expr :: "set_expr \<Rightarrow> bool" and is_mutation_query :: "query \<Rightarrow> bool" where
  "is_mutation_set_expr InsertBody = True"
| "is_mutation_set_expr UpdateBody = True"
| "is_mutation_set_expr (QueryBody q) = is_mutation_query q"
| "is_mutation_set_expr _ = False"
| "is_mutation_query (SqlQuery b l) = is_mutation_set_expr b"

text \<open>A failed \<open>assert!\<close> panics; \<open>None\<close> is returned for the statements that are not writes of rows.\<close>

record extracted =
  ex_exprs :: "expr list"
  ex_table_names :: "object_name list"
  ex_assignments :: "string list option"

definition extract_exprs_and_table_names :: "statement \<Rightarrow> extracted option result" where
  "extract_exprs_and_table_names q =
     (case q of
        Insert i \<Rightarrow>
          if is_or i \<noteq> None \<or> is_partitioned i \<noteq> None \<or> is_after_columns i \<noteq> [] then Panic
          else let acc = process_table (is_table_name i) ([], []);
                   acc = (case is_source i of Some source \<Rightarrow> process_query source (Some (is_columns i)) acc | None \<Rightarrow> acc)
               in Ok (Some \<lparr> ex_exprs = fst acc, ex_table_names = snd acc, ex_assignments = None \<rparr>)
      | Delete d \<Rightarrow>
          if ds_tables d \<noteq> [] then Panic
          else let acc = process_selection (ds_selection d) ([], []);
                   acc = (case ds_using d of Some using \<Rightarrow> process_tables_with_join using acc | None \<Rightarrow> acc);
                   acc = process_selection (ds_selection d) acc
               in Ok (Some \<lparr> ex_exprs = fst acc, ex_table_names = snd acc, ex_assignments = None \<rparr>)
      | Update u \<Rightarrow>
          let acc = process_table_with_join (us_table u) ([], []);
              acc = (case us_from u of Some from_tbl \<Rightarrow> process_table_with_join from_tbl acc | None \<Rightarrow> acc);
              acc = process_selection (us_selection u) acc
          in Ok (Some \<lparr> ex_exprs = fst acc, ex_table_names = snd acc, ex_assignments = Some (us_assignments u) \<rparr>)
      | _ \<Rightarrow> Ok None)"

definition table_names :: "query \<Rightarrow> object_name list" where
  "table_names query = snd (process_query query None ([], []))"

section \<open>Sharding keys of a condition\<close>

text \<open>
  The configured key \<open>table.column\<close> in lower case.  A missing key and a key that does not have two
  parts panic.
\<close>

definition sharding_key_idents :: "(string \<Rightarrow> string) \<Rightarrow> query_router \<Rightarrow> (ident \<times> ident) result" where
  "sharding_key_idents lower self =
     rbind (unwrap (ps_automatic_sharding_key (rt_pool_settings self))) (\<lambda>key.
       case map lower (split_on (CHR ''.'') key) of
         [table, column] \<Rightarrow> Ok (table, column)
       | _ \<Rightarrow> Panic)"

definition assignment_parser :: "(string \<Rightarrow> string) \<Rightarrow> string list \<Rightarrow> query_router \<Rightarrow> unit result" where
  "assignment_parser lower assignments self =
     rbind (sharding_key_idents lower self) (\<lambda>(table, column).
       if list_ex (\<lambda>target. table = ''*'' \<and> column = lower (last (split_on (CHR ''.'') target))) assignments
       then Err (QueryRouterParserError ''Sharding key cannot be updated.'')
       else Ok ())"

text \<open>Whether an identifier on the left of an operator is the sharding key.\<close>

definition identifier_is_key :: "(string \<Rightarrow> string) \<Rightarrow> ident \<times> ident \<Rightarrow> object_name list \<Rightarrow> ident \<Rightarrow> bool" where
  "identifier_is_key lower key tables ident =
     (case key of (key_table, key_column) \<Rightarrow>
        lower ident = key_column \<and>
        (key_table = ''*'' \<or>
         (case tables of
            [[t]] \<Rightarrow> key_table = lower t
          | [[s, t]] \<Rightarrow> key_table = lower t
          | _ \<Rightarrow> False)))"

definition compound_is_key :: "(string \<Rightarrow> string) \<Rightarrow> ident \<times> ident \<Rightarrow> ident list \<Rightarrow> bool" where
  "compound_is_key lower key idents =
     (case key of (key_table, key_column) \<Rightarrow>
        case idents of
          [t, c] \<Rightarrow> (key_table = ''*'' \<or> key_table = lower t) \<and> key_column = lower c
        | _ \<Rightarrow> False)"

definition is_binary_op :: "expr \<Rightarrow> bool" where
  "is_binary_op e = (case e of BinaryOp _ _ _ \<Rightarrow> True | _ \<Rightarrow> False)"

definition right_keys :: "bool \<Rightarrow> expr \<Rightarrow> sharding_key list" where
  "right_keys found right =
     (case right of
        Number val \<Rightarrow>
          if found then (case parse_i64 val of Some v \<Rightarrow> [Value v] | None \<Rightarrow> []) else []
      | PlaceholderValue placeholder \<Rightarrow>
          (case parse_i16 (filter (\<lambda>c. c \<noteq> CHR ''$'') placeholder) of Some p \<Rightarrow> [Placeholder p] | None \<Rightarrow> [])
      | _ \<Rightarrow> [])"

fun selection_keys :: "(string \<Rightarrow> string) \<Rightarrow> ident \<times> ident \<Rightarrow> object_name list \<Rightarrow> expr \<Rightarrow> sharding_key list" where
  "selection_keys lower key tables (BinaryOp left op right) =
     (let (result, found) =
            (case left of
               BinaryOp _ _ _ \<Rightarrow> (selection_keys lower key tables left, False)
             | Identifier ident \<Rightarrow> ([], identifier_is_key lower key tables ident)
             | CompoundIdentifier idents \<Rightarrow> ([], compound_is_key lower key idents)
             | _ \<Rightarrow> ([], False))
      in if op = OtherOp then []
         else result @ (if is_binary_op right then selection_keys lower key tables right
                        else right_keys found right))"
| "selection_keys lower key tables _ = []"

definition selection_parser ::
  "(string \<Rightarrow> string) \<Rightarrow> expr \<Rightarrow> object_name list \<Rightarrow> query_router \<Rightarrow> sharding_key list result" where
  "selection_parser lower e tables self =
     rbind (sharding_key_idents lower self) (\<lambda>key. Ok (selection_keys lower key tables e))"

section \<open>Inferring the shard\<close>

text \<open>
  \<open>found\<close> is the \<open>BTreeSet\<close> of shards as a list without duplicates.  The loop inserts the shards of the values
  and records the positions of the placeholders.
\<close>

fun collect_keys ::
  "(bytes \<Rightarrow> bytes) \<Rightarrow> sharder \<Rightarrow> sharding_key list \<Rightarrow> usize list \<times> i16 list \<Rightarrow> (usize list \<times> i16 list) result" where
  "collect_keys digest sharder [] acc = Ok acc"
| "collect_keys digest sharder (Value v # keys) (found, placeholders) =
     rbind (shard digest sharder v) (\<lambda>s. collect_keys digest sharder keys (List.insert s found, placeholders))"
| "collect_keys digest sharder (Placeholder p # keys) (found, placeholders) =
     collect_keys digest sharder keys (found, placeholders @ [p])"

fun collect_exprs ::
  "(string \<Rightarrow> string) \<Rightarrow> (bytes \<Rightarrow> bytes) \<Rightarrow> expr list \<Rightarrow> object_name list \<Rightarrow> query_router
   \<Rightarrow> usize list \<times> i16 list \<Rightarrow> (usize list \<times> i16 list) result" where
  "collect_exprs lower digest [] tables self acc = Ok acc"
| "collect_exprs lower digest (e # exprs) tables self acc =
     rbind (selection_parser lower e tables self) (\<lambda>keys.
     rbind (collect_keys digest (router_sharder self) keys acc) (\<lambda>acc.
     collect_exprs lower digest exprs tables self acc))"

definition infer_shard_from_exprs ::
  "(string \<Rightarrow> string) \<Rightarrow> (bytes \<Rightarrow> bytes) \<Rightarrow> expr list \<Rightarrow> object_name list \<Rightarrow> query_router
   \<Rightarrow> (query_router \<times> usize option) result" where
  "infer_shard_from_exprs lower digest exprs tables self =
     rbind (collect_exprs lower digest exprs tables self ([], rt_placeholders self)) (\<lambda>(found, placeholders).
       Ok (self\<lparr>rt_placeholders := placeholders\<rparr>, case found of [s] \<Rightarrow> Some s | _ \<Rightarrow> None))"

definition infer_shard ::
  "(string \<Rightarrow> string) \<Rightarrow> (bytes \<Rightarrow> bytes) \<Rightarrow> query \<Rightarrow> query_router \<Rightarrow> (query_router \<times> usize option) result" where
  "infer_shard lower digest query self =
     (let (exprs, tables) = process_query query None ([], [])
      in infer_shard_from_exprs lower digest exprs tables self)"

definition infer_shard_on_write ::
  "(string \<Rightarrow> string) \<Rightarrow> (bytes \<Rightarrow> bytes) \<Rightarrow> statement \<Rightarrow> query_router \<Rightarrow> (query_router \<times> usize option) result" where
  "infer_shard_on_write lower digest q self =
     rbind (extract_exprs_and_table_names q) (\<lambda>extracted.
     case extracted of
       Some ex \<Rightarrow>
         rbind (case ex_assignments ex of
                  Some assignments \<Rightarrow> assignment_parser lower assignments self
                | None \<Rightarrow> Ok ()) (\<lambda>_.
         infer_shard_from_exprs lower digest (ex_exprs ex) (ex_table_names ex) self)
     | None \<Rightarrow> Ok (self, None))"

definition handle_inferred_shard ::
  "usize option \<Rightarrow> usize option \<Rightarrow> query_router \<Rightarrow> (query_router \<times> usize option) result" where
  "handle_inferred_shard inferred_shard prev_inferred_shard self =
     (case inferred_shard of
        Some s \<Rightarrow>
          if (case prev_inferred_shard of Some prev_shard \<Rightarrow> prev_shard \<noteq> s | None \<Rightarrow> False)
          then Err (QueryRouterParserError ''multiple shards in query'')
          else Ok (self\<lparr>rt_active_shard := Some s\<rparr>, Some s)
      | None \<Rightarrow> Ok (self, prev_inferred_shard))"

section \<open>Inferring the role\<close>

text \<open>
  The timer that \<open>database_activity_state\<close> starts, which makes a new database \<open>Active\<close> after a delay,
  fires after the call and is not part of it.
\<close>

definition get_database_activity_state :: "string \<Rightarrow> route_caches \<Rightarrow> database_activity_state \<times> route_caches" where
  "get_database_activity_state db caches =
     (case rc_activity caches db of
        Some state \<Rightarrow> (state, caches)
      | None \<Rightarrow> (Initializing, caches\<lparr>rc_activity := (rc_activity caches)(db \<mapsto> Initializing)\<rparr>))"

definition table_mutation_cache_key :: "query_router \<Rightarrow> ident \<Rightarrow> string" where
  "table_mutation_cache_key self table = ps_db (rt_pool_settings self) @ ''.'' @ table"

definition query_handles_tables_in_mutation_cache :: "query \<Rightarrow> query_router \<Rightarrow> route_caches \<Rightarrow> bool" where
  "query_handles_tables_in_mutation_cache query self caches =
     list_ex (\<lambda>table. table_mutation_cache_key self table \<in> set (rc_mutations caches)) (concat (table_names query))"

definition update_mutation_cache_on_write :: "statement \<Rightarrow> query_router \<Rightarrow> route_caches \<Rightarrow> route_caches result" where
  "update_mutation_cache_on_write q self caches =
     rbind (extract_exprs_and_table_names q) (\<lambda>extracted.
     case extracted of
       Some ex \<Rightarrow>
         Ok (caches\<lparr>rc_mutations :=
           fold (\<lambda>table. List.insert (table_mutation_cache_key self table)) (concat (ex_table_names ex)) (rc_mutations caches)\<rparr>)
     | None \<Rightarrow> Ok caches)"

text \<open>The local variables of \<open>infer\<close>, with the router and the caches it changes.\<close>

record infer_state =
  if_router :: query_router
  if_caches :: route_caches
  if_primary_set :: bool
  if_visited_write :: bool
  if_prev_shard :: "usize option"

definition set_role :: "role option \<Rightarrow> infer_state \<Rightarrow> infer_state" where
  "set_role r st = st\<lparr>if_router := (if_router st)\<lparr>rt_active_role := r\<rparr>\<rparr>"

text \<open>The choice of the shard for a statement, when a sharding key is configured.\<close>

definition infer_step_shard ::
  "(query_router \<Rightarrow> (query_router \<times> usize option) result) \<Rightarrow> (infer_state, unit) act" where
  "infer_step_shard inferrer st =
     (case ps_automatic_sharding_key (rt_pool_settings (if_router st)) of
        Some _ \<Rightarrow>
          act_bind (act_get (\<lambda>st. inferrer (if_router st))) (\<lambda>(self, inferred_shard).
          act_bind (act_modify (\<lambda>st. st\<lparr>if_router := self\<rparr>)) (\<lambda>_.
          act_bind (act_get (\<lambda>st. handle_inferred_shard inferred_shard (if_prev_shard st) self)) (\<lambda>(self, prev).
          act_modify (\<lambda>st. st\<lparr>if_router := self, if_prev_shard := prev\<rparr>)))) st
      | None \<Rightarrow> (Ok (), st))"

definition infer_query :: "(string \<Rightarrow> string) \<Rightarrow> (bytes \<Rightarrow> bytes) \<Rightarrow> query \<Rightarrow> (infer_state, unit) act" where
  "infer_query lower digest query st =
     (if if_primary_set st then (Ok (), st)
      else if ps_db_activity_based_routing (rt_pool_settings (if_router st))
              \<and> query_handles_tables_in_mutation_cache query (if_router st) (if_caches st)
      then (Ok (), (set_role (Some Primary) st)\<lparr>if_primary_set := True\<rparr>)
      else
        act_bind (infer_step_shard (infer_shard lower digest query)) (\<lambda>_. act_modify (\<lambda>st.
          let has_locks = (q_locks query \<noteq> []);
              has_mutation = is_mutation_query query
          in if has_locks \<or> has_mutation then set_role (Some Primary) st
             else if \<not> if_visited_write st
             then set_role (if primary_reads_enabled (if_router st) then None else Some Replica) st
             else st)) st)"

definition infer_write :: "(string \<Rightarrow> string) \<Rightarrow> (bytes \<Rightarrow> bytes) \<Rightarrow> statement \<Rightarrow> (infer_state, unit) act" where
  "infer_write lower digest q st =
     act_bind
       (if ps_db_activity_based_routing (rt_pool_settings (if_router st))
        then act_bind (act_get (\<lambda>st. update_mutation_cache_on_write q (if_router st) (if_caches st))) (\<lambda>caches.
             act_modify (\<lambda>st. st\<lparr>if_caches := caches\<rparr>))
        else act_return ()) (\<lambda>_.
     act_bind (infer_step_shard (infer_shard_on_write lower digest q)) (\<lambda>_.
     act_modify (\<lambda>st. set_role (Some Primary) (st\<lparr>if_visited_write := True\<rparr>)))) st"

fun infer_loop :: "(string \<Rightarrow> string) \<Rightarrow> (bytes \<Rightarrow> bytes) \<Rightarrow> statement list \<Rightarrow> (infer_state, unit) act" where
  "infer_loop lower digest [] = act_return ()"
| "infer_loop lower digest (q # ast) =
     (case q of
        StartTransaction \<Rightarrow> act_modify (set_role (Some Primary))
      | QueryStmt query \<Rightarrow> act_bind (infer_query lower digest query) (\<lambda>_. infer_loop lower digest ast)
      | _ \<Rightarrow> act_bind (infer_write lower digest q) (\<lambda>_. infer_loop lower digest ast))"

text \<open>The state before the loop.\<close>

definition infer_init :: "query_router \<Rightarrow> route_caches \<Rightarrow> infer_state" where
  "infer_init self caches =
     (let settings = rt_pool_settings self;
          st = \<lparr> if_router = self, if_caches = caches, if_primary_set = False, if_visited_write = False,
                 if_prev_shard = None \<rparr>
      in if ps_db_activity_based_routing settings
         then let (state, caches) = get_database_activity_state (ps_db settings) caches;
                  st = st\<lparr>if_caches := caches\<rparr>
              in case state of
                   Initializing \<Rightarrow> (set_role (Some Primary) st)\<lparr>if_primary_set := True\<rparr>
                 | Active \<Rightarrow> st
         else st)"

definition infer ::
  "(string \<Rightarrow> string) \<Rightarrow> (bytes \<Rightarrow> bytes) \<Rightarrow> statement list \<Rightarrow> (query_router \<times> route_caches, unit) act" where
  "infer lower digest ast = (\<lambda>(self, caches).
     if \<not> ps_query_parser_read_write_splitting (rt_pool_settings self) then (Ok (), (self, caches))
     else if ast = [] then
       (Err (QueryRouterParserError ''empty query''), (self\<lparr>rt_active_role := Some Primary\<rparr>, caches))
     else (case infer_loop lower digest ast (infer_init self caches) of
             (r, st) \<Rightarrow> (r, (if_router st, if_caches st))))"

section \<open>Inferring the shard from a Bind message\<close>

definition parameter_format_of :: "i16 \<Rightarrow> parameter_format result" where
  "parameter_format_of param_format =
     (if param_format = 0 then Ok TextFormat else if param_format = 1 then Ok BinaryFormat else Panic)"

definition get_parameter_format :: "bytes \<Rightarrow> (parameter_format \<times> bytes) result" where
  "get_parameter_format cursor =
     rbind (get_i16 cursor) (\<lambda>(param_format, cursor).
     rbind (parameter_format_of param_format) (\<lambda>f. Ok (f, cursor)))"

text \<open>\<open>Vec::with_capacity(n as usize)\<close> panics on a negative count.\<close>

definition get_parameter_formats :: "bytes \<Rightarrow> (parameter_format \<times> bytes) result" where
  "get_parameter_formats cursor =
     rbind (get_i16 cursor) (\<lambda>(num_params, cursor).
       if num_params = 0 then Ok (TextFormat, cursor)
       else if num_params = 1 then
         rbind (get_parameter_format cursor) (\<lambda>(f, cursor). Ok (Uniform f, cursor))
       else if sint num_params < 0 then Panic
       else rbind (get_many (range_count num_params) get_parameter_format cursor) (\<lambda>(v, cursor).
            Ok (Specified v, cursor)))"

definition parameter_format_at :: "parameter_format \<Rightarrow> nat \<Rightarrow> parameter_format result" where
  "parameter_format_at f i =
     (case f of
        TextFormat \<Rightarrow> Ok TextFormat
      | Uniform f \<Rightarrow> Ok f
      | Specified formats \<Rightarrow> if i < length formats then Ok (formats ! i) else Panic
      | BinaryFormat \<Rightarrow> Panic)"

text \<open>The value of a parameter that is a sharding key; \<open>None\<close> is the \<open>continue\<close> after a value that is not an integer.\<close>

definition get_key_value :: "parameter_format \<Rightarrow> usize \<Rightarrow> bytes \<Rightarrow> (i64 option \<times> bytes) result" where
  "get_key_value format len cursor =
     (case format of
        TextFormat \<Rightarrow>
          rbind (get_bytes (unat len) cursor) (\<lambda>(val, cursor). Ok (parse_i64 (latin1 val), cursor))
      | BinaryFormat \<Rightarrow>
          if len = 2 then rbind (get_i16 cursor) (\<lambda>(v, cursor). Ok (Some (scast v), cursor))
          else if len = 4 then rbind (get_i32 cursor) (\<lambda>(v, cursor). Ok (Some (scast v), cursor))
          else if len = 8 then rbind (get_i64 cursor) (\<lambda>(v, cursor). Ok (Some v, cursor))
          else Ok (None, cursor)
      | _ \<Rightarrow> Panic)"

fun bind_shards ::
  "(bytes \<Rightarrow> bytes) \<Rightarrow> query_router \<Rightarrow> parameter_format \<Rightarrow> nat \<Rightarrow> nat \<Rightarrow> bytes \<Rightarrow> usize list \<Rightarrow> usize list result" where
  "bind_shards digest self parameter_format 0 i cursor found = Ok found"
| "bind_shards digest self parameter_format (Suc n) i cursor found =
     rbind (get_i32 cursor) (\<lambda>(len, cursor).
     rbind (parameter_format_at parameter_format i) (\<lambda>format.
     let placeholder = of_nat (i + 1)
     in if placeholder \<in> set (rt_placeholders self)
        then rbind (get_key_value format (scast len) cursor) (\<lambda>(val, cursor).
             case val of
               Some v \<Rightarrow>
                 rbind (shard digest (router_sharder self) v) (\<lambda>s.
                 bind_shards digest self parameter_format n (Suc i) cursor (List.insert s found))
             | None \<Rightarrow> bind_shards digest self parameter_format n (Suc i) cursor found)
        else bind_shards digest self parameter_format n (Suc i) cursor found))"

definition infer_shard_from_bind :: "(bytes \<Rightarrow> bytes) \<Rightarrow> bytes \<Rightarrow> query_router \<Rightarrow> (query_router \<times> bool) result" where
  "infer_shard_from_bind digest message self =
     (if \<not> ps_query_parser_read_write_splitting (rt_pool_settings self) then Ok (self, False)
      else
        rbind (get_u8 message) (\<lambda>(code, cursor).
        rbind (get_i32 cursor) (\<lambda>(len, cursor).
        if code \<noteq> CHR ''B'' then Ok (self, False)
        else if of_nat (length message) \<noteq> (scast len + 1 :: usize) then Ok (self, False)
        else if rt_placeholders self = [] then Ok (self, False)
        else
          rbind (cursor_read_string cursor) (\<lambda>(portal, cursor).
          rbind (cursor_read_string cursor) (\<lambda>(name, cursor).
          rbind (get_parameter_formats cursor) (\<lambda>(parameter_format, cursor).
          rbind (get_i16 cursor) (\<lambda>(num_parameters, cursor).
          rbind (bind_shards digest self parameter_format (range_count num_parameters) 0 cursor []) (\<lambda>found.
          let self = self\<lparr>rt_placeholders := []\<rparr>
          in case found of
               [s] \<Rightarrow> Ok (set_shard (Some s) self, True)
             | _ \<Rightarrow> Ok (self, False)))))))))"

section \<open>Plugins\<close>

datatype plugin_output = Allow | Deny string | Overwrite "statement list" | InterceptOutput bytes

text \<open>\<open>relations ast\<close>: the names of the relations of the statements, rendered, in the order of the visit.\<close>

definition table_access_run :: "(statement list \<Rightarrow> string list) \<Rightarrow> table_access \<Rightarrow> statement list \<Rightarrow> plugin_output" where
  "table_access_run relations self ast =
     (if \<not> ta_enabled self then Allow
      else case find (\<lambda>name. name \<in> set (ta_tables self))
                  (map (\<lambda>relation. last (split_on (CHR ''.'') relation)) (relations ast)) of
             Some found \<Rightarrow> Deny (''permission for table '' @ [CHR 0x22] @ found @ [CHR 0x22] @ '' denied'')
           | None \<Rightarrow> Allow)"

definition intercept_data_type :: "string \<Rightarrow> data_type" where
  "intercept_data_type s =
     (if s = ''text'' then Text else if s = ''anyarray'' then AnyArray else if s = ''oid'' then Oid
      else if s = ''bool'' then Bool else if s = ''int4'' then Int4 else Any)"

fun intercept_schema :: "string list list \<Rightarrow> (string \<times> data_type) list result" where
  "intercept_schema [] = Ok []"
| "intercept_schema ((name # data_type # _) # rows) =
     rbind (intercept_schema rows) (\<lambda>rd. Ok ((name, intercept_data_type data_type) # rd))"
| "intercept_schema (_ # rows) = Panic"

definition intercept_rule_result :: "query_rule \<Rightarrow> bytes result" where
  "intercept_rule_result target =
     rbind (intercept_schema (qr_schema target)) (\<lambda>rd.
     Ok (row_description rd
         @ concat (map (\<lambda>row. data_row_nullable (map (\<lambda>s. if s = [] then None else Some s) row)) (qr_result target))
         @ command_complete ''SELECT''))"

fun intercept_query :: "(string \<times> query_rule) list \<Rightarrow> string \<Rightarrow> bytes result" where
  "intercept_query [] q = Ok []"
| "intercept_query ((name, target) # rules) q =
     rbind (if qr_query target = q then intercept_rule_result target else Ok []) (\<lambda>r.
     rbind (intercept_query rules q) (\<lambda>rs. Ok (r @ rs)))"

fun intercept_queries :: "(string \<times> query_rule) list \<Rightarrow> string list \<Rightarrow> bytes result" where
  "intercept_queries rules [] = Ok []"
| "intercept_queries rules (q # qs) =
     rbind (intercept_query rules q) (\<lambda>r. rbind (intercept_queries rules qs) (\<lambda>rs. Ok (r @ rs)))"

definition intercept_run ::
  "(statement \<Rightarrow> string) \<Rightarrow> intercept \<Rightarrow> query_router \<Rightarrow> statement list \<Rightarrow> plugin_output result" where
  "intercept_run render self query_router ast =
     (if \<not> in_enabled self \<or> ast = [] then Ok Allow
      else
        let settings = rt_pool_settings query_router;
            config = intercept_substitute (ps_db settings) (u_username (ps_user settings)) self
        in rbind (intercept_queries (in_queries config) (map (\<lambda>q. ascii_lower (render q)) ast)) (\<lambda>result.
           if result \<noteq> [] then Ok (InterceptOutput (result @ put_u8 CHR ''Z'' @ put_i32 5 @ put_u8 CHR ''I''))
           else Ok Allow))"

text \<open>The query logger writes a log line and always allows the query.\<close>

definition query_logger_run :: "query_logger \<Rightarrow> statement list \<Rightarrow> plugin_output" where
  "query_logger_run self ast = Allow"

definition execute_plugins ::
  "(statement list \<Rightarrow> string list) \<Rightarrow> (statement \<Rightarrow> string) \<Rightarrow> statement list \<Rightarrow> query_router \<Rightarrow> plugin_output result" where
  "execute_plugins relations render ast self =
     (case ps_plugins (rt_pool_settings self) of
        None \<Rightarrow> Ok Allow
      | Some plugins \<Rightarrow>
          rbind (case pl_intercept plugins of
                   Some intercept \<Rightarrow> intercept_run render intercept self ast
                 | None \<Rightarrow> Ok Allow) (\<lambda>result.
          case result of
            InterceptOutput output \<Rightarrow> Ok (InterceptOutput output)
          | _ \<Rightarrow>
              (case pl_table_access plugins of
                 Some table_access \<Rightarrow>
                   (case table_access_run relations table_access ast of
                      Deny error \<Rightarrow> Ok (Deny error)
                    | _ \<Rightarrow> Ok Allow)
               | None \<Rightarrow> Ok Allow)))"

end
