(* ===== verification/Routing.thy ===== *)
theory Routing
  imports Query_Router
begin

text \<open>
  Properties of the query router: the role and the shard it chooses for a list of statements, the
  custom commands, the parameters of a Bind message, and the plugins.
\<close>

section \<open>Roles\<close>

abbreviation infer_role :: "infer_state \<Rightarrow> role option" where
  "infer_role st \<equiv> rt_active_role (if_router st)"






lemma infer_shard_from_exprs_same:
  "infer_shard_from_exprs lower digest es ts r = Ok (r', s) \<Longrightarrow> \<exists>p. r' = r\<lparr>rt_placeholders := p\<rparr>"
  by (auto simp: infer_shard_from_exprs_def)

lemma infer_shard_same: "infer_shard lower digest q r = Ok (r', s) \<Longrightarrow> \<exists>p. r' = r\<lparr>rt_placeholders := p\<rparr>"
  by (auto simp: infer_shard_def dest: infer_shard_from_exprs_same split: prod.splits)

lemma infer_shard_on_write_same:
  "infer_shard_on_write lower digest q r = Ok (r', s) \<Longrightarrow> \<exists>p. r' = r\<lparr>rt_placeholders := p\<rparr>"
proof -
  have "\<exists>p. r = r\<lparr>rt_placeholders := p\<rparr>" by (rule exI [of _ "rt_placeholders r"]) simp
  moreover assume "infer_shard_on_write lower digest q r = Ok (r', s)"
  ultimately show ?thesis
    by (auto simp: infer_shard_on_write_def dest: infer_shard_from_exprs_same split: option.splits)
qed




lemma set_role_simps [simp]:
  "infer_role (set_role r st) = r" "if_visited_write (set_role r st) = if_visited_write st"
  "if_primary_set (set_role r st) = if_primary_set st" "if_caches (set_role r st) = if_caches st"
  by (simp_all add: set_role_def)












section \<open>Shards\<close>

text \<open>The numbers \<open>collect_keys\<close> gathers are those of the values, without duplicates.\<close>

definition key_values :: "sharding_key list \<Rightarrow> i64 list" where
  "key_values keys = concat (map (\<lambda>k. case k of Value v \<Rightarrow> [v] | Placeholder _ \<Rightarrow> []) keys)"

definition key_placeholders :: "sharding_key list \<Rightarrow> i16 list" where
  "key_placeholders keys = concat (map (\<lambda>k. case k of Value _ \<Rightarrow> [] | Placeholder p \<Rightarrow> [p]) keys)"

lemma key_values_simps [simp]:
  "key_values [] = []" "key_values (Value v # ks) = v # key_values ks" "key_values (Placeholder p # ks) = key_values ks"
  "key_values (xs @ ys) = key_values xs @ key_values ys"
  "key_placeholders [] = []" "key_placeholders (Value v # ks) = key_placeholders ks"
  "key_placeholders (Placeholder p # ks) = p # key_placeholders ks"
  "key_placeholders (xs @ ys) = key_placeholders xs @ key_placeholders ys"
  by (simp_all add: key_values_def key_placeholders_def)

lemma collect_keys_Ok:
  "collect_keys digest sharder keys acc = Ok (found, ps) \<Longrightarrow> distinct (fst acc) \<Longrightarrow>
   distinct found \<and> ps = snd acc @ key_placeholders keys
   \<and> Ok ` set found = Ok ` set (fst acc) \<union> shard digest sharder ` set (key_values keys)"
proof (induction digest sharder keys acc arbitrary: found ps rule: collect_keys.induct)
  case (2 digest sharder v keys fs ps0)
  then obtain s where s: "shard digest sharder v = Ok s"
    and r: "collect_keys digest sharder keys (List.insert s fs, ps0) = Ok (found, ps)" by auto
  from "2.IH" [OF s r] 2 s show ?case by auto
qed auto

definition all_keys :: "(string \<Rightarrow> string) \<Rightarrow> ident \<times> ident \<Rightarrow> expr list \<Rightarrow> object_name list \<Rightarrow> sharding_key list" where
  "all_keys lower key es ts = concat (map (selection_keys lower key ts) es)"

lemma collect_exprs_Ok:
  "collect_exprs lower digest es ts self acc = Ok (found, ps) \<Longrightarrow> distinct (fst acc) \<Longrightarrow>
   sharding_key_idents lower self = Ok key \<Longrightarrow>
   distinct found \<and> ps = snd acc @ key_placeholders (all_keys lower key es ts)
   \<and> Ok ` set found = Ok ` set (fst acc) \<union> shard digest (router_sharder self) ` set (key_values (all_keys lower key es ts))"
proof (induction es arbitrary: acc)
  case Nil
  then show ?case by (simp add: all_keys_def)
next
  case (Cons e es)
  then obtain acc1 where 1: "collect_keys digest (router_sharder self) (selection_keys lower key ts e) acc = Ok acc1"
    and 2: "collect_exprs lower digest es ts self acc1 = Ok (found, ps)"
    by (auto simp: selection_parser_def)
  obtain f1 p1 where acc1: "acc1 = (f1, p1)" by force
  from collect_keys_Ok [OF 1 [unfolded acc1] Cons.prems(2)] Cons.IH [OF 2] Cons.prems(3) acc1
  show ?case by (simp add: all_keys_def Un_assoc image_Un)
qed

lemma infer_shard_from_exprs_Ok:
  assumes "infer_shard_from_exprs lower digest es ts self = Ok (self', r)"
    and key: "sharding_key_idents lower self = Ok key"
  shows "self' = self\<lparr>rt_placeholders := rt_placeholders self @ key_placeholders (all_keys lower key es ts)\<rparr>
    \<and> (r = Some s \<longleftrightarrow> shard digest (router_sharder self) ` set (key_values (all_keys lower key es ts)) = {Ok s})"
proof -
  from assms(1) obtain found ps where c: "collect_exprs lower digest es ts self ([], rt_placeholders self) = Ok (found, ps)"
    and r: "self' = self\<lparr>rt_placeholders := ps\<rparr>" "r = (case found of [s] \<Rightarrow> Some s | _ \<Rightarrow> None)"
    by (auto simp: infer_shard_from_exprs_def)
  from collect_exprs_Ok [OF c _ key] have d: "distinct found" "ps = rt_placeholders self @ key_placeholders (all_keys lower key es ts)"
    "Ok ` set found = shard digest (router_sharder self) ` set (key_values (all_keys lower key es ts))" by auto
  have "(case found of [s] \<Rightarrow> Some s | _ \<Rightarrow> None) = Some s \<longleftrightarrow> found = [s]"
    by (auto split: list.splits)
  also have "\<dots> \<longleftrightarrow> set found = {s}" using distinct_singleton_iff [OF d(1)] by blast
  also have "\<dots> \<longleftrightarrow> Ok ` set found = ({Ok s} :: usize result set)"
    by auto
  finally show ?thesis using r d by simp
qed

text \<open>The shard is the one the router had, or a valid one.\<close>

definition shard_valid :: "query_router \<Rightarrow> query_router \<Rightarrow> bool" where
  "shard_valid r0 r \<longleftrightarrow> rt_pool_settings r = rt_pool_settings r0
     \<and> (rt_active_shard r = rt_active_shard r0 \<or> (\<exists>s. rt_active_shard r = Some s \<and> s < ps_shards (rt_pool_settings r0)))"

lemma shard_valid_simps [simp]:
  "shard_valid r0 (r\<lparr>rt_active_role := x\<rparr>) = shard_valid r0 r"
  "shard_valid r0 (r\<lparr>rt_placeholders := y\<rparr>) = shard_valid r0 r"
  by (simp_all add: shard_valid_def)

lemma router_sharder_simps [simp]: "shards (router_sharder r) = ps_shards (rt_pool_settings r)"
  by (simp add: router_sharder_def sharder_new_def)

definition in_shards :: "query_router \<Rightarrow> usize option \<Rightarrow> bool" where
  "in_shards r s \<longleftrightarrow> (\<forall>x. s = Some x \<longrightarrow> x < ps_shards (rt_pool_settings r))"

lemma infer_shard_from_exprs_in_shards:
  assumes "key_sharding (shard digest)" "ps_shards (rt_pool_settings self) \<noteq> 0"
    "infer_shard_from_exprs lower digest es ts self = Ok (self', r)"
  shows "in_shards self r"
proof (cases "es = []")
  case True
  with assms(3) show ?thesis by (simp add: infer_shard_from_exprs_def in_shards_def)
next
  case False
  with assms(3) obtain key where key: "sharding_key_idents lower self = Ok key"
    by (cases es) (auto simp: infer_shard_from_exprs_def selection_parser_def)
  show ?thesis
    using key_sharding.image_less [OF assms(1), of "router_sharder self"] infer_shard_from_exprs_Ok [OF assms(3) key] assms(2)
    by (auto simp: in_shards_def)
qed


lemma infer_shard_in_shards:
  assumes "key_sharding (shard digest)" "ps_shards (rt_pool_settings self) \<noteq> 0"
  shows "infer_shard lower digest q self = Ok (self', r) \<Longrightarrow> in_shards self r"
    "infer_shard_on_write lower digest q' self = Ok (self', r) \<Longrightarrow> in_shards self r"
proof -
  have none: "in_shards self None" by (simp add: in_shards_def)
  show "infer_shard lower digest q self = Ok (self', r) \<Longrightarrow> in_shards self r"
    by (auto simp: infer_shard_def dest: infer_shard_from_exprs_in_shards [OF assms] split: prod.splits)
  show "infer_shard_on_write lower digest q' self = Ok (self', r) \<Longrightarrow> in_shards self r"
    using none by (auto simp: infer_shard_on_write_def dest: infer_shard_from_exprs_in_shards [OF assms] split: option.splits)
qed

lemma infer_step_shard_keeps:
  assumes same: "\<And>r r' s. f r = Ok (r', s) \<Longrightarrow> \<exists>p. r' = r\<lparr>rt_placeholders := p\<rparr>"
    and range: "\<And>r r' s. ps_shards (rt_pool_settings r) \<noteq> 0 \<Longrightarrow> f r = Ok (r', s) \<Longrightarrow> in_shards r s"
    and n: "ps_shards (rt_pool_settings r0) \<noteq> 0"
  shows "keeps (\<lambda>st. shard_valid r0 (if_router st)) (infer_step_shard f)"
  unfolding keeps_def
proof (intro allI impI)
  fix st :: infer_state assume v: "shard_valid r0 (if_router st)"
  then have s: "rt_pool_settings (if_router st) = rt_pool_settings r0" by (simp add: shard_valid_def)
  show "shard_valid r0 (if_router (snd (infer_step_shard f st)))"
  proof (cases "f (if_router st)")
    case (Ok p)
    obtain r1 x where p: "p = (r1, x)" by force
    with Ok same obtain pl where r1: "r1 = (if_router st)\<lparr>rt_placeholders := pl\<rparr>" by blast
    have "in_shards (if_router st) x" using range [of "if_router st"] n s Ok p by auto
    with v s show ?thesis
      by (auto simp: infer_step_shard_def Ok p r1 act_bind_def act_get_def act_modify_def handle_inferred_shard_def
          in_shards_def shard_valid_def split: option.splits)
  qed (use v in \<open>auto simp: infer_step_shard_def act_bind_def act_get_def split: option.splits\<close>)
qed

lemma set_role_valid [simp]: "shard_valid r0 (if_router (set_role r st)) = shard_valid r0 (if_router st)"
  by (simp add: set_role_def)

lemma infer_loop_keeps:
  assumes "key_sharding (shard digest)" "ps_shards (rt_pool_settings r0) \<noteq> 0"
  shows "keeps (\<lambda>st. shard_valid r0 (if_router st)) (infer_loop lower digest ast)"
proof -
  let ?P = "\<lambda>st. shard_valid r0 (if_router st)"
  have r: "keeps ?P (infer_step_shard (infer_shard lower digest q))" for q
    by (rule infer_step_shard_keeps [OF infer_shard_same infer_shard_in_shards(1) assms(2)]) (use assms in auto)
  have w: "keeps ?P (infer_step_shard (infer_shard_on_write lower digest q))" for q
    by (rule infer_step_shard_keeps [OF infer_shard_on_write_same infer_shard_in_shards(2) assms(2)]) (use assms in auto)
  have q: "keeps ?P (infer_query lower digest q)" for q
    using keeps_bind [OF r [of q] keeps_modify, of "\<lambda>_. _"]
    by (auto simp: infer_query_def keeps_def Let_def)
  have wr: "keeps ?P (infer_write lower digest q)" for q
    unfolding keeps_def infer_write_def
    by (intro allI impI keepsD [of ?P, OF _ _ surjective_pairing])
       (auto intro!: keeps_bind keeps_return keeps_modify w)
  show ?thesis
    by (induction ast) (auto intro!: keeps_intro q wr split: statement.split)
qed

lemma infer_init_valid: "shard_valid r (if_router (infer_init r c))"
  by (auto simp: infer_init_def Let_def shard_valid_def set_role_def split: prod.splits database_activity_state.splits)

section \<open>Custom commands\<close>

text \<open>Two patterns that start differently do not match the same text.\<close>

lemma upper_not_high: "ascii [c] \<Longrightarrow> 128 \<le> (of_char x :: nat) \<Longrightarrow> ascii_upper [x] \<noteq> ascii_upper [c]"
proof
  assume c: "ascii [c]" and x: "128 \<le> (of_char x :: nat)" and eq: "ascii_upper [x] = ascii_upper [c]"
  from c have "of_char c < (128 :: nat)" by (simp add: ascii_def)
  moreover from eq x have "x = c \<or> x = char_of (of_char c - 32 :: nat)" by (auto simp: ascii_upper_def split: if_splits)
  ultimately show False using x by (auto simp: take_bit_eq_mod)
qed

lemma fold_ci_agree:
  assumes "fold_ci c s = Some r" "fold_ci d s = Some r'" "ascii [c]" "ascii [d]"
  shows "ascii_upper [c] = ascii_upper [d] \<and> r = r'"
proof -
  obtain x t where s: "s = x # t" using assms(1) by (cases s) (auto simp: fold_ci_def)
  have h: "ascii_upper [CHR 0xC5] \<noteq> ascii_upper [c]" "ascii_upper [CHR 0xE2] \<noteq> ascii_upper [c]"
    "ascii_upper [CHR 0xC5] \<noteq> ascii_upper [d]" "ascii_upper [CHR 0xE2] \<noteq> ascii_upper [d]"
    using upper_not_high assms(3,4) by auto
  show ?thesis using assms(1,2) h
    by (auto simp: fold_ci_def s split: if_splits)
qed

text \<open>The texts differ, ignoring case, before either of them ends.\<close>

fun diverge :: "string \<Rightarrow> string \<Rightarrow> bool" where
  "diverge (c # p) (d # q) = (if ascii_upper [c] = ascii_upper [d] then diverge p q else True)"
| "diverge _ _ = False"

lemma match_ci_diverge:
  "match_ci p s = Some r \<Longrightarrow> match_ci q s = Some r' \<Longrightarrow> ascii p \<Longrightarrow> ascii q \<Longrightarrow> \<not> diverge p q"
proof (induction p q arbitrary: s rule: diverge.induct)
  case (1 c p d q)
  from 1(2) obtain s1 where s1: "fold_ci c s = Some s1" "match_ci p s1 = Some r" by (auto split: option.splits)
  from 1(3) obtain s2 where s2: "fold_ci d s = Some s2" "match_ci q s2 = Some r'" by (auto split: option.splits)
  from fold_ci_agree [OF s1(1) s2(1)] 1(4,5) have e: "ascii_upper [c] = ascii_upper [d]" "s1 = s2" by (auto simp: ascii_def)
  from 1(1) [OF e(1) s1(2) s2(2) [folded e(2)]] 1(4,5) e show ?case by (simp add: ascii_def)
qed auto

text \<open>The keywords that a command starts with.\<close>

fun command_keywords :: "command \<Rightarrow> string" where
  "command_keywords SetShardingKey = ''SET SHARDING KEY TO ''"
| "command_keywords SetShard = ''SET SHARD TO ''"
| "command_keywords ShowShard = ''SHOW SHARD''"
| "command_keywords SetServerRole = ''SET SERVER ROLE TO ''"
| "command_keywords ShowServerRole = ''SHOW SERVER ROLE''"
| "command_keywords SetPrimaryReads = ''SET PRIMARY READS TO ''"
| "command_keywords ShowPrimaryReads = ''SHOW PRIMARY READS''"

lemma match_command_keywords:
  "match_command c q = Some v \<Longrightarrow> \<exists>r. match_ci (command_keywords c) (skip_spaces q) = Some r"
  by (cases c) (auto simp: match_set_def match_show_def simp del: match_ci.simps split: option.splits)

lemma keywords_diverge: "c \<noteq> d \<Longrightarrow> diverge (command_keywords c) (command_keywords d)"
  by (cases c; cases d) (simp_all add: ascii_upper_def char_of_eval)

lemma match_command_unique:
  assumes "match_command c q \<noteq> None" "match_command d q \<noteq> None"
  shows "c = d"
proof (rule ccontr)
  assume "c \<noteq> d"
  have "ascii (command_keywords x)" for x by (cases x) (simp_all add: ascii_def)
  with assms keywords_diverge [OF \<open>c \<noteq> d\<close>] show False
    by (metis match_ci_diverge match_command_keywords option.exhaust)
qed

lemma custom_matches_eq:
  assumes "match_command c q \<noteq> None"
  shows "custom_matches q = [c]"
proof -
  have "match_command d q \<noteq> None \<longleftrightarrow> d = c" for d using assms match_command_unique by blast
  then show ?thesis by (cases c) (simp_all add: custom_matches_def CUSTOM_SQL_REGEXES_def)
qed

lemma custom_matches_unique:
  "custom_matches q = [] \<or> (\<exists>c. custom_matches q = [c] \<and> match_command c q \<noteq> None)"
proof (cases "\<exists>c. match_command c q \<noteq> None")
  case True
  then show ?thesis using custom_matches_eq by blast
next
  case False
  then show ?thesis by (simp add: custom_matches_def)
qed

lemma try_execute_command_query:
  assumes "wf_cstring q" "ps_shard_id_regex (rt_pool_settings self) = None"
    "ps_sharding_key_regex (rt_pool_settings self) = None"
  shows "try_execute_command True capture1 digest random (simple_query q) self =
    (case custom_matches q of
       [command] \<Rightarrow>
         (case command_value self command q of
            None \<Rightarrow> Ok (self, None)
          | Some val \<Rightarrow>
              rbind (execute_command digest random command val self) (\<lambda>(self, val).
              Ok (self, Some (command, val))))
     | _ \<Rightarrow> Ok (self, None))"
  using assms read_put_cstring [of q "[]"]
  by (simp add: try_execute_command_def simple_query_def Let_def wire_simps put_cstring_def)

lemma match_digits_show_nat: "r = [] \<or> \<not> is_digit (hd r) \<Longrightarrow> match_digits (show_nat n @ r) = Some (show_nat n, r)"
proof -
  assume r: "r = [] \<or> \<not> is_digit (hd r)"
  from show_nat_props [of n] have d: "show_nat n \<noteq> []" "\<forall>c \<in> set (show_nat n). is_digit c" by (auto simp: list_all_iff)
  have "takeWhile is_digit (show_nat n @ r) = show_nat n"
    using d r by (cases r) (auto simp: takeWhile_append2)
  with d show ?thesis by (simp add: match_digits_def)
qed

lemma show_nat_head: "\<exists>c r. show_nat n = c # r \<and> is_digit c"
  using show_nat_props [of n] by (cases "show_nat n") auto

definition set_sharding_key_query :: "nat \<Rightarrow> string" where
  "set_sharding_key_query n = ''SET SHARDING KEY TO '' @ [CHR 0x27] @ show_nat n @ [CHR 0x27]"

lemma match_sharding_key:
  "match_command SetShardingKey (set_sharding_key_query n) = Some (show_nat n)"
proof -
  have "match_digits (show_nat n @ [CHR 0x27]) = Some (show_nat n, [CHR 0x27])"
    by (rule match_digits_show_nat) (simp add: is_digit_def)
  then show ?thesis
    by (simp add: set_sharding_key_query_def match_set_def skip_spaces_def fold_ci_def skip_optional_def at_end_def)
qed

lemma wf_set_sharding_key_query: "wf_cstring (set_sharding_key_query n)"
proof -
  have "ascii (set_sharding_key_query n)"
    using ascii_show_nat [of n] by (simp add: set_sharding_key_query_def ascii_def)
  then show ?thesis using show_nat_no_zero [of n]
    by (simp add: wf_cstring_def utf8_ascii set_sharding_key_query_def)
qed

lemma parse_i64_show_nat: "parse_i64 (show_nat n) = (if n < 2 ^ 63 then Some (of_nat n) else None)"
proof -
  obtain c r where c: "show_nat n = c # r" using show_nat_head by blast
  have "parse_signed 9223372036854775807 (show_nat n) = (if n < 2 ^ 63 then Some (int n) else None)"
    using show_nat_first [OF c] parse_digits_show_nat [of n] c
    by (simp add: parse_signed_def parse_unsigned_def)
  then show ?thesis by (simp add: parse_i64_def)
qed

section \<open>Bind messages\<close>

lemma bind_shards_skips_nothing:
  assumes "of_nat (i + 1) \<notin> set (rt_placeholders self)"
  shows "bind_shards digest self TextFormat (Suc n) i (put_i32 len @ val @ rest) found
    = bind_shards digest self TextFormat n (Suc i) (val @ rest) found"
  using assms by (simp add: parameter_format_at_def Let_def)


lemma get_key_value_too_long: "length cursor < unat len \<Longrightarrow> get_key_value TextFormat len cursor = Panic"
  by (simp add: get_key_value_def get_bytes_def)

lemma get_i32_1000: "get_i32 (''1000'' @ r) = Ok (825241648, r)"
  by (simp add: get_i32_def get_bytes_def get_be_def)

section \<open>Properties\<close>

text \<open>A router whose pool splits reads from writes, for the examples.\<close>

definition splitting_router :: query_router where
  "splitting_router = update_pool_settings
     (pool_settings_default\<lparr>ps_query_parser_read_write_splitting := True, ps_primary_reads_enabled := False\<rparr>) query_router_new"





text \<open>
  C27: inference never chooses a shard that does not exist: whatever the outcome of \<open>infer\<close>, the
  active shard of the router is the one it had or a number below the number of shards.
\<close>

theorem infer_shard_in_range:
  assumes "\<forall>m. length (digest m) = 20" "ps_shards (rt_pool_settings self) \<noteq> 0"
    and "infer lower digest ast (self, caches) = (r, (self', caches'))"
  shows "rt_active_shard self' = rt_active_shard self
    \<or> (\<exists>s. rt_active_shard self' = Some s \<and> s < ps_shards (rt_pool_settings self))"
proof -
  have "keeps (\<lambda>st. shard_valid self (if_router st)) (infer_loop lower digest ast)"
    by (rule infer_loop_keeps [OF key_sharding_shard]) (rule assms)+
  from keepsD [OF this infer_init_valid] have
    "shard_valid self (if_router st)" if "infer_loop lower digest ast (infer_init self caches) = (q, st)" for q st
    using that by blast
  with assms(3) have "shard_valid self self' \<or> self' = self \<or> self' = self\<lparr>rt_active_role := Some Primary\<rparr>"
    by (auto simp: infer_def split: if_splits prod.splits)
  then show ?thesis by (auto simp: shard_valid_def)
qed

text \<open>
  A condition names a shard exactly when all its sharding keys belong to that shard: on success,
  \<open>infer_shard_from_exprs\<close> returns shard \<open>s\<close> if and only if the literal keys found in the
  expressions have \<open>s\<close> as their only shard, and it appends the placeholders of the keys to those
  kept for the Bind message.
\<close>

theorem infer_shard_from_exprs_unique:
  assumes "infer_shard_from_exprs lower digest es ts self = Ok (self', r)"
    and "sharding_key_idents lower self = Ok key"
  shows "self' = self\<lparr>rt_placeholders := rt_placeholders self @ key_placeholders (all_keys lower key es ts)\<rparr>
    \<and> (r = Some s \<longleftrightarrow> shard digest (router_sharder self) ` set (key_values (all_keys lower key es ts)) = {Ok s})"
  using assms by (rule infer_shard_from_exprs_Ok)

text \<open>The router of a pool with one shard, whose tables are sharded by the column \<open>id\<close>.\<close>

definition sharded_router :: query_router where
  "sharded_router = splitting_router\<lparr>rt_pool_settings :=
     (rt_pool_settings splitting_router)\<lparr>ps_automatic_sharding_key := Some ''*.id''\<rparr>\<rparr>"

theorem infer_shard_from_exprs_unique_witness:
  "infer_shard_from_exprs id id [BinaryOp (Identifier ''id'') EqOp (Number ''5''), BinaryOp (Identifier ''id'') EqOp (PlaceholderValue ''$3'')] [] sharded_router
     = Ok (sharded_router\<lparr>rt_placeholders := [3]\<rparr>, Some 0)
   \<and> shard id (router_sharder sharded_router) ` set (key_values (all_keys id (''*'', ''id'')
        [BinaryOp (Identifier ''id'') EqOp (Number ''5''), BinaryOp (Identifier ''id'') EqOp (PlaceholderValue ''$3'')] [])) = {Ok 0}"
proof -
  let ?es = "[BinaryOp (Identifier ''id'') EqOp (Number ''5''), BinaryOp (Identifier ''id'') EqOp (PlaceholderValue ''$3'')]"
  have key: "sharding_key_idents id sharded_router = Ok (''*'', ''id'')"
    by (simp add: sharding_key_idents_def sharded_router_def)
  have init: "rt_placeholders sharded_router = []"
    by (simp add: sharded_router_def splitting_router_def update_pool_settings_def query_router_new_def)
  have "shard id (router_sharder sharded_router) 5 = Ok 0"
    by (simp add: shard_def router_sharder_def sharder_new_def pg_bigint_hash_range sharded_router_def splitting_router_def
        update_pool_settings_def query_router_new_def pool_settings_default_def)
  moreover have "selection_keys id (''*'', ''id'') [] (BinaryOp (Identifier ''id'') EqOp (Number ''5'')) = [Value 5]"
    "selection_keys id (''*'', ''id'') [] (BinaryOp (Identifier ''id'') EqOp (PlaceholderValue ''$3'')) = [Placeholder 3]"
    by (simp_all add: identifier_is_key_def is_binary_op_def right_keys_def parse_i64_def parse_i16_def parse_signed_def parse_digits_def digits_val_def is_digit_def digit_val_def)
  ultimately have run: "infer_shard_from_exprs id id ?es [] sharded_router = Ok (sharded_router\<lparr>rt_placeholders := [3]\<rparr>, Some 0)"
    using init by (simp add: infer_shard_from_exprs_def selection_parser_def key del: selection_keys.simps)
  with infer_shard_from_exprs_unique [OF run key, of 0] show ?thesis by simp
qed

text \<open>A query by the sharding key, with which the router of the example finds the shard.\<close>

theorem infer_shard_in_range_witness:
  "\<exists>s. rt_active_shard (fst (snd (infer id (\<lambda>m. replicate 20 CHR 0x00)
       [QueryStmt (SqlQuery (SelectBody \<lparr> sl_from = [], sl_selection = Some (BinaryOp (Identifier ''id'') EqOp (Number ''5'')) \<rparr>) [])]
       (sharded_router, \<lparr> rc_activity = Map.empty, rc_mutations = [] \<rparr>)))) = Some s \<and> s < 1"
proof -
  let ?digest = "\<lambda>m :: bytes. replicate 20 CHR 0x00" and ?caches = "\<lparr> rc_activity = Map.empty, rc_mutations = [] \<rparr>"
  let ?e = "BinaryOp (Identifier ''id'') EqOp (Number ''5'')"
  let ?ast = "[QueryStmt (SqlQuery (SelectBody \<lparr> sl_from = [], sl_selection = Some ?e \<rparr>) [])]"
  have key: "sharding_key_idents id self = Ok (''*'', ''id'')" if "rt_pool_settings self = rt_pool_settings sharded_router" for self
    using that by (simp add: sharding_key_idents_def sharded_router_def)
  have sh: "shard ?digest (router_sharder self) 5 = Ok 0" if "rt_pool_settings self = rt_pool_settings sharded_router" for self
    using that by (simp add: shard_def router_sharder_def sharder_new_def pg_bigint_hash_range sharded_router_def splitting_router_def
        update_pool_settings_def query_router_new_def pool_settings_default_def)
  have keys: "selection_keys id (''*'', ''id'') [] ?e = [Value 5]"
    by (simp add: identifier_is_key_def is_binary_op_def right_keys_def parse_i64_def parse_i16_def parse_signed_def parse_digits_def digits_val_def is_digit_def digit_val_def)
  have run: "infer_shard_from_exprs id ?digest [?e] [] self = Ok (self, Some 0)" if "rt_pool_settings self = rt_pool_settings sharded_router" for self
    using that keys by (simp add: infer_shard_from_exprs_def selection_parser_def key sh del: selection_keys.simps)
  have set: "ps_query_parser_read_write_splitting (rt_pool_settings sharded_router)" "\<not> ps_db_activity_based_routing (rt_pool_settings sharded_router)"
    "ps_automatic_sharding_key (rt_pool_settings sharded_router) = Some ''*.id''" "rt_active_shard sharded_router = None"
    by (simp_all add: sharded_router_def splitting_router_def update_pool_settings_def query_router_new_def pool_settings_default_def)
  have "rt_active_shard (fst (snd (infer id ?digest ?ast (sharded_router, ?caches)))) = Some 0"
    using run set by (simp add: infer_def infer_init_def infer_query_def infer_step_shard_def infer_shard_def handle_inferred_shard_def
        process_selection_def process_tables_with_join_def
        set_role_def act_bind_def act_get_def act_modify_def act_return_def act_lift_def act_update_def Let_def)
  moreover obtain r self' caches' where "infer id ?digest ?ast (sharded_router, ?caches) = (r, (self', caches'))" by (metis surj_pair)
  moreover have "ps_shards (rt_pool_settings sharded_router) = 1"
    by (simp add: sharded_router_def splitting_router_def update_pool_settings_def query_router_new_def pool_settings_default_def)
  ultimately show ?thesis using infer_shard_in_range [of ?digest sharded_router id ?ast ?caches r self' caches'] set(4) by auto
qed

text \<open>
  At most one custom command matches a query, so that a query that matches a command's pattern is
  executed as that command.
\<close>

theorem custom_commands_disjoint:
  "length (custom_matches query) \<le> 1 \<and> (match_command c query \<noteq> None \<longleftrightarrow> custom_matches query = [c])"
proof
  show "length (custom_matches query) \<le> 1"
    using custom_matches_unique [of query] by (elim disjE exE conjE) simp_all
  show "match_command c query \<noteq> None \<longleftrightarrow> custom_matches query = [c]"
    using custom_matches_unique [of query] custom_matches_eq [of c query] by (metis list.distinct(1) list.inject)
qed

text \<open>
  \<open>SET SHARDING KEY TO '<n>'\<close> sends the session to the shard of the key and answers its number
  when \<open>n\<close> is a 64-bit integer, and panics in \<open>parse::<i64>().unwrap()\<close> when it is larger.
\<close>

theorem set_sharding_key_command:
  assumes "ps_shard_id_regex (rt_pool_settings self) = None" "ps_sharding_key_regex (rt_pool_settings self) = None"
    and "\<forall>m. length (digest m) = 20" "ps_shards (rt_pool_settings self) \<noteq> 0"
  shows "try_execute_command True capture1 digest random (simple_query (set_sharding_key_query n)) self =
    (if n < 2 ^ 63
     then (case shard digest (router_sharder self) (of_nat n) of
             Ok s \<Rightarrow> Ok (set_shard (Some s) self, Some (SetShardingKey, show_nat (unat s)))
           | _ \<Rightarrow> Panic)
     else Panic)"
proof -
  have m: "custom_matches (set_sharding_key_query n) = [SetShardingKey]"
    by (rule custom_matches_eq) (simp add: match_sharding_key del: match_command.simps)
  obtain s where "shard digest (router_sharder self) (of_nat n) = Ok s"
    using key_sharding.in_range [OF key_sharding_shard [OF assms(3)], of "router_sharder self"] assms(4)
    by (auto simp: router_sharder_def sharder_new_def)
  then show ?thesis
    using assms
    by (simp add: try_execute_command_query wf_set_sharding_key_query m command_value_def execute_command_def
        match_sharding_key parse_i64_show_nat set_sharding_key_def set_shard_def del: match_command.simps)
qed

theorem set_sharding_key_command_witness:
  "try_execute_command True (\<lambda>_ _. None) (\<lambda>m. replicate 20 CHR 0x00) 0 (simple_query (set_sharding_key_query (2 ^ 63))) splitting_router = Panic"
  using set_sharding_key_command [of splitting_router "\<lambda>m. replicate 20 CHR 0x00" "\<lambda>_ _. None" 0 "2 ^ 63"]
  by (simp add: splitting_router_def update_pool_settings_def query_router_new_def pool_settings_default_def)

text \<open>
  \<open>SET PRIMARY READS TO ON\<close> matches its pattern, which ignores case, and is acknowledged, but
  leaves the router as it was, because the value is compared with \<open>"on"\<close> as it stands; only the
  lower case form has an effect.
\<close>

theorem primary_reads_on_ignored:
  assumes "ps_shard_id_regex (rt_pool_settings self) = None" "ps_sharding_key_regex (rt_pool_settings self) = None"
  shows "try_execute_command True capture1 digest random (simple_query ''SET PRIMARY READS TO ON'') self
      = Ok (self, Some (SetPrimaryReads, ''ON''))
    \<and> try_execute_command True capture1 digest random (simple_query ''SET PRIMARY READS TO on'') self
      = Ok (self\<lparr>rt_primary_reads_enabled := Some True\<rparr>, Some (SetPrimaryReads, ''on''))"
proof -
  have m: "match_command SetPrimaryReads ''SET PRIMARY READS TO ON'' = Some ''ON''"
    "match_command SetPrimaryReads ''SET PRIMARY READS TO on'' = Some ''on''"
    by (simp_all add: match_set_def skip_spaces_def fold_ci_def skip_optional_def at_end_def ascii_upper_def char_of_eval)
  then have "custom_matches ''SET PRIMARY READS TO ON'' = [SetPrimaryReads]"
    "custom_matches ''SET PRIMARY READS TO on'' = [SetPrimaryReads]"
    by (simp_all add: custom_matches_eq del: match_command.simps)
  moreover have "wf_cstring ''SET PRIMARY READS TO ON''" "wf_cstring ''SET PRIMARY READS TO on''"
    by (simp_all add: wf_cstring_def utf8_ascii)
  ultimately show ?thesis using assms m
    by (simp add: try_execute_command_query command_value_def execute_command_def set_primary_reads_def del: match_command.simps)
qed

theorem primary_reads_on_ignored_witness:
  "try_execute_command True (\<lambda>_ _. None) id 0 (simple_query ''SET PRIMARY READS TO ON'') splitting_router
     = Ok (splitting_router, Some (SetPrimaryReads, ''ON''))"
  using primary_reads_on_ignored [of splitting_router "\<lambda>_ _. None" id 0]
  by (simp add: splitting_router_def update_pool_settings_def query_router_new_def pool_settings_default_def)

text \<open>
  The value of a parameter that is not a sharding key is not skipped in a Bind message, so that
  its bytes are read as the length of the next one: with the key in the second parameter, the
  message that binds the texts 1000 and 7 makes \<open>infer_shard_from_bind\<close> panic.
\<close>

theorem infer_shard_from_bind_misreads:
  assumes "ps_query_parser_read_write_splitting (rt_pool_settings self)" "rt_placeholders self = [2]"
  shows "infer_shard_from_bind digest
     (''B'' @ put_i32 25 @ [CHR 0x00, CHR 0x00] @ put_i16 0 @ put_i16 2 @ put_i32 4 @ ''1000'' @ put_i32 1 @ ''7'' @ put_i16 0) self = Panic"
proof -
  have "bind_shards digest self TextFormat 2 0 (put_i32 4 @ ''1000'' @ put_i32 1 @ ''7'' @ put_i16 0) []
     = bind_shards digest self TextFormat (Suc 0) (Suc 0) (''1000'' @ put_i32 1 @ ''7'' @ put_i16 0) []"
    unfolding numeral_2_eq_2 using assms(2) by (subst bind_shards_skips_nothing) simp_all
  also have "\<dots> = Panic"
    using assms(2)
    by (simp only: bind_shards.simps get_i32_1000) (simp add: parameter_format_at_def get_key_value_too_long)
  finally show ?thesis using assms
  by (simp add: infer_shard_from_bind_def wire_simps Let_def cursor_read_string_def get_parameter_formats_def range_count_def)
qed

theorem infer_shard_from_bind_misreads_witness:
  "infer_shard_from_bind id
     (''B'' @ put_i32 25 @ [CHR 0x00, CHR 0x00] @ put_i16 0 @ put_i16 2 @ put_i32 4 @ ''1000'' @ put_i32 1 @ ''7'' @ put_i16 0)
     (splitting_router\<lparr>rt_placeholders := [2]\<rparr>) = Panic"
  by (rule infer_shard_from_bind_misreads)
     (simp_all add: splitting_router_def update_pool_settings_def query_router_new_def pool_settings_default_def)

text \<open>
  The plugins let a query through only when it names no denied table: when \<open>execute_plugins\<close>
  answers \<open>Allow\<close> and table access is enabled, no relation of the statements has, after its last dot,
  a name in the list of denied tables.
\<close>

theorem allowed_tables:
  assumes "execute_plugins relations render ast self = Ok Allow"
    and "ps_plugins (rt_pool_settings self) = Some plugins" "pl_table_access plugins = Some access" "ta_enabled access"
    and "r \<in> set (relations ast)"
  shows "last (split_on (CHR ''.'') r) \<notin> set (ta_tables access)"
  using assms
  by (auto simp: execute_plugins_def table_access_run_def find_None_iff split: outcome.splits plugin_output.splits option.splits)
     (metis plugin_output.exhaust)

theorem allowed_tables_witness:
  "execute_plugins (\<lambda>_. [''public.t'']) (\<lambda>_. []) [] (splitting_router\<lparr>rt_pool_settings := pool_settings_default\<lparr>ps_plugins := Some
       \<lparr> pl_intercept = None, pl_table_access = Some \<lparr> ta_enabled = True, ta_tables = [''pg_user''] \<rparr>, pl_query_logger = None, pl_prewarmer = None \<rparr>\<rparr>\<rparr>)
     = Ok Allow
   \<and> last (split_on (CHR ''.'') ''public.t'') \<notin> set [''pg_user'']"
  using allowed_tables [of "\<lambda>_. [''public.t'']" "\<lambda>_. []" "[]" "splitting_router\<lparr>rt_pool_settings := pool_settings_default\<lparr>ps_plugins := Some
       \<lparr> pl_intercept = None, pl_table_access = Some \<lparr> ta_enabled = True, ta_tables = [''pg_user''] \<rparr>, pl_query_logger = None, pl_prewarmer = None \<rparr>\<rparr>\<rparr>"
      _ "\<lparr> ta_enabled = True, ta_tables = [''pg_user''] \<rparr>" "''public.t''"]
  by (simp add: execute_plugins_def table_access_run_def)

end
