(* ===== verification/Client.thy ===== *)
theory Client
  imports Client_Startup Routing
begin

text \<open>
  \<open>src/src/client.rs\<close>, second part: the session of a client, from its first message to the end of the
  connection.

  The state of a session is the client, the shared state of the process it works on (configuration and
  pools, the map of claimed servers, the registered statistics, the caches of the router, the counter of
  statement names), the local variables of \<open>handle\<close>, and the connections it gave back to their pools.
  Every interaction with the outside takes the next number of a counter; the environment is a function of
  it: what other tasks did to the process since the last look at the pools, signals, clocks, timeouts and
  the answers of the connection pools.  The SQL parser, the regular expressions, Unicode lower case, the
  hashes, random numbers and the \<open>Debug\<close> form of errors are arguments.

  The pool of a client is an object it shares with the map of pools; it works on its own copy, and
  \<open>publish_pool\<close> puts what it changed into the map before it looks at the map again.
\<close>

section \<open>State\<close>

record ('d, 'c, 'p) session_env =
  xe_world :: "nat \<Rightarrow> ('d, 'p) process \<Rightarrow> ('d, 'p) process"
  xe_shutdown :: "nat \<Rightarrow> nat option"
  xe_idle :: "nat \<Rightarrow> nat option"
  xe_statement :: "nat \<Rightarrow> ('c recv_state \<Rightarrow> 'c recv_state) option"
  xe_pool :: "nat \<Rightarrow> ('d, 'c) pool_env"
  xe_admin :: "nat \<Rightarrow> 'd admin_env"
  xe_startup :: startup_env
  xe_now :: "nat \<Rightarrow> nat"
  xe_utc :: "nat \<Rightarrow> i64"
  xe_us :: "nat \<Rightarrow> u64"
  xe_ms :: "nat \<Rightarrow> u64"
  xe_random :: "nat \<Rightarrow> usize"
  xe_ready :: bool
  xe_parse :: "string \<Rightarrow> (string, statement list) outcome"
  xe_capture :: "string \<Rightarrow> string \<Rightarrow> string option"
  xe_lower :: "string \<Rightarrow> string"
  xe_digest :: "bytes \<Rightarrow> bytes"
  xe_hash :: "string \<Rightarrow> u64"
  xe_relations :: "statement list \<Rightarrow> string list"
  xe_render :: "statement \<Rightarrow> string"
  xe_debug :: "error \<Rightarrow> string"

record ('d, 'c, 'p) session =
  sn_client :: client
  sn_process :: "('d, 'p) process"
  sn_map :: client_server_map
  sn_clients :: client_states_lookup
  sn_caches :: route_caches
  sn_counter :: usize
  sn_pool :: "('d, 'p) connection_pool"
  sn_router :: query_router
  sn_failures :: u64
  sn_plugin :: "plugin_output option"
  sn_tick :: nat
  sn_returned :: "'c server list"
  sn_cancel :: "stream option"

text \<open>The connections of servers and the statement caches of pools are two instances of an LRU cache.\<close>

datatype ('c, 'p) caches = Caches (server_ops: "(string, unit, 'c) lru_ops") (pool_ops: "(u64, parse_msg, 'p) lru_ops")

definition tick :: "(('d, 'c, 'p) session, nat) act" where
  "tick = act_update (\<lambda>s. (sn_tick s, s\<lparr>sn_tick := Suc (sn_tick s)\<rparr>))"

definition on_client :: "(client, 'a) act \<Rightarrow> (('d, 'c, 'p) session, 'a) act" where
  "on_client = act_zoom sn_client (\<lambda>c s. s\<lparr>sn_client := c\<rparr>)"

definition client_modify :: "(client \<Rightarrow> client) \<Rightarrow> (('d, 'c, 'p) session, unit) act" where
  "client_modify f = act_modify (\<lambda>s. s\<lparr>sn_client := f (sn_client s)\<rparr>)"

text \<open>Writing to the socket of the client.\<close>

definition to_client :: "(stream, 'a) act \<Rightarrow> (('d, 'c, 'p) session, 'a) act" where
  "to_client m = on_client (act_zoom cl_stream (\<lambda>t c. c\<lparr>cl_stream := t\<rparr>) m)"

definition client_stats_do :: "(client_stats \<Rightarrow> client_stats) \<Rightarrow> (('d, 'c, 'p) session, unit) act" where
  "client_stats_do f = client_modify (\<lambda>c. c\<lparr>cl_stats := f (cl_stats c)\<rparr>)"

definition stats_disconnect :: "(('d, 'c, 'p) session, unit) act" where
  "stats_disconnect = act_modify (\<lambda>s. s\<lparr>sn_clients := client_disconnect (cl_stats (sn_client s)) (sn_clients s)\<rparr>)"

definition application_name :: "('d, 'c, 'p) session \<Rightarrow> string result" where
  "application_name s = get_application_name (cl_server_parameters (sn_client s))"

section \<open>Pools\<close>

definition publish_pool :: "(('d, 'c, 'p) session, unit) act" where
  "publish_pool = act_modify (\<lambda>s.
     let i = pool_identifier_new (cl_pool_name (sn_client s)) (cl_username (sn_client s))
     in s\<lparr>sn_process := (sn_process s)\<lparr>pr_pools := map_adjust i (\<lambda>_. sn_pool s) (pr_pools (sn_process s))\<rparr>\<rparr>)"

definition client_get_pool :: "('d, 'c, 'p) session_env \<Rightarrow> (('d, 'c, 'p) session, ('d, 'p) connection_pool) act" where
  "client_get_pool env =
     act_bind tick (\<lambda>t.
     act_bind (act_modify (\<lambda>s. s\<lparr>sn_process := xe_world env t (sn_process s)\<rparr>)) (\<lambda>_.
     act_bind (act_get (\<lambda>s. Ok (sn_client s, get_pool (cl_pool_name (sn_client s)) (cl_username (sn_client s)) (pr_pools (sn_process s)))))
       (\<lambda>(c, pool).
     case pool of
       Some pool \<Rightarrow> act_return pool
     | None \<Rightarrow>
         act_bind (to_client (error_response (''No pool configured for database: '' @ cl_pool_name c @ '', user: '' @ cl_username c))) (\<lambda>_.
         act_bind (act_get application_name) (\<lambda>name.
         act_lift (Err (ClientError (''Invalid pool name { username: '' @ cl_pool_name c @ '', pool_name: '' @ cl_username c
                                     @ '', application_name: '' @ name @ '' }''))))))))"

definition release :: "(('d, 'c, 'p) session, unit) act" where
  "release = act_modify (\<lambda>s. s\<lparr>sn_map := (sn_map s)((cl_process_id (sn_client s), cl_secret_key (sn_client s)) := None)\<rparr>)"

definition reset_buffered_state :: "client \<Rightarrow> client" where
  "reset_buffered_state c = c\<lparr>cl_buffer := [], cl_extended := [], cl_response_queue := []\<rparr>"

definition push_extended :: "extended_protocol_data \<Rightarrow> (('d, 'c, 'p) session, unit) act" where
  "push_extended d = client_modify (\<lambda>c. c\<lparr>cl_extended := cl_extended c @ [d]\<rparr>)"

section \<open>Custom protocol\<close>

definition debug_shard :: "usize option \<Rightarrow> string" where
  "debug_shard s = (case s of Some n \<Rightarrow> ''Some('' @ show_nat (unat n) @ '')'' | None \<Rightarrow> ''None'')"

definition custom_reply :: "usize option \<Rightarrow> command \<Rightarrow> string \<Rightarrow> (('d, 'c, 'p) session, unit) act" where
  "custom_reply current_shard command val =
     (case command of
        SetShard \<Rightarrow>
          act_bind (act_get (\<lambda>s. Ok (router_shard (sn_router s), pool_shards (sn_pool s)))) (\<lambda>(selected, shards).
          case selected of
            None \<Rightarrow> act_return ()
          | Some selected_shard \<Rightarrow>
              if shards \<le> selected_shard then
                act_bind (act_modify (\<lambda>s. s\<lparr>sn_router := set_shard current_shard (sn_router s)\<rparr>)) (\<lambda>_.
                to_client (error_response (''shard '' @ show_nat (unat selected_shard) @ '' is not configured '' @ show_nat (unat shards)
                  @ '', staying on shard '' @ debug_shard current_shard @ '' (shard numbers start at 0)'')))
              else to_client (custom_protocol_response_ok ''SET SHARD''))
      | SetPrimaryReads \<Rightarrow> to_client (custom_protocol_response_ok ''SET PRIMARY READS'')
      | SetShardingKey \<Rightarrow> to_client (custom_protocol_response_ok ''SET SHARDING KEY'')
      | SetServerRole \<Rightarrow> to_client (custom_protocol_response_ok ''SET SERVER ROLE'')
      | ShowServerRole \<Rightarrow> to_client (show_response ''server role'' val)
      | ShowShard \<Rightarrow> to_client (show_response ''shard'' val)
      | ShowPrimaryReads \<Rightarrow> to_client (show_response ''primary reads'' val))"

definition handle_custom_protocol :: "('d, 'c, 'p) session_env \<Rightarrow> bytes \<Rightarrow> (('d, 'c, 'p) session, bool) act" where
  "handle_custom_protocol env message =
     act_bind tick (\<lambda>t.
     act_bind (act_get (\<lambda>s. Ok (router_shard (sn_router s)))) (\<lambda>current_shard.
     act_bind (act_get (\<lambda>s. try_execute_command (xe_ready env) (xe_capture env) (xe_digest env) (xe_random env t) message (sn_router s)))
       (\<lambda>(router, custom).
     act_bind (act_modify (\<lambda>s. s\<lparr>sn_router := router\<rparr>)) (\<lambda>_.
     case custom of
       None \<Rightarrow> act_return False
     | Some (command, val) \<Rightarrow> act_bind (custom_reply current_shard command val) (\<lambda>_. act_return True)))))"

section \<open>Parsing and plugins\<close>

text \<open>A query that the parser rejects is only logged.\<close>

definition parse_query :: "('d, 'c, 'p) session_env \<Rightarrow> bytes \<Rightarrow> (('d, 'c, 'p) session, statement list option) act" where
  "parse_query env message =
     act_get (\<lambda>s. case router_parse (xe_parse env) message (sn_router s) of
                    Ok ast \<Rightarrow> Ok (Some ast) | Err _ \<Rightarrow> Ok None | Panic \<Rightarrow> Panic)"

definition run_plugins :: "('d, 'c, 'p) session_env \<Rightarrow> statement list \<Rightarrow> (('d, 'c, 'p) session, plugin_output option) act" where
  "run_plugins env ast =
     act_get (\<lambda>s. case execute_plugins (xe_relations env) (xe_render env) ast (sn_router s) of
                    Ok output \<Rightarrow> Ok (Some output) | Err _ \<Rightarrow> Ok None | Panic \<Rightarrow> Panic)"

text \<open>\<open>let _ = query_router.infer(&ast)\<close>\<close>

definition infer_route :: "('d, 'c, 'p) session_env \<Rightarrow> statement list \<Rightarrow> (('d, 'c, 'p) session, unit) act" where
  "infer_route env ast s =
     (case infer (xe_lower env) (xe_digest env) ast (sn_router s, sn_caches s) of
        (r, (router, caches)) \<Rightarrow>
          (case r of Panic \<Rightarrow> Panic | _ \<Rightarrow> Ok (), s\<lparr>sn_router := router, sn_caches := caches\<rparr>))"

text \<open>The answer of a plugin to a simple query; true when there is one.\<close>

definition plugin_reply :: "plugin_output option \<Rightarrow> (('d, 'c, 'p) session, bool) act" where
  "plugin_reply output =
     (case output of
        Some (Deny error) \<Rightarrow> act_bind (to_client (error_response error)) (\<lambda>_. act_return True)
      | Some (InterceptOutput result) \<Rightarrow> act_bind (to_client (write_all result)) (\<lambda>_. act_return True)
      | _ \<Rightarrow> act_return False)"

definition parser_enabled :: "(('d, 'c, 'p) session, bool) act" where
  "parser_enabled = act_get (\<lambda>s. Ok (query_parser_enabled (sn_router s)))"

text \<open>A simple query outside a transaction: \<open>None\<close> when a plugin answered it, otherwise the syntax tree if there is one.\<close>

definition initial_query :: "('d, 'c, 'p) session_env \<Rightarrow> bytes \<Rightarrow> (('d, 'c, 'p) session, statement list option option) act" where
  "initial_query env message =
     act_bind parser_enabled (\<lambda>enabled.
     if \<not> enabled then act_return (Some None)
     else
       act_bind (parse_query env message) (\<lambda>ast.
       case ast of
         None \<Rightarrow> act_return (Some None)
       | Some ast \<Rightarrow>
           act_bind (run_plugins env ast) (\<lambda>output.
           act_bind (plugin_reply output) (\<lambda>answered.
           if answered then act_return None
           else act_bind (infer_route env ast) (\<lambda>_. act_return (Some (Some ast)))))))"

text \<open>The plugins on a Parse message; outside a transaction it is routed too.\<close>

definition parse_plugins :: "('d, 'c, 'p) session_env \<Rightarrow> bool \<Rightarrow> bytes \<Rightarrow> (('d, 'c, 'p) session, unit) act" where
  "parse_plugins env routing message =
     act_bind parser_enabled (\<lambda>enabled.
     act_when enabled
       (act_bind (parse_query env message) (\<lambda>ast.
        case ast of
          None \<Rightarrow> act_return ()
        | Some ast \<Rightarrow>
            act_bind (run_plugins env ast) (\<lambda>output.
            act_bind (act_when (output \<noteq> None) (act_modify (\<lambda>s. s\<lparr>sn_plugin := output\<rparr>))) (\<lambda>_.
            act_when routing (infer_route env ast))))))"

section \<open>The extended protocol\<close>

definition backquoted :: "string \<Rightarrow> string" where
  "backquoted name = CHR 0x60 # name @ [CHR 0x60]"

definition store_statement ::
  "('d, 'c, 'p) session_env \<Rightarrow> ('c, 'p) caches \<Rightarrow> parse_msg \<Rightarrow> (('d, 'c, 'p) session, parse_msg option) act" where
  "store_statement env ops parse =
     act_update (\<lambda>s.
       case register_parse_to_cache (pool_ops ops) (parse_get_hash (xe_hash env) parse) parse (sn_pool s, sn_counter s) of
         (new_parse, pool, counter) \<Rightarrow> (new_parse, s\<lparr>sn_pool := pool, sn_counter := counter\<rparr>))"

definition buffer_parse :: "('d, 'c, 'p) session_env \<Rightarrow> ('c, 'p) caches \<Rightarrow> bytes \<Rightarrow> (('d, 'c, 'p) session, unit) act" where
  "buffer_parse env ops message =
     act_bind (act_get (\<lambda>s. Ok (cl_prepared_statements_enabled (sn_client s)))) (\<lambda>enabled.
     if \<not> enabled then push_extended (create_new_parse message None)
     else
       act_bind (act_lift (parse_get_name message)) (\<lambda>client_given_name.
       act_bind (act_lift (parse_try_from message)) (\<lambda>parse.
       let hash = parse_get_hash (xe_hash env) parse in
       act_bind (store_statement env ops parse) (\<lambda>new_parse.
       case new_parse of
         None \<Rightarrow> act_lift (Err (ClientError (''Could not store Prepared statement '' @ backquoted client_given_name)))
       | Some new_parse \<Rightarrow>
           act_bind (client_modify (\<lambda>c. c\<lparr>cl_prepared_statements := (cl_prepared_statements c)(client_given_name \<mapsto> (new_parse, hash))\<rparr>)) (\<lambda>_.
           act_bind (act_lift (parse_to_bytes new_parse)) (\<lambda>data.
           push_extended (create_new_parse data (Some (new_parse, hash)))))))))"

definition unknown_statement :: "string \<Rightarrow> (('d, 'c, 'p) session, unit) act" where
  "unknown_statement client_given_name =
     act_bind (to_client (error_response (''prepared statement '' @ [CHR 0x22] @ client_given_name @ [CHR 0x22] @ '' does not exist''))) (\<lambda>_.
     act_lift (Err (ClientError (''Prepared statement '' @ backquoted client_given_name @ '' doesn'' @ [CHR 0x27] @ ''t exist''))))"

definition buffer_bind :: "bytes \<Rightarrow> (('d, 'c, 'p) session, unit) act" where
  "buffer_bind message =
     act_bind (act_get (\<lambda>s. Ok (sn_client s))) (\<lambda>c.
     if \<not> cl_prepared_statements_enabled c then push_extended (create_new_bind message None)
     else
       act_bind (act_lift (bind_get_name message)) (\<lambda>client_given_name.
       case cl_prepared_statements c client_given_name of
         Some (rewritten_parse, _) \<Rightarrow>
           act_bind (act_lift (bind_rename message (p_name rewritten_parse))) (\<lambda>message.
           push_extended (create_new_bind message (Some client_given_name)))
       | None \<Rightarrow> unknown_statement client_given_name))"

definition buffer_describe :: "bytes \<Rightarrow> (('d, 'c, 'p) session, unit) act" where
  "buffer_describe message =
     act_bind (act_get (\<lambda>s. Ok (sn_client s))) (\<lambda>c.
     if \<not> cl_prepared_statements_enabled c then push_extended (create_new_describe message None)
     else
       act_bind (act_lift (describe_try_from message)) (\<lambda>describe.
       if d_target describe = CHR ''P'' then push_extended (create_new_describe message None)
       else
         let client_given_name = d_statement_name describe in
         case cl_prepared_statements c client_given_name of
           Some (rewritten_parse, _) \<Rightarrow>
             act_bind (act_lift (describe_to_bytes (describe_rename describe (p_name rewritten_parse)))) (\<lambda>message.
             push_extended (create_new_describe message (Some client_given_name)))
         | None \<Rightarrow> unknown_statement client_given_name))"

definition buffer_close :: "bytes \<Rightarrow> (('d, 'c, 'p) session, unit) act" where
  "buffer_close message =
     act_bind (act_lift (close_try_from message)) (\<lambda>close. push_extended (create_new_close message close))"

definition route_bind :: "('d, 'c, 'p) session_env \<Rightarrow> bytes \<Rightarrow> (('d, 'c, 'p) session, unit) act" where
  "route_bind env message =
     act_bind parser_enabled (\<lambda>enabled.
     act_when enabled
       (act_bind (act_get (\<lambda>s. infer_shard_from_bind (xe_digest env) message (sn_router s))) (\<lambda>(router, _).
        act_modify (\<lambda>s. s\<lparr>sn_router := router\<rparr>))))"

text \<open>The messages that are buffered until Sync; true when the message is one of them.\<close>

definition buffer_message ::
  "('d, 'c, 'p) session_env \<Rightarrow> ('c, 'p) caches \<Rightarrow> bool \<Rightarrow> bytes \<Rightarrow> (('d, 'c, 'p) session, bool) act" where
  "buffer_message env ops routing message =
     (let code = hd message; buffered = (\<lambda>m. act_bind m (\<lambda>_. act_return True)) in
      if code = CHR ''P'' then
        buffered (act_bind (parse_plugins env routing message) (\<lambda>_. buffer_parse env ops message))
      else if code = CHR ''B'' then
        buffered (act_bind (act_when routing (route_bind env message)) (\<lambda>_. buffer_bind message))
      else if code = CHR ''D'' then buffered (buffer_describe message)
      else if code = CHR ''E'' then buffered (push_extended (create_new_execute message))
      else if code = CHR ''C'' then buffered (buffer_close message)
      else act_return False)"

section \<open>Talking to a server\<close>

record ('d, 'c, 'p) transaction =
  tx_session :: "('d, 'c, 'p) session"
  tx_server :: "'c server"
  tx_address :: address

definition on_session :: "(('d, 'c, 'p) session, 'a) act \<Rightarrow> (('d, 'c, 'p) transaction, 'a) act" where
  "on_session = act_zoom tx_session (\<lambda>t s. s\<lparr>tx_session := t\<rparr>)"

definition on_tx_server :: "('c server, 'a) act \<Rightarrow> (('d, 'c, 'p) transaction, 'a) act" where
  "on_tx_server = act_zoom tx_server (\<lambda>t s. s\<lparr>tx_server := t\<rparr>)"

definition tx_server_modify :: "('c server \<Rightarrow> 'c server) \<Rightarrow> (('d, 'c, 'p) transaction, unit) act" where
  "tx_server_modify f = act_modify (\<lambda>s. s\<lparr>tx_server := f (tx_server s)\<rparr>)"

text \<open>\<open>if let Err(err) = m { h(err); return Err(err) }\<close>, where \<open>h\<close> may fail itself.\<close>

definition act_catch :: "('s, 'a) act \<Rightarrow> (error \<Rightarrow> ('s, unit) act) \<Rightarrow> ('s, 'a) act" where
  "act_catch m h s =
     (case m s of
        (Err e, s) \<Rightarrow> act_bind (h e) (\<lambda>_. act_lift (Err e)) s
      | r \<Rightarrow> r)"

text \<open>\<open>pool.ban(address, reason, Some(&self.stats))\<close>; the statistics of the address are shared with the connection.\<close>

definition tx_ban :: "('d, 'c, 'p) session_env \<Rightarrow> ban_reason \<Rightarrow> (('d, 'c, 'p) transaction, unit) act" where
  "tx_ban env reason =
     act_bind (on_session tick) (\<lambda>t s.
       let sn = tx_session s; client = sn_client sn in
       case ban (xe_utc env t) (tx_address s) reason (Some (cl_stats client)) (store_stats (tx_server s) (sn_pool sn)) of
         (r, pool) \<Rightarrow>
           (rbind r (\<lambda>_. Ok ()),
            s\<lparr>tx_session := sn\<lparr>sn_pool := pool,
                 sn_client := (case r of Ok (Some stats) \<Rightarrow> client\<lparr>cl_stats := stats\<rparr> | _ \<Rightarrow> client)\<rparr>,
              tx_server := load_stats pool (tx_server s)\<rparr>))"

definition send_server_message :: "('d, 'c, 'p) session_env \<Rightarrow> bytes \<Rightarrow> (('d, 'c, 'p) transaction, unit) act" where
  "send_server_message env message =
     act_bind (on_session tick) (\<lambda>t.
     act_catch (on_tx_server (server_send (xe_now env t) message)) (\<lambda>_. tx_ban env MessageSendFailed))"

definition tx_recv_state :: "('d, 'c, 'p) transaction \<Rightarrow> 'c recv_state" where
  "tx_recv_state s = (tx_server s, Some (cl_server_parameters (sn_client (tx_session s))))"

definition tx_put_recv :: "'c recv_state \<Rightarrow> ('d, 'c, 'p) transaction \<Rightarrow> ('d, 'c, 'p) transaction" where
  "tx_put_recv r s =
     (let sn = tx_session s; client = sn_client sn
      in s\<lparr>tx_server := fst r,
           tx_session := sn\<lparr>sn_client := client\<lparr>cl_server_parameters :=
             (case snd r of Some p \<Rightarrow> p | None \<Rightarrow> cl_server_parameters client)\<rparr>\<rparr>\<rparr>)"

text \<open>A statement that takes too long leaves the connection wherever \<open>recv\<close> was.\<close>

definition statement_timed_out :: "('d, 'c, 'p) session_env \<Rightarrow> nat \<Rightarrow> ('d, 'c, 'p) transaction \<Rightarrow> ('c recv_state \<Rightarrow> 'c recv_state) option" where
  "statement_timed_out env t s =
     (if u_statement_timeout (ps_user (cp_settings (sn_pool (tx_session s)))) = 0 then None else xe_statement env t)"

definition receive_server_message ::
  "('d, 'c, 'p) session_env \<Rightarrow> ('c, 'p) caches \<Rightarrow> (('d, 'c, 'p) transaction, bytes) act" where
  "receive_server_message env ops =
     act_bind (on_session tick) (\<lambda>t.
     act_bind (act_get (\<lambda>s. Ok (statement_timed_out env t s))) (\<lambda>timed_out.
     case timed_out of
       Some progress \<Rightarrow>
         act_bind (act_modify (\<lambda>s. tx_put_recv (progress (tx_recv_state s)) s)) (\<lambda>_.
         act_bind (tx_server_modify mark_bad) (\<lambda>_.
         act_bind (tx_ban env ban_reason.StatementTimeout) (\<lambda>_.
         act_bind (on_session (to_client (error_response_terminal ''pool statement timeout''))) (\<lambda>_.
         act_lift (Err error.StatementTimeout)))))
     | None \<Rightarrow>
         act_catch (act_zoom tx_recv_state tx_put_recv (server_recv (server_ops ops) (xe_now env t))) (\<lambda>err.
           act_bind (tx_ban env MessageReceiveFailed) (\<lambda>_.
           on_session (to_client (error_response_terminal (''error receiving data from server: '' @ xe_debug env err)))))))"

text \<open>What the server sends goes to the client; the connection is not used again when that fails.\<close>

definition forward_to_client :: "bytes \<Rightarrow> (('d, 'c, 'p) transaction, unit) act" where
  "forward_to_client response =
     act_catch (on_session (to_client (write_all_flush response))) (\<lambda>_. tx_server_modify mark_bad)"

definition reply_step :: "('d, 'c, 'p) session_env \<Rightarrow> ('c, 'p) caches \<Rightarrow> (('d, 'c, 'p) transaction, bool) act" where
  "reply_step env ops =
     act_bind (receive_server_message env ops) (\<lambda>response.
     act_bind (forward_to_client response) (\<lambda>_.
     act_get (\<lambda>s. Ok (is_data_available (tx_server s)))))"

lemma act_catch_Ok_iff [simp]: "act_catch m h s = (Ok x, t) \<longleftrightarrow> m s = (Ok x, t)"
  by (auto simp: act_catch_def act_bind_Ok_iff split: prod.splits outcome.splits)

lemma on_session_Ok_iff: "on_session m s = (r, t) \<longleftrightarrow> (\<exists>sn. m (tx_session s) = (r, sn) \<and> t = s\<lparr>tx_session := sn\<rparr>)"
  by (simp add: on_session_def act_zoom_iff)

lemma on_tx_server_iff: "on_tx_server m s = (r, t) \<longleftrightarrow> (\<exists>sv. m (tx_server s) = (r, sv) \<and> t = s\<lparr>tx_server := sv\<rparr>)"
  by (simp add: on_tx_server_def act_zoom_iff)

lemma tx_put_recv_simps [simp]:
  "tx_server (tx_put_recv r s) = fst r" "tx_address (tx_put_recv r s) = tx_address s"
  "sn_process (tx_session (tx_put_recv r s)) = sn_process (tx_session s)"
  "sn_map (tx_session (tx_put_recv r s)) = sn_map (tx_session s)"
  "cl_stream (sn_client (tx_session (tx_put_recv r s))) = cl_stream (sn_client (tx_session s))"
  "cl_process_id (sn_client (tx_session (tx_put_recv r s))) = cl_process_id (sn_client (tx_session s))"
  "cl_secret_key (sn_client (tx_session (tx_put_recv r s))) = cl_secret_key (sn_client (tx_session s))"
  by (simp_all add: tx_put_recv_def Let_def)

text \<open>A successful receive is one successful \<open>recv\<close> on the connection.\<close>

lemma receive_server_message_Ok:
  assumes "receive_server_message env ops s = (Ok bytes, s')"
  shows "\<exists>t p. server_recv (server_ops ops) (xe_now env t) (tx_recv_state s) = (Ok bytes, p)
     \<and> s' = tx_put_recv p (s\<lparr>tx_session := (tx_session s)\<lparr>sn_tick := Suc (sn_tick (tx_session s))\<rparr>\<rparr>)"
  using assms
  by (fastforce simp: receive_server_message_def act_bind_Ok_iff on_session_Ok_iff tick_def act_zoom_iff tx_recv_state_def
      split: option.splits)

lemma forward_to_client_Ok: "forward_to_client bytes s = (Ok x, s') \<Longrightarrow> tx_server s' = tx_server s"
  by (auto simp: forward_to_client_def on_session_Ok_iff)

lemma reply_step_shorter:
  assumes "reply_step env ops s = (Ok again, s')"
  shows "length (rd_input (sv_stream (tx_server s'))) < length (rd_input (sv_stream (tx_server s)))"
proof -
  from assms obtain bytes s1 where 1: "receive_server_message env ops s = (Ok bytes, s1)" and "tx_server s' = tx_server s1"
    by (auto simp: reply_step_def act_bind_Ok_iff dest: forward_to_client_Ok)
  with receive_server_message_Ok [OF 1] show ?thesis
    using reads_shorter [of "tx_server s"] by (force simp: tx_recv_state_def dest!: server_recv_Ok)
qed

text \<open>All the data the server has to offer.\<close>

function reply_loop :: "('d, 'c, 'p) session_env \<Rightarrow> ('c, 'p) caches \<Rightarrow> ('d, 'c, 'p) transaction \<Rightarrow> unit result \<times> ('d, 'c, 'p) transaction" where
  "reply_loop env ops s =
     (case reply_step env ops s of
        (Ok again, s) \<Rightarrow> if again then reply_loop env ops s else (Ok (), s)
      | (Err e, s) \<Rightarrow> (Err e, s)
      | (Panic, s) \<Rightarrow> (Panic, s))"
  by pat_completeness auto
termination
  by (relation "measure (\<lambda>(env, ops, s). length (rd_input (sv_stream (tx_server s))))") (auto dest: reply_step_shorter [OF sym])

declare reply_loop.simps [simp del]

definition send_and_receive_loop ::
  "('d, 'c, 'p) session_env \<Rightarrow> ('c, 'p) caches \<Rightarrow> bytes option \<Rightarrow> (('d, 'c, 'p) transaction, unit) act" where
  "send_and_receive_loop env ops message =
     act_bind (act_get (\<lambda>s. Ok (case message of Some message \<Rightarrow> message | None \<Rightarrow> cl_buffer (sn_client (tx_session s))))) (\<lambda>message.
     act_bind (send_server_message env message) (\<lambda>_.
     act_bind (reply_loop env ops) (\<lambda>_.
     act_bind (on_session tick) (\<lambda>t.
     act_bind (on_session (client_stats_do client_query)) (\<lambda>_.
     act_bind (on_session (act_get application_name)) (\<lambda>name.
     tx_server_modify (server_stats_do (server_query_stats (xe_ms env t) name))))))))"

section \<open>Prepared statements on the server\<close>

definition register_parse_to_server_cache ::
  "('d, 'c, 'p) session_env \<Rightarrow> ('c, 'p) caches \<Rightarrow> bool \<Rightarrow> u64 \<Rightarrow> parse_msg \<Rightarrow> (('d, 'c, 'p) transaction, unit) act" where
  "register_parse_to_server_cache env ops should_send_parse_to_server hash parse =
     act_bind (on_session tick) (\<lambda>t.
     act_bind (on_session (act_modify (\<lambda>s. s\<lparr>sn_pool := promote_prepared_statement_hash (pool_ops ops) hash (sn_pool s)\<rparr>))) (\<lambda>_.
     act_catch (on_tx_server (register_prepared_statement (server_ops ops) (xe_now env t) parse should_send_parse_to_server)) (\<lambda>err.
       act_when (err \<noteq> PreparedStatementError) (tx_ban env MessageSendFailed))))"

definition ensure_prepared_statement_is_on_server ::
  "('d, 'c, 'p) session_env \<Rightarrow> ('c, 'p) caches \<Rightarrow> string \<Rightarrow> (('d, 'c, 'p) transaction, unit) act" where
  "ensure_prepared_statement_is_on_server env ops client_name =
     act_bind (act_get (\<lambda>s. Ok (cl_prepared_statements (sn_client (tx_session s)) client_name))) (\<lambda>statement.
     case statement of
       None \<Rightarrow> act_lift (Err (ClientError (''prepared statement '' @ backquoted client_name @ '' not found'')))
     | Some (parse, hash) \<Rightarrow>
         (\<lambda>s. case register_parse_to_server_cache env ops True hash parse s of
                (Err err, s) \<Rightarrow>
                  if err = PreparedStatementError
                  then on_session (client_modify (\<lambda>c. c\<lparr>cl_prepared_statements := (cl_prepared_statements c)(client_name := None)\<rparr>)) s
                  else (Err err, s)
              | r \<Rightarrow> r))"

text \<open>\<open>self.buffer.put(&data[..])\<close> and \<open>self.response_message_queue_buffer.put(..)\<close>\<close>

definition put_buffer :: "bytes \<Rightarrow> (('d, 'c, 'p) transaction, unit) act" where
  "put_buffer data = on_session (client_modify (\<lambda>c. c\<lparr>cl_buffer := cl_buffer c @ data\<rparr>))"

definition put_response :: "bytes \<Rightarrow> (('d, 'c, 'p) transaction, unit) act" where
  "put_response data = on_session (client_modify (\<lambda>c. c\<lparr>cl_response_queue := cl_response_queue c @ data\<rparr>))"

definition clear_buffer :: "(('d, 'c, 'p) transaction, unit) act" where
  "clear_buffer = on_session (client_modify (\<lambda>c. c\<lparr>cl_buffer := []\<rparr>))"

definition replay_parse ::
  "('d, 'c, 'p) session_env \<Rightarrow> ('c, 'p) caches \<Rightarrow> bytes \<Rightarrow> (parse_msg \<times> u64) option \<Rightarrow> (('d, 'c, 'p) transaction, unit) act" where
  "replay_parse env ops data metadata =
     (case metadata of
        None \<Rightarrow>
          act_bind (act_when (5 < length data \<and> data ! 5 \<noteq> CHR 0x00) (tx_server_modify mark_dirty)) (\<lambda>_. put_buffer data)
      | Some (parse, hash) \<Rightarrow>
          act_bind (on_tx_server (act_update (has_prepared_statement (server_ops ops) (p_name parse)))) (\<lambda>has_it.
          if has_it then put_response parse_complete
          else act_bind (register_parse_to_server_cache env ops False hash parse) (\<lambda>_. put_buffer data)))"

definition replay_named ::
  "('d, 'c, 'p) session_env \<Rightarrow> ('c, 'p) caches \<Rightarrow> bytes \<Rightarrow> string option \<Rightarrow> (('d, 'c, 'p) transaction, unit) act" where
  "replay_named env ops data metadata =
     act_bind (case metadata of
                 Some client_given_name \<Rightarrow> ensure_prepared_statement_is_on_server env ops client_given_name
               | None \<Rightarrow> act_return ()) (\<lambda>_. put_buffer data)"

definition replay_close :: "bytes \<Rightarrow> close_msg \<Rightarrow> (('d, 'c, 'p) transaction, unit) act" where
  "replay_close data close =
     act_bind (act_get (\<lambda>s. Ok (cl_prepared_statements_enabled (sn_client (tx_session s))))) (\<lambda>enabled.
     if enabled \<and> close_is_prepared_statement close \<and> \<not> close_anonymous close then
       act_bind (on_session (client_modify (\<lambda>c. c\<lparr>cl_prepared_statements := (cl_prepared_statements c)(c_name close := None)\<rparr>))) (\<lambda>_.
       put_response close_complete)
     else put_buffer data)"

definition replay_item ::
  "('d, 'c, 'p) session_env \<Rightarrow> ('c, 'p) caches \<Rightarrow> extended_protocol_data \<Rightarrow> (('d, 'c, 'p) transaction, unit) act" where
  "replay_item env ops item =
     (case item of
        ExtParse data metadata \<Rightarrow> replay_parse env ops data metadata
      | ExtBind data metadata \<Rightarrow> replay_named env ops data metadata
      | ExtDescribe data metadata \<Rightarrow> replay_named env ops data metadata
      | ExtExecute data \<Rightarrow> put_buffer data
      | ExtClose data close \<Rightarrow> replay_close data close)"

text \<open>\<open>while let Some(protocol_data) = self.extended_protocol_data_buffer.pop_front()\<close>\<close>

fun replay ::
  "('d, 'c, 'p) session_env \<Rightarrow> ('c, 'p) caches \<Rightarrow> extended_protocol_data list \<Rightarrow> (('d, 'c, 'p) transaction, unit) act" where
  "replay env ops [] = act_return ()"
| "replay env ops (item # items) =
     act_bind (on_session (client_modify (\<lambda>c. c\<lparr>cl_extended := items\<rparr>))) (\<lambda>_.
     act_bind (replay_item env ops item) (\<lambda>_. replay env ops items))"

section \<open>Messages inside a transaction\<close>

datatype control = Continue | Break | Return

text \<open>
  The end of a reply: statistics, and the connection is given up when the transaction is over and the
  client is in transaction mode.  \<open>idle\<close>: the client becomes idle at once; \<open>copy\<close>: a running copy keeps the connection.
\<close>

definition after_reply :: "bool \<Rightarrow> bool \<Rightarrow> (('d, 'c, 'p) transaction, control) act" where
  "after_reply idle copy =
     act_bind (act_get (\<lambda>s. Ok (server_in_transaction (tx_server s)))) (\<lambda>in_transaction.
     if in_transaction then act_return Continue
     else
       act_bind (on_session (client_stats_do client_transaction)) (\<lambda>_.
       act_bind (on_session (act_get application_name)) (\<lambda>name.
       act_bind (tx_server_modify (server_stats_do (server_transaction name))) (\<lambda>_.
       act_bind (act_get (\<lambda>s. Ok (cl_transaction_mode (sn_client (tx_session s)) \<and> \<not> (copy \<and> server_in_copy_mode (tx_server s))))) (\<lambda>leave.
       if leave then act_bind (act_when idle (on_session (client_stats_do client_idle))) (\<lambda>_. act_return Break)
       else act_return Continue)))))"

text \<open>A simple query: a plugin may answer it; the syntax tree of the first message is at hand.\<close>

definition query_answered :: "('d, 'c, 'p) session_env \<Rightarrow> statement list option \<Rightarrow> bytes \<Rightarrow> (('d, 'c, 'p) session, bool) act" where
  "query_answered env initial_parsed_ast message =
     act_bind parser_enabled (\<lambda>enabled.
     if \<not> enabled then act_return False
     else
       act_bind (case initial_parsed_ast of Some ast \<Rightarrow> act_return (Some ast) | None \<Rightarrow> parse_query env message) (\<lambda>ast.
       case ast of
         None \<Rightarrow> act_return False
       | Some ast \<Rightarrow> act_bind (run_plugins env ast) plugin_reply))"

definition tx_query ::
  "('d, 'c, 'p) session_env \<Rightarrow> ('c, 'p) caches \<Rightarrow> statement list option \<Rightarrow> bytes \<Rightarrow> (('d, 'c, 'p) transaction, control) act" where
  "tx_query env ops initial_parsed_ast message =
     act_bind (on_session (query_answered env initial_parsed_ast message)) (\<lambda>answered.
     if answered then act_return Continue
     else act_bind (send_and_receive_loop env ops (Some message)) (\<lambda>_. after_reply True True))"

definition tx_checkin_cleanup :: "('d, 'c, 'p) session_env \<Rightarrow> ('c, 'p) caches \<Rightarrow> (('d, 'c, 'p) transaction, unit) act" where
  "tx_checkin_cleanup env ops =
     act_bind (on_session tick) (\<lambda>t. on_tx_server (checkin_cleanup (server_ops ops) (xe_now env t)))"

definition tx_terminate :: "('d, 'c, 'p) session_env \<Rightarrow> ('c, 'p) caches \<Rightarrow> (('d, 'c, 'p) transaction, control) act" where
  "tx_terminate env ops =
     act_bind (tx_checkin_cleanup env ops) (\<lambda>_.
     act_bind (on_session stats_disconnect) (\<lambda>_.
     act_bind (on_session release) (\<lambda>_.
     act_return Return)))"

text \<open>The answer of a plugin to an extended query; true when there is one.\<close>

definition sync_plugin :: "(('d, 'c, 'p) session, bool) act" where
  "sync_plugin =
     act_bind (act_get (\<lambda>s. Ok (sn_plugin s))) (\<lambda>output.
     act_bind (plugin_reply output) (\<lambda>answered.
     act_bind (act_when answered (act_modify (\<lambda>s. s\<lparr>sn_plugin := None, sn_client := reset_buffered_state (sn_client s)\<rparr>))) (\<lambda>_.
     act_return answered)))"

text \<open>The queued answers go to the client.\<close>

definition flush_responses :: "(('d, 'c, 'p) transaction, unit) act" where
  "flush_responses =
     act_bind (act_get (\<lambda>s. Ok (cl_response_queue (sn_client (tx_session s))))) (\<lambda>queue.
     act_when (queue \<noteq> [])
       (act_bind (forward_to_client queue) (\<lambda>_.
        on_session (client_modify (\<lambda>c. c\<lparr>cl_response_queue := []\<rparr>)))))"

text \<open>With only the Sync message left in the buffer, nothing is sent to the server.\<close>

definition sync_send :: "('d, 'c, 'p) session_env \<Rightarrow> ('c, 'p) caches \<Rightarrow> (('d, 'c, 'p) transaction, unit) act" where
  "sync_send env ops =
     act_bind (act_get (\<lambda>s. unwrap (case cl_buffer (sn_client (tx_session s)) of [] \<Rightarrow> None | c # _ \<Rightarrow> Some c))) (\<lambda>first.
     let should_send_to_server = (first \<noteq> CHR ''S'') in
     act_bind (act_when (\<not> should_send_to_server)
                 (act_bind (act_get (\<lambda>s. Ok (server_in_transaction (tx_server s)))) (\<lambda>b. put_response (ready_for_query b)))) (\<lambda>_.
     act_bind flush_responses (\<lambda>_.
     act_when should_send_to_server (send_and_receive_loop env ops None))))"

definition tx_sync :: "('d, 'c, 'p) session_env \<Rightarrow> ('c, 'p) caches \<Rightarrow> bytes \<Rightarrow> (('d, 'c, 'p) transaction, control) act" where
  "tx_sync env ops message =
     act_bind (on_session sync_plugin) (\<lambda>answered.
     if answered then act_return Continue
     else
       act_bind (act_get (\<lambda>s. Ok (cl_extended (sn_client (tx_session s))))) (\<lambda>items.
       act_bind (replay env ops items) (\<lambda>_.
       act_bind (put_buffer message) (\<lambda>_.
       act_bind (sync_send env ops) (\<lambda>_.
       act_bind clear_buffer (\<lambda>_.
       after_reply False True))))))"

definition send_buffer :: "('d, 'c, 'p) session_env \<Rightarrow> (('d, 'c, 'p) transaction, unit) act" where
  "send_buffer env =
     act_bind (act_get (\<lambda>s. Ok (cl_buffer (sn_client (tx_session s))))) (\<lambda>buffer.
     act_bind (send_server_message env buffer) (\<lambda>_. clear_buffer))"

definition tx_copy_data :: "('d, 'c, 'p) session_env \<Rightarrow> bytes \<Rightarrow> (('d, 'c, 'p) transaction, control) act" where
  "tx_copy_data env message =
     act_bind (put_buffer message) (\<lambda>_.
     act_bind (act_get (\<lambda>s. Ok (8196 < length (cl_buffer (sn_client (tx_session s)))))) (\<lambda>full.
     act_bind (act_when full (send_buffer env)) (\<lambda>_.
     act_return Continue)))"

definition tx_copy_done :: "('d, 'c, 'p) session_env \<Rightarrow> ('c, 'p) caches \<Rightarrow> bytes \<Rightarrow> (('d, 'c, 'p) transaction, control) act" where
  "tx_copy_done env ops message =
     act_bind (put_buffer message) (\<lambda>_.
     act_bind (send_buffer env) (\<lambda>_.
     act_bind (receive_server_message env ops) (\<lambda>response.
     act_bind (forward_to_client response) (\<lambda>_.
     after_reply False False))))"

definition transaction_message ::
  "('d, 'c, 'p) session_env \<Rightarrow> ('c, 'p) caches \<Rightarrow> statement list option \<Rightarrow> bytes \<Rightarrow> (('d, 'c, 'p) transaction, control) act" where
  "transaction_message env ops initial_parsed_ast message =
     (let code = hd message in
      if code = CHR ''Q'' then tx_query env ops initial_parsed_ast message
      else if code = CHR ''X'' then tx_terminate env ops
      else if code = CHR ''S'' then tx_sync env ops message
      else if code = CHR ''d'' then tx_copy_data env message
      else if code = CHR ''c'' \<or> code = CHR ''f'' then tx_copy_done env ops message
      else act_bind (on_session (buffer_message env ops False message)) (\<lambda>_. act_return Continue))"

text \<open>
  The next message of a client that holds a connection; \<open>None\<close> when it took too long, after the
  bytes of a message that is not complete have been read.
\<close>

definition client_read :: "(('d, 'c, 'p) session, bytes) act" where
  "client_read = to_client read_message"

definition drop_input :: "nat \<Rightarrow> (('d, 'c, 'p) session, unit) act" where
  "drop_input n = client_modify (\<lambda>c. c\<lparr>cl_stream := (cl_stream c)\<lparr>rd_input := drop n (rd_input (cl_stream c))\<rparr>\<rparr>)"

definition transaction_read ::
  "('d, 'c, 'p) session_env \<Rightarrow> ('c, 'p) caches \<Rightarrow> (('d, 'c, 'p) transaction, bytes option) act" where
  "transaction_read env ops =
     act_bind (on_session tick) (\<lambda>t.
     act_bind (act_get (\<lambda>s. Ok (g_idle_client_in_transaction_timeout (cf_general (pr_config (sn_process (tx_session s))))))) (\<lambda>timeout.
     case (if timeout = 0 then None else xe_idle env t) of
       Some n \<Rightarrow>
         act_bind (on_session (drop_input n)) (\<lambda>_.
         act_bind (on_session (to_client (error_response ''idle transaction timeout''))) (\<lambda>_.
         act_return None))
     | None \<Rightarrow>
         act_bind
           (act_catch (on_session client_read) (\<lambda>_.
              act_bind (on_session stats_disconnect) (\<lambda>_. tx_checkin_cleanup env ops)))
           (\<lambda>message. act_return (Some message))))"

definition transaction_round ::
  "('d, 'c, 'p) session_env \<Rightarrow> ('c, 'p) caches \<Rightarrow> (('d, 'c, 'p) transaction, control) act" where
  "transaction_round env ops =
     act_bind (transaction_read env ops) (\<lambda>message.
     case message of
       None \<Rightarrow> act_return Break
     | Some message \<Rightarrow> transaction_message env ops None message)"

section \<open>Handling a message leaves the input and the other clients alone\<close>

text \<open>
  What no handler changes: the input that is left, the keys of the client, and the servers claimed by
  others.
\<close>

definition client_input :: "('d, 'c, 'p) session \<Rightarrow> bytes" where
  "client_input s = rd_input (cl_stream (sn_client s))"

definition tx_input :: "('d, 'c, 'p) transaction \<Rightarrow> bytes" where
  "tx_input s = client_input (tx_session s)"

definition own_key :: "('d, 'c, 'p) session \<Rightarrow> i32 \<times> i32" where
  "own_key s = (cl_process_id (sn_client s), cl_secret_key (sn_client s))"

definition other_claims :: "('d, 'c, 'p) session \<Rightarrow> (i32 \<times> i32) \<times> client_server_map" where
  "other_claims s = (own_key s, (sn_map s)(own_key s := None))"

definition client_frame :: "('d, 'c, 'p) session \<Rightarrow> bytes \<times> (i32 \<times> i32) \<times> client_server_map" where
  "client_frame s = (client_input s, other_claims s)"

definition tx_frame :: "('d, 'c, 'p) transaction \<Rightarrow> bytes \<times> (i32 \<times> i32) \<times> client_server_map" where
  "tx_frame s = client_frame (tx_session s)"

lemmas frame_defs = tx_frame_def client_frame_def client_input_def other_claims_def own_key_def

lemma keeps_all: "(\<And>i. keeps (\<lambda>s. f s = i) m) \<Longrightarrow> m s = (r, t) \<Longrightarrow> f t = f s"
  using keepsD [of "\<lambda>x. f x = f s" m s r t] by simp

lemma keeps_part:
  assumes "keeps Q m" "\<And>s. P s \<Longrightarrow> Q (get s)" "\<And>s t. P s \<Longrightarrow> Q t \<Longrightarrow> P (put t s)"
  shows "keeps P (act_zoom get put m)"
  using assms by (intro keeps_zoom) (metis keepsD)

lemma keeps_catch [keeps_intro]:
  assumes m: "keeps P m" and h: "\<And>e. keeps P (h e)"
  shows "keeps P (act_catch m h)"
  unfolding keeps_def
proof (intro allI impI)
  fix s assume "P s"
  moreover obtain r t where r: "m s = (r, t)" by force
  ultimately have "P t" using keepsD [OF m] by auto
  moreover have "keeps P (act_bind (h e) (\<lambda>_. act_lift (Err e)))" for e by (intro keeps_intro h)
  ultimately have "P (snd (act_bind (h e) (\<lambda>_. act_lift (Err e)) t))" for e unfolding keeps_def by blast
  with \<open>P t\<close> show "P (snd (act_catch m h s))" using r by (cases r) (simp_all add: act_catch_def)
qed

lemma keeps_write_all [keeps_intro]:
  "keeps (\<lambda>t. rd_input t = i) (write_all bs)" "keeps (\<lambda>t. rd_input t = i) (write_all_half bs)"
  "keeps (\<lambda>t. rd_input t = i) (write_all_flush bs)"
  unfolding write_all_def write_all_half_def write_all_flush_def
  by (intro keeps_intro; simp add: stream_writes_keep_input)+

lemma keeps_responses [keeps_intro]:
  "keeps (\<lambda>t. rd_input t = i) (error_response message)" "keeps (\<lambda>t. rd_input t = i) (error_response_terminal message)"
  "keeps (\<lambda>t. rd_input t = i) (custom_protocol_response_ok message)" "keeps (\<lambda>t. rd_input t = i) (show_response message val)"
  unfolding error_response_def error_response_terminal_def custom_protocol_response_ok_def show_response_def
    send_ready_for_query_def Let_def
  by (intro keeps_intro)+

lemma keeps_to_client [keeps_intro]:
  assumes "\<And>j. keeps (\<lambda>t. rd_input t = j) m"
  shows "keeps (\<lambda>s. client_frame s = i) (to_client m)"
  unfolding to_client_def on_client_def
  by (rule keeps_zoom) (auto simp: act_zoom_iff frame_defs dest: keeps_all [OF assms])

lemma keeps_client_modify [keeps_intro]:
  "(\<And>c. cl_stream (f c) = cl_stream c \<and> cl_process_id (f c) = cl_process_id c \<and> cl_secret_key (f c) = cl_secret_key c) \<Longrightarrow> keeps (\<lambda>s. client_frame s = i) (client_modify f)"
  by (simp add: client_modify_def keeps_def act_modify_def frame_defs)

lemma keeps_session_small [keeps_intro]:
  "keeps (\<lambda>s. client_frame s = i) tick" "keeps (\<lambda>s. client_frame s = i) (client_stats_do g)"
  "keeps (\<lambda>s. client_frame s = i) stats_disconnect" "keeps (\<lambda>s. client_frame s = i) release"
  "keeps (\<lambda>s. client_frame s = i) (push_extended d)" "keeps (\<lambda>s. client_frame s = i) publish_pool"
  unfolding tick_def client_stats_do_def stats_disconnect_def release_def push_extended_def publish_pool_def
  by (intro keeps_intro; simp add: frame_defs Let_def)+

lemma keeps_client_get_pool [keeps_intro]: "keeps (\<lambda>s. client_frame s = i) (client_get_pool env)"
  unfolding client_get_pool_def
  by (intro keeps_intro; simp add: frame_defs)

lemma keeps_custom [keeps_intro]: "keeps (\<lambda>s. client_frame s = i) (handle_custom_protocol env message)"
proof -
  have "keeps (\<lambda>s. client_frame s = i) (custom_reply shard command val)" for shard command val
    unfolding custom_reply_def by (cases command; simp only: command.case; intro keeps_intro; simp add: frame_defs)
  then show ?thesis
    unfolding handle_custom_protocol_def by (intro keeps_intro; simp add: frame_defs)
qed

lemma keeps_plugins [keeps_intro]:
  "keeps (\<lambda>s. client_frame s = i) (plugin_reply output)" "keeps (\<lambda>s. client_frame s = i) (infer_route env ast)"
  "keeps (\<lambda>s. client_frame s = i) (parse_query env message)" "keeps (\<lambda>s. client_frame s = i) (run_plugins env ast)"
  "keeps (\<lambda>s. client_frame s = i) parser_enabled"
proof -
  show "keeps (\<lambda>s. client_frame s = i) (plugin_reply output)"
    by (auto simp: plugin_reply_def split: option.split plugin_output.split intro!: keeps_intro)
  show "keeps (\<lambda>s. client_frame s = i) (infer_route env ast)"
    by (simp add: keeps_def infer_route_def frame_defs split: prod.split)
qed (simp_all add: parse_query_def run_plugins_def parser_enabled_def keeps_return)

lemma keeps_queries [keeps_intro]:
  "keeps (\<lambda>s. client_frame s = i) (initial_query env message)" "keeps (\<lambda>s. client_frame s = i) (parse_plugins env routing message)"
  "keeps (\<lambda>s. client_frame s = i) (query_answered env ast message)" "keeps (\<lambda>s. client_frame s = i) sync_plugin"
  unfolding initial_query_def parse_plugins_def query_answered_def sync_plugin_def
  by (intro keeps_intro; simp add: frame_defs reset_buffered_state_def)+

lemma keeps_buffer_message [keeps_intro]: "keeps (\<lambda>s. client_frame s = i) (buffer_message env ops routing message)"
  unfolding buffer_message_def buffer_parse_def buffer_bind_def buffer_describe_def buffer_close_def route_bind_def
    store_statement_def unknown_statement_def Let_def
  by (intro keeps_intro; simp add: frame_defs split: prod.split)

lemma keeps_on_session [keeps_intro]:
  "keeps (\<lambda>s. client_frame s = i) m \<Longrightarrow> keeps (\<lambda>s. tx_frame s = i) (on_session m)"
  unfolding on_session_def by (rule keeps_part) (simp_all add: tx_frame_def)

lemma keeps_on_tx_server [keeps_intro]: "keeps (\<lambda>s. tx_frame s = i) (on_tx_server m)"
  unfolding on_tx_server_def by (rule keeps_zoom) (simp add: tx_frame_def)

lemma keeps_server_small [keeps_intro]:
  "keeps (\<lambda>s. tx_frame s = i) (tx_server_modify f)" "keeps (\<lambda>s. tx_frame s = i) (put_buffer data)"
  "keeps (\<lambda>s. tx_frame s = i) (put_response data)" "keeps (\<lambda>s. tx_frame s = i) clear_buffer"
  unfolding tx_server_modify_def put_buffer_def put_response_def clear_buffer_def
  by (intro keeps_intro; simp add: tx_frame_def)+

lemma keeps_tx_ban [keeps_intro]: "keeps (\<lambda>s. tx_frame s = i) (tx_ban env reason)"
proof -
  have "keeps (\<lambda>s. tx_frame s = i) (\<lambda>s.
      let sn = tx_session s; client = sn_client sn in
      case ban now (tx_address s) reason (Some (cl_stats client)) (store_stats (tx_server s) (sn_pool sn)) of
        (r, pool) \<Rightarrow>
          (rbind r (\<lambda>_. Ok ()),
           s\<lparr>tx_session := sn\<lparr>sn_pool := pool,
                sn_client := (case r of Ok (Some stats) \<Rightarrow> client\<lparr>cl_stats := stats\<rparr> | _ \<Rightarrow> client)\<rparr>,
             tx_server := load_stats pool (tx_server s)\<rparr>))" for now
    by (simp add: keeps_def Let_def frame_defs split: prod.split outcome.split option.split)
  then show ?thesis unfolding tx_ban_def by (intro keeps_intro)
qed

lemma keeps_receive [keeps_intro]: "keeps (\<lambda>s. tx_frame s = i) (receive_server_message env ops)"
proof -
  have "keeps (\<lambda>s. tx_frame s = i) (act_zoom tx_recv_state tx_put_recv m)" for m
    by (rule keeps_zoom) (simp add: frame_defs)
  then show ?thesis
    unfolding receive_server_message_def by (intro keeps_intro; simp add: frame_defs)
qed

lemma keeps_talking [keeps_intro]:
  "keeps (\<lambda>s. tx_frame s = i) (send_server_message env message)" "keeps (\<lambda>s. tx_frame s = i) (forward_to_client response)"
  "keeps (\<lambda>s. tx_frame s = i) (register_parse_to_server_cache env ops should_send hash parse)"
  "keeps (\<lambda>s. tx_frame s = i) (tx_checkin_cleanup env ops)"
  unfolding send_server_message_def forward_to_client_def register_parse_to_server_cache_def tx_checkin_cleanup_def
  by (intro keeps_intro; simp add: frame_defs)+

lemma keeps_reply_loop [keeps_intro]: "keeps (\<lambda>s. tx_frame s = i) (reply_loop env ops)"
proof -
  have step: "keeps (\<lambda>s. tx_frame s = i) (reply_step env ops)" for env ops
    unfolding reply_step_def by (intro keeps_intro)
  have "tx_frame (snd (reply_loop env ops s)) = i" if "tx_frame s = i" for s
    using that
  proof (induction env ops s rule: reply_loop.induct)
    case (1 env ops s)
    obtain r s1 where r: "reply_step env ops s = (r, s1)" by force
    with keepsD [OF step "1.prems"] have "tx_frame s1 = i" .
    with "1.IH" [OF r [symmetric]] r show ?case
      by (subst reply_loop.simps) (cases r; simp)
  qed
  then show ?thesis by (simp add: keeps_def)
qed

lemma keeps_send_and_receive [keeps_intro]: "keeps (\<lambda>s. tx_frame s = i) (send_and_receive_loop env ops message)"
  unfolding send_and_receive_loop_def by (intro keeps_intro)

lemma keeps_recover:
  assumes m: "keeps P m" and h: "keeps P h"
  shows "keeps P (\<lambda>s. case m s of (Err err, s) \<Rightarrow> if err = e then h s else (Err err, s) | r \<Rightarrow> r)"
  unfolding keeps_def
proof (intro allI impI)
  fix s assume "P s"
  moreover obtain r t where r: "m s = (r, t)" by force
  ultimately have "P t" using keepsD [OF m] by auto
  moreover from this h have "P (snd (h t))" by (simp add: keeps_def)
  ultimately show "P (snd (case m s of (Err err, s) \<Rightarrow> if err = e then h s else (Err err, s) | r \<Rightarrow> r))"
    using r by (cases r) simp_all
qed

lemma keeps_ensure [keeps_intro]: "keeps (\<lambda>s. tx_frame s = i) (ensure_prepared_statement_is_on_server env ops name)"
  unfolding ensure_prepared_statement_is_on_server_def by (intro keeps_intro keeps_recover; simp)

lemma keeps_replay [keeps_intro]: "keeps (\<lambda>s. tx_frame s = i) (replay env ops items)"
proof (induction items)
  case (Cons item items)
  have "keeps (\<lambda>s. tx_frame s = i) (replay_item env ops item)"
    unfolding replay_item_def replay_parse_def replay_named_def replay_close_def
    by (cases item; simp only: extended_protocol_data.case; intro keeps_intro; simp add: frame_defs)
  with Cons show ?case unfolding replay.simps by (intro keeps_intro; simp)
qed (simp add: keeps_intro)

lemma keeps_transaction_message [keeps_intro]: "keeps (\<lambda>s. tx_frame s = i) (transaction_message env ops ast message)"
  unfolding transaction_message_def tx_query_def tx_terminate_def tx_sync_def tx_copy_data_def tx_copy_done_def after_reply_def
    flush_responses_def sync_send_def send_buffer_def Let_def
  by (intro keeps_intro; simp)

lemma keeps_input: "(\<And>i. keeps (\<lambda>s. client_frame s = i) m) \<Longrightarrow> m s = (r, t) \<Longrightarrow> client_input t = client_input s"
  by (drule (1) keeps_all) (simp add: client_frame_def)

lemma keeps_tx_input: "(\<And>i. keeps (\<lambda>s. tx_frame s = i) m) \<Longrightarrow> m s = (r, t) \<Longrightarrow> tx_input t = tx_input s"
  by (drule (1) keeps_all) (simp add: tx_frame_def tx_input_def client_frame_def)

lemma client_read_Ok:
  assumes "client_read s = (Ok message, s')"
  shows "\<exists>tag body. message = frame tag body \<and> client_input s = message @ client_input s'"
  using assms by (auto simp: client_read_def to_client_def on_client_def act_zoom_iff read_message_Ok_iff client_input_def)

lemma client_read_shorter: "client_read s = (Ok message, s') \<Longrightarrow> length (client_input s') < length (client_input s)"
  by (auto dest!: client_read_Ok simp: frame_def)

lemma transaction_read_Ok:
  assumes "transaction_read env ops s = (Ok message, s')"
  shows "length (tx_input s') \<le> length (tx_input s) \<and> (message \<noteq> None \<longrightarrow> length (tx_input s') < length (tx_input s))"
proof -
  have e: "keeps (\<lambda>s. client_frame s = i) (to_client (error_response m))" for i m by (intro keeps_intro)
  from assms show ?thesis
    by (auto simp: transaction_read_def act_bind_Ok_iff on_session_Ok_iff tick_def drop_input_def client_modify_def
        tx_input_def client_input_def dest: keeps_input [OF e, unfolded client_input_def] client_read_shorter [unfolded client_input_def]
        split: option.splits if_splits)
qed

lemma transaction_round_shorter:
  assumes "transaction_round env ops s = (Ok c, s')"
  shows "length (tx_input s') \<le> length (tx_input s)" "c = Continue \<Longrightarrow> length (tx_input s') < length (tx_input s)"
proof -
  from assms obtain message s1 where 1: "transaction_read env ops s = (Ok message, s1)"
    and "(case message of None \<Rightarrow> act_return Break | Some m \<Rightarrow> transaction_message env ops None m) s1 = (Ok c, s')"
    unfolding transaction_round_def act_bind_Ok_iff by blast
  then have 2: "message = None \<and> c = Break \<and> s' = s1 \<or> (\<exists>m. message = Some m \<and> transaction_message env ops None m s1 = (Ok c, s'))"
    by (cases message) auto
  from 2 have "tx_input s' = tx_input s1" using keeps_tx_input [OF keeps_transaction_message] by metis
  with transaction_read_Ok [OF 1] 2 show "length (tx_input s') \<le> length (tx_input s)"
    "c = Continue \<Longrightarrow> length (tx_input s') < length (tx_input s)"
    by auto
qed

section \<open>The transaction loop\<close>

function transaction_loop ::
  "('d, 'c, 'p) session_env \<Rightarrow> ('c, 'p) caches \<Rightarrow> ('d, 'c, 'p) transaction \<Rightarrow> control result \<times> ('d, 'c, 'p) transaction" where
  "transaction_loop env ops s =
     (case transaction_round env ops s of
        (Ok c, s) \<Rightarrow> if c = Continue then transaction_loop env ops s else (Ok c, s)
      | (Err e, s) \<Rightarrow> (Err e, s)
      | (Panic, s) \<Rightarrow> (Panic, s))"
  by pat_completeness auto
termination
  by (relation "measure (\<lambda>(env, ops, s). length (tx_input s))") (auto dest: transaction_round_shorter(2) [OF sym])

declare transaction_loop.simps [simp del]

section \<open>A connection and its transaction\<close>

definition transaction ::
  "('d, 'c, 'p) session_env \<Rightarrow> ('c, 'p) caches \<Rightarrow> statement list option \<Rightarrow> bytes \<Rightarrow> (('d, 'c, 'p) transaction, control) act" where
  "transaction env ops initial_parsed_ast message =
     act_bind (transaction_message env ops initial_parsed_ast message) (\<lambda>c.
     if c = Continue then transaction_loop env ops else act_return c)"

definition claim_server :: "(('d, 'c, 'p) transaction, unit) act" where
  "claim_server = act_modify (\<lambda>s.
     let sn = tx_session s; c = sn_client sn; server = tx_server s in
     s\<lparr>tx_session := sn\<lparr>
         sn_map := server_claim (cl_process_id c) (cl_secret_key c) server (sn_map sn),
         sn_client := c\<lparr>cl_connected_to_server := True, cl_stats := client_active (cl_stats c),
           cl_last_address_id := Some (a_id (tx_address s)), cl_last_server_stats := Some (ss_server_id (sv_stats server))\<rparr>\<rparr>\<rparr>)"

definition tx_sync_parameters :: "('d, 'c, 'p) session_env \<Rightarrow> ('c, 'p) caches \<Rightarrow> (('d, 'c, 'p) transaction, unit) act" where
  "tx_sync_parameters env ops =
     act_bind (on_session tick) (\<lambda>t.
     act_bind (act_get (\<lambda>s. Ok (cl_server_parameters (sn_client (tx_session s))))) (\<lambda>parameters.
     on_tx_server (sync_parameters (server_ops ops) (xe_now env t) parameters)))"

definition give_back :: "('d, 'c, 'p) session_env \<Rightarrow> ('c, 'p) caches \<Rightarrow> (('d, 'c, 'p) transaction, unit) act" where
  "give_back env ops =
     act_bind (tx_checkin_cleanup env ops) (\<lambda>_.
     act_bind (tx_server_modify (server_stats_do server_idle)) (\<lambda>_.
     act_bind (on_session (client_modify (\<lambda>c. c\<lparr>cl_connected_to_server := False\<rparr>))) (\<lambda>_.
     act_bind (on_session release) (\<lambda>_.
     on_session (client_stats_do client_idle)))))"

definition use_connection ::
  "('d, 'c, 'p) session_env \<Rightarrow> ('c, 'p) caches \<Rightarrow> statement list option \<Rightarrow> bytes \<Rightarrow> (('d, 'c, 'p) transaction, control) act" where
  "use_connection env ops initial_parsed_ast message =
     act_bind claim_server (\<lambda>_.
     act_bind (tx_sync_parameters env ops) (\<lambda>_.
     act_bind (transaction env ops initial_parsed_ast message) (\<lambda>c.
     if c = Return then act_return Return
     else act_bind (give_back env ops) (\<lambda>_. act_return Continue))))"

text \<open>However the use of a connection ends, dropping it gives it back to its pool.\<close>

definition with_connection ::
  "(('d, 'c, 'p) transaction, 'a) act \<Rightarrow> 'c server \<times> address \<Rightarrow> (('d, 'c, 'p) session, 'a) act" where
  "with_connection m = (\<lambda>(server, address) s.
     case m \<lparr> tx_session = s, tx_server = server, tx_address = address \<rparr> of
       (r, t) \<Rightarrow>
         (r, (tx_session t)\<lparr>sn_returned := sn_returned (tx_session t) @ [tx_server t],
                           sn_pool := store_stats (tx_server t) (sn_pool (tx_session t))\<rparr>))"

section \<open>The session\<close>

definition checkout_view :: "('d, 'c, 'p) session \<Rightarrow> ('d, 'c, 'p) checkout" where
  "checkout_view s = \<lparr> ck_pool = sn_pool s, ck_client = cl_stats (sn_client s), ck_returned = sn_returned s \<rparr>"

definition checkout_put :: "('d, 'c, 'p) checkout \<Rightarrow> ('d, 'c, 'p) session \<Rightarrow> ('d, 'c, 'p) session" where
  "checkout_put k s =
     s\<lparr>sn_pool := ck_pool k, sn_client := (sn_client s)\<lparr>cl_stats := ck_client k\<rparr>, sn_returned := ck_returned k\<rparr>"

definition get_connection :: "('d, 'c, 'p) session_env \<Rightarrow> ('c, 'p) caches \<Rightarrow> (('d, 'c, 'p) session, 'c server \<times> address) act" where
  "get_connection env ops =
     act_bind tick (\<lambda>t.
     act_bind (act_get (\<lambda>s. Ok (router_shard (sn_router s), router_role (sn_router s)))) (\<lambda>(shard_no, role).
     act_zoom checkout_view checkout_put (pool_get (xe_pool env t) (server_ops ops) shard_no role)))"

text \<open>A failed checkout: the client is told; above the limit it is disconnected.\<close>

definition checkout_failed :: "('d, 'c, 'p) session_env \<Rightarrow> bytes \<Rightarrow> error \<Rightarrow> (('d, 'c, 'p) session, control) act" where
  "checkout_failed env message err =
     act_bind (client_stats_do client_idle) (\<lambda>_.
     act_bind (act_when (hd message = CHR ''S'') (client_modify reset_buffered_state)) (\<lambda>_.
     act_bind (to_client (error_response (''could not get connection from the pool - '' @ error_display (xe_debug env) err))) (\<lambda>_.
     act_bind (act_modify (\<lambda>s. s\<lparr>sn_failures := sn_failures s + 1\<rparr>)) (\<lambda>_.
     act_bind (act_get (\<lambda>s. Ok (sn_failures s, ps_checkout_failure_limit (cp_settings (sn_pool s))))) (\<lambda>(count, limit).
     case limit of
       None \<Rightarrow> act_return Continue
     | Some limit \<Rightarrow>
         if limit \<le> count then
           act_bind (to_client (error_response_terminal
             (''checkout failure limit reached ('' @ show_nat (unat count) @ '' / '' @ show_nat (unat limit) @ '')''))) (\<lambda>_.
           act_bind stats_disconnect (\<lambda>_. act_return Return))
         else act_return Continue)))))"

definition refresh_pool :: "('d, 'c, 'p) session_env \<Rightarrow> (('d, 'c, 'p) session, unit) act" where
  "refresh_pool env =
     act_bind publish_pool (\<lambda>_.
     act_bind (client_get_pool env) (\<lambda>pool.
     act_modify (\<lambda>s. s\<lparr>sn_pool := pool, sn_router := update_pool_settings (cp_settings pool) (sn_router s)\<rparr>)))"

text \<open>
  A message that needs a server.  While the pool is paused the client waits; what happens meanwhile is
  seen when it looks at the pools again.
\<close>

definition serve ::
  "('d, 'c, 'p) session_env \<Rightarrow> ('c, 'p) caches \<Rightarrow> statement list option \<Rightarrow> bytes \<Rightarrow> (('d, 'c, 'p) session, control) act" where
  "serve env ops initial_parsed_ast message =
     act_bind (refresh_pool env) (\<lambda>_.
     act_bind tick (\<lambda>t.
     act_bind (client_stats_do (client_waiting (xe_us env t))) (\<lambda>_ s.
     case get_connection env ops s of
       (Ok connection, s) \<Rightarrow> with_connection (use_connection env ops initial_parsed_ast message) connection s
     | (Err err, s) \<Rightarrow> checkout_failed env message err s
     | (Panic, s) \<Rightarrow> (Panic, s))))"

text \<open>An extended query that a plugin denied is answered at the first message that is not buffered.\<close>

definition denied :: "(('d, 'c, 'p) session, bool) act" where
  "denied =
     act_bind (act_get (\<lambda>s. Ok (sn_plugin s))) (\<lambda>output.
     case output of
       Some (Deny error) \<Rightarrow>
         act_bind (client_modify reset_buffered_state) (\<lambda>_.
         act_bind (to_client (error_response error)) (\<lambda>_.
         act_bind (act_modify (\<lambda>s. s\<lparr>sn_plugin := None\<rparr>)) (\<lambda>_.
         act_return True)))
     | _ \<Rightarrow> act_return False)"

definition serve_unless_denied ::
  "('d, 'c, 'p) session_env \<Rightarrow> ('c, 'p) caches \<Rightarrow> statement list option \<Rightarrow> bytes \<Rightarrow> (('d, 'c, 'p) session, control) act" where
  "serve_unless_denied env ops initial_parsed_ast message =
     act_bind denied (\<lambda>d. if d then act_return Continue else serve env ops initial_parsed_ast message)"

definition user_message :: "('d, 'c, 'p) session_env \<Rightarrow> ('c, 'p) caches \<Rightarrow> bytes \<Rightarrow> (('d, 'c, 'p) session, control) act" where
  "user_message env ops message =
     act_bind (handle_custom_protocol env message) (\<lambda>handled.
     if handled then act_return Continue
     else if hd message = CHR ''Q'' then
       act_bind (initial_query env message) (\<lambda>r.
       case r of
         None \<Rightarrow> act_return Continue
       | Some ast \<Rightarrow> serve_unless_denied env ops ast message)
     else
       act_bind (buffer_message env ops True message) (\<lambda>buffered.
       if buffered then act_return Continue else serve_unless_denied env ops None message))"

definition admin_view :: "('d, 'c, 'p) session \<Rightarrow> ('d, 'p) admin" where
  "admin_view s = \<lparr> adm_stream = cl_stream (sn_client s), adm_process = sn_process s \<rparr>"

definition admin_put :: "('d, 'p) admin \<Rightarrow> ('d, 'c, 'p) session \<Rightarrow> ('d, 'c, 'p) session" where
  "admin_put a s = s\<lparr>sn_client := (sn_client s)\<lparr>cl_stream := adm_stream a\<rparr>, sn_process := adm_process a\<rparr>"

definition admin_message :: "('d, 'c, 'p) session_env \<Rightarrow> ('c, 'p) caches \<Rightarrow> bytes \<Rightarrow> (('d, 'c, 'p) session, control) act" where
  "admin_message env ops message =
     act_bind tick (\<lambda>t.
     act_bind (act_modify (\<lambda>s. s\<lparr>sn_process := xe_world env t (sn_process s)\<rparr>)) (\<lambda>_.
     act_bind (act_zoom admin_view admin_put (handle_admin (xe_admin env t) (pool_ops ops) message)) (\<lambda>_.
     act_return Continue)))"

definition session_message :: "('d, 'c, 'p) session_env \<Rightarrow> ('c, 'p) caches \<Rightarrow> bytes \<Rightarrow> (('d, 'c, 'p) session, control) act" where
  "session_message env ops message =
     (if hd message = CHR ''X'' then act_bind stats_disconnect (\<lambda>_. act_return Return)
      else
        act_bind (act_get (\<lambda>s. Ok (cl_admin (sn_client s)))) (\<lambda>admin.
        if admin then admin_message env ops message else user_message env ops message))"

text \<open>
  Waiting for a message or for the end of the process.  Clients of the administration database read
  again; what the abandoned read had taken is lost.
\<close>

definition session_read :: "('d, 'c, 'p) session_env \<Rightarrow> (('d, 'c, 'p) session, bytes option) act" where
  "session_read env =
     act_bind tick (\<lambda>t.
     act_bind (act_get (\<lambda>s. Ok (cl_admin (sn_client s)))) (\<lambda>admin.
     case xe_shutdown env t of
       None \<Rightarrow> act_bind client_read (\<lambda>message. act_return (Some message))
     | Some n \<Rightarrow>
         act_bind (drop_input n) (\<lambda>_.
         if admin then act_bind client_read (\<lambda>message. act_return (Some message))
         else
           act_bind (to_client (error_response_terminal ''terminating connection due to administrator command'')) (\<lambda>_.
           act_bind stats_disconnect (\<lambda>_. act_return None)))))"

definition session_round :: "('d, 'c, 'p) session_env \<Rightarrow> ('c, 'p) caches \<Rightarrow> (('d, 'c, 'p) session, control) act" where
  "session_round env ops =
     act_bind (session_read env) (\<lambda>message.
     case message of
       None \<Rightarrow> act_return Return
     | Some message \<Rightarrow> session_message env ops message)"

subsection \<open>Every round takes a message\<close>

definition shrinks :: "('s \<Rightarrow> bytes) \<Rightarrow> ('s, 'a) act \<Rightarrow> bool" where
  "shrinks f m \<longleftrightarrow> (\<forall>s x t. m s = (Ok x, t) \<longrightarrow> length (f t) \<le> length (f s))"

lemma shrinksD: "shrinks f m \<Longrightarrow> m s = (Ok x, t) \<Longrightarrow> length (f t) \<le> length (f s)"
  by (simp add: shrinks_def)

lemma shrinks_keeps: "(\<And>i. keeps (\<lambda>s. client_frame s = i) m) \<Longrightarrow> shrinks client_input m"
  unfolding shrinks_def by (intro allI impI) (drule (1) keeps_input, simp)

lemma shrinks_keeps_tx: "(\<And>i. keeps (\<lambda>s. tx_frame s = i) m) \<Longrightarrow> shrinks tx_input m"
  unfolding shrinks_def by (intro allI impI) (drule (1) keeps_tx_input, simp)

lemma shrinks_bind: "shrinks f m \<Longrightarrow> (\<And>x. shrinks f (g x)) \<Longrightarrow> shrinks f (act_bind m g)"
  unfolding shrinks_def act_bind_Ok_iff by (meson order_trans)

lemma shrinks_if: "(b \<Longrightarrow> shrinks f m) \<Longrightarrow> (\<not> b \<Longrightarrow> shrinks f n) \<Longrightarrow> shrinks f (if b then m else n)"
  by simp

lemma shrinks_case_option:
  "shrinks f n \<Longrightarrow> (\<And>a. shrinks f (g a)) \<Longrightarrow> shrinks f (case z of None \<Rightarrow> n | Some a \<Rightarrow> g a)"
  by (cases z) simp_all

lemma shrinks_return: "shrinks f (act_return x)"
  by (simp add: shrinks_def)

lemmas shrinks_intro = shrinks_bind shrinks_if shrinks_case_option shrinks_return

lemma transaction_loop_le:
  "transaction_loop env ops s = (Ok c, s') \<Longrightarrow> length (tx_input s') \<le> length (tx_input s)"
proof (induction env ops s rule: transaction_loop.induct)
  case (1 env ops s)
  obtain r s1 where r: "transaction_round env ops s = (r, s1)" by force
  with "1.prems" obtain c1 where ok: "r = Ok c1"
    by (subst (asm) transaction_loop.simps) (cases r; simp)
  have le: "length (tx_input s1) \<le> length (tx_input s)" using transaction_round_shorter(1) r ok by blast
  show ?case
  proof (cases "c1 = Continue")
    case True
    with "1.prems" r ok have "transaction_loop env ops s1 = (Ok c, s')" by (subst (asm) transaction_loop.simps) simp
    from "1.IH" [OF r [symmetric] ok True this] le show ?thesis by simp
  next
    case False
    with "1.prems" r ok le show ?thesis by (subst (asm) transaction_loop.simps) simp
  qed
qed

lemma keeps_connection_small:
  "keeps (\<lambda>s. tx_frame s = i) claim_server" "keeps (\<lambda>s. tx_frame s = i) (tx_sync_parameters env ops)"
  "keeps (\<lambda>s. tx_frame s = i) (give_back env ops)"
  unfolding claim_server_def tx_sync_parameters_def give_back_def
  by (intro keeps_intro; simp add: frame_defs server_claim_def Let_def)+

lemma use_connection_shrinks: "shrinks tx_input (use_connection env ops ast message)"
  unfolding use_connection_def transaction_def
  by (intro shrinks_intro shrinks_keeps_tx [OF keeps_connection_small(1)] shrinks_keeps_tx [OF keeps_connection_small(2)]
      shrinks_keeps_tx [OF keeps_connection_small(3)] shrinks_keeps_tx [OF keeps_transaction_message])
     (auto simp: shrinks_def dest: transaction_loop_le)

lemma with_connection_shrinks: "shrinks client_input (with_connection (use_connection env ops ast message) connection)"
  unfolding shrinks_def
proof (intro allI impI)
  fix s c s'
  obtain server address where c: "connection = (server, address)" by force
  assume "with_connection (use_connection env ops ast message) connection s = (Ok c, s')"
  with c obtain t where "use_connection env ops ast message \<lparr> tx_session = s, tx_server = server, tx_address = address \<rparr> = (Ok c, t)"
    and "s' = (tx_session t)\<lparr>sn_returned := sn_returned (tx_session t) @ [tx_server t], sn_pool := store_stats (tx_server t) (sn_pool (tx_session t))\<rparr>"
    by (auto simp: with_connection_def split: prod.splits)
  with shrinksD [OF use_connection_shrinks [of env ops ast message]] show "length (client_input s') \<le> length (client_input s)"
    by (fastforce simp: tx_input_def client_input_def)
qed

lemma keeps_case_plugin [keeps_intro]:
  "(\<And>e. keeps P (f e)) \<Longrightarrow> keeps P m \<Longrightarrow> keeps P (case z of Some (Deny e) \<Rightarrow> f e | _ \<Rightarrow> m)"
  by (simp split: option.split plugin_output.split)

lemma keeps_serving [keeps_intro]:
  "keeps (\<lambda>s. client_frame s = i) (refresh_pool env)" "keeps (\<lambda>s. client_frame s = i) (checkout_failed env message err)"
  "keeps (\<lambda>s. client_frame s = i) denied"
  unfolding refresh_pool_def checkout_failed_def denied_def
  by (intro keeps_case_plugin keeps_intro; simp add: frame_defs reset_buffered_state_def)+

lemma keeps_get_connection [keeps_intro]: "keeps (\<lambda>s. client_frame s = i) (get_connection env ops)"
proof -
  have "keeps (\<lambda>s. client_frame s = i) (act_zoom checkout_view checkout_put m)" for m
    by (rule keeps_zoom) (simp add: frame_defs checkout_put_def)
  then show ?thesis unfolding get_connection_def by (intro keeps_intro)
qed

lemma serve_shrinks: "shrinks client_input (serve env ops ast message)"
proof -
  have "shrinks client_input (\<lambda>s. case get_connection env ops s of
       (Ok connection, s) \<Rightarrow> with_connection (use_connection env ops ast message) connection s
     | (Err err, s) \<Rightarrow> checkout_failed env message err s
     | (Panic, s) \<Rightarrow> (Panic, s))" (is "shrinks _ ?m")
    unfolding shrinks_def
  proof (intro allI impI)
    fix s c s' assume m: "?m s = (Ok c, s')"
    obtain r s2 where g: "get_connection env ops s = (r, s2)" by force
    have "length (client_input s') \<le> length (client_input s2)"
    proof (cases r)
      case (Ok connection)
      with m g shrinksD [OF with_connection_shrinks] show ?thesis by simp
    next
      case (Err e)
      with m g keeps_input [OF keeps_serving(2)] show ?thesis by fastforce
    qed (use m g in simp)
    then show "length (client_input s') \<le> length (client_input s)" using keeps_input [OF keeps_get_connection g] by simp
  qed
  then show ?thesis
    unfolding serve_def by (intro shrinks_bind shrinks_keeps [OF keeps_serving(1)] shrinks_keeps [OF keeps_session_small(1)]
        shrinks_keeps [OF keeps_session_small(2)])
qed

lemma keeps_on_adm_stream [keeps_intro]:
  "keeps (\<lambda>t. rd_input t = i) m \<Longrightarrow> keeps (\<lambda>s. rd_input (adm_stream s) = i) (on_adm_stream m)"
  unfolding on_adm_stream_def by (rule keeps_part) simp_all

lemma keeps_on_process [keeps_intro]: "keeps (\<lambda>s. rd_input (adm_stream s) = i) (on_process m)"
  unfolding on_process_def by (rule keeps_zoom) simp

lemma keeps_admin_parts [keeps_intro]:
  "keeps (\<lambda>s. rd_input (adm_stream s) = i) (admin_say f)" "keeps (\<lambda>s. rd_input (adm_stream s) = i) (admin_error e)"
  "keeps (\<lambda>s. rd_input (adm_stream s) = i) (on_pools m)"
  unfolding admin_say_def admin_error_def on_pools_def by (intro keeps_intro)+

lemma keeps_handle_admin: "keeps (\<lambda>s. rd_input (adm_stream s) = i) (handle_admin env ops message)"
  unfolding handle_admin_def admin_command_def admin_show_def admin_ban_def admin_unban_def admin_reload_def admin_pause_def
    admin_resume_def for_pools_def admin_shutdown_def Let_def
  by (intro keeps_intro)

lemma session_message_shrinks: "shrinks client_input (session_message env ops message)"
proof -
  have admin: "keeps (\<lambda>s. client_frame s = i) (act_zoom admin_view admin_put (handle_admin aenv aops message))" for i aenv aops
    by (rule keeps_part [OF keeps_handle_admin [where i = "fst i"]]) (auto simp: frame_defs admin_view_def admin_put_def)
  have "keeps (\<lambda>s. client_frame s = i) (admin_message env ops message)" for i
    unfolding admin_message_def by (intro keeps_intro admin; simp add: frame_defs)
  moreover have "shrinks client_input (user_message env ops message)"
    unfolding user_message_def serve_unless_denied_def
    by (intro shrinks_intro serve_shrinks shrinks_keeps [OF keeps_serving(3)] shrinks_keeps [OF keeps_custom]
        shrinks_keeps [OF keeps_queries(1)] shrinks_keeps [OF keeps_buffer_message])
  ultimately show ?thesis
    unfolding session_message_def
    by (intro shrinks_intro shrinks_keeps [OF keeps_return(3)] shrinks_keeps [OF keeps_session_small(3)]) (auto intro: shrinks_keeps)
qed

lemma session_read_shorter:
  assumes "session_read env s = (Ok message, s')" "message \<noteq> None"
  shows "length (client_input s') < length (client_input s)"
  using assms
  by (fastforce simp: session_read_def act_bind_Ok_iff tick_def drop_input_def client_modify_def client_input_def
      dest: client_read_shorter [unfolded client_input_def] split: option.splits if_splits)

lemma session_round_shorter:
  assumes "session_round env ops s = (Ok Continue, s')"
  shows "length (client_input s') < length (client_input s)"
proof -
  from assms obtain message s1 where 1: "session_read env s = (Ok message, s1)"
    and 2: "(case message of None \<Rightarrow> act_return Return | Some m \<Rightarrow> session_message env ops m) s1 = (Ok Continue, s')"
    unfolding session_round_def act_bind_Ok_iff by blast
  from 2 obtain m where "message = Some m" "session_message env ops m s1 = (Ok Continue, s')" by (cases message) auto
  with session_read_shorter [OF 1] shrinksD [OF session_message_shrinks] show ?thesis by fastforce
qed

function session_loop ::
  "('d, 'c, 'p) session_env \<Rightarrow> ('c, 'p) caches \<Rightarrow> ('d, 'c, 'p) session \<Rightarrow> unit result \<times> ('d, 'c, 'p) session" where
  "session_loop env ops s =
     (case session_round env ops s of
        (Ok c, s) \<Rightarrow> if c = Continue then session_loop env ops s else (Ok (), s)
      | (Err e, s) \<Rightarrow> (Err e, s)
      | (Panic, s) \<Rightarrow> (Panic, s))"
  by pat_completeness auto
termination
  by (relation "measure (\<lambda>(env, ops, s). length (client_input s))") (auto dest: session_round_shorter [OF sym])

declare session_loop.simps [simp del]

definition connection_pool_default :: "('d, 'p) connection_pool" where
  "connection_pool_default =
     \<lparr> cp_databases = [], cp_addresses = [], cp_banlist = [], cp_address_stats = (\<lambda>_. address_stats_default),
       cp_error_count = (\<lambda>_. 0), cp_original_server_parameters = server_parameters_new, cp_settings = pool_settings_default,
       cp_validated = False, cp_config_hash = 0, cp_paused = False, cp_auth_hash = None, cp_prepared_statement_cache = None \<rparr>"

text \<open>A client that wants to cancel the query of another one: the request goes to the server the other one has claimed.\<close>

definition handle_cancel :: "('d, 'c, 'p) session_env \<Rightarrow> (('d, 'c, 'p) session, unit) act" where
  "handle_cancel env s =
     (case sn_map s (cl_process_id (sn_client s), cl_secret_key (sn_client s)) of
        None \<Rightarrow> (Ok (), s)
      | Some (process_id, secret_key, address, port) \<Rightarrow>
          (case server_cancel (xe_startup env) address port process_id secret_key of
             (r, t) \<Rightarrow> (r, s\<lparr>sn_cancel := t\<rparr>)))"

definition register_client :: "(('d, 'c, 'p) session, unit) act" where
  "register_client = act_modify (\<lambda>s.
     case client_register (cl_stats (sn_client s)) (sn_clients s) of
       (stats, clients) \<Rightarrow> s\<lparr>sn_client := (sn_client s)\<lparr>cl_stats := stats\<rparr>, sn_clients := clients\<rparr>)"

definition handle :: "('d, 'c, 'p) session_env \<Rightarrow> ('c, 'p) caches \<Rightarrow> (('d, 'c, 'p) session, unit) act" where
  "handle env ops =
     act_bind (act_get (\<lambda>s. Ok (sn_client s))) (\<lambda>c.
     if cl_cancel_mode c then handle_cancel env
     else
       act_bind register_client (\<lambda>_.
       act_bind (act_get application_name) (\<lambda>_.
       act_bind (if cl_admin c then act_return connection_pool_default else client_get_pool env) (\<lambda>pool.
       act_bind (act_modify (\<lambda>s. s\<lparr>sn_pool := pool, sn_failures := 0, sn_plugin := None,
           sn_router := set_default_role (update_pool_settings (cp_settings pool) query_router_new)\<rparr>)) (\<lambda>_.
       session_loop env ops)))))"

text \<open>\<open>Drop for Client\<close>: a connection the client still holds is shown as idle.\<close>

definition client_drop :: "('d, 'c, 'p) session \<Rightarrow> ('d, 'c, 'p) session" where
  "client_drop s =
     (let c = sn_client s;
          s = s\<lparr>sn_map := (sn_map s)((cl_process_id c, cl_secret_key c) := None)\<rparr>
      in if cl_connected_to_server c \<and> cl_last_server_stats c \<noteq> None
         then s\<lparr>sn_returned := map (\<lambda>server. if Some (ss_server_id (sv_stats server)) = cl_last_server_stats c
                                             then server_stats_do server_idle server else server) (sn_returned s)\<rparr>
         else s)"

section \<open>The entry point\<close>

text \<open>What the tasks of the clients share, the socket of the new client, and the messages to the counter of clients.\<close>

record ('d, 'c, 'p) entry =
  en_stream :: stream
  en_process :: "('d, 'p) process"
  en_map :: client_server_map
  en_clients :: client_states_lookup
  en_caches :: route_caches
  en_counter :: usize
  en_drain :: "int list"
  en_returned :: "'c server list"
  en_cancel :: "stream option"

definition on_en_stream :: "(stream, 'a) act \<Rightarrow> (('d, 'c, 'p) entry, 'a) act" where
  "on_en_stream = act_zoom en_stream (\<lambda>t s. s\<lparr>en_stream := t\<rparr>)"

definition on_login :: "(('d, 'p) login, 'a) act \<Rightarrow> (('d, 'c, 'p) entry, 'a) act" where
  "on_login = act_zoom (\<lambda>s. \<lparr> lg_stream = en_stream s, lg_pools = pr_pools (en_process s) \<rparr>)
     (\<lambda>l s. s\<lparr>en_stream := lg_stream l, en_process := (en_process s)\<lparr>pr_pools := lg_pools l\<rparr>\<rparr>)"

definition session_of :: "client \<Rightarrow> ('d, 'c, 'p) entry \<Rightarrow> ('d, 'c, 'p) session" where
  "session_of client s =
     \<lparr> sn_client = client, sn_process = en_process s, sn_map = en_map s, sn_clients = en_clients s, sn_caches = en_caches s,
       sn_counter = en_counter s,
       sn_pool = (case get_pool (cl_pool_name client) (cl_username client) (pr_pools (en_process s)) of Some pool \<Rightarrow> pool | None \<Rightarrow> connection_pool_default),
       sn_router = query_router_new, sn_failures = 0, sn_plugin = None,
       sn_tick = 0, sn_returned = en_returned s, sn_cancel = None \<rparr>"

text \<open>The pool of a user is shared with the map of pools; clients of the administration database and cancel requests have none.\<close>

definition share_pool :: "('d, 'c, 'p) session \<Rightarrow> ('d, 'c, 'p) session" where
  "share_pool s = (if cl_admin (sn_client s) \<or> cl_cancel_mode (sn_client s) then s else snd (publish_pool s))"

definition session_end :: "('d, 'c, 'p) session \<Rightarrow> int list \<Rightarrow> ('d, 'c, 'p) entry" where
  "session_end s drain =
     \<lparr> en_stream = cl_stream (sn_client s), en_process = sn_process s, en_map = sn_map s, en_clients = sn_clients s, en_caches = sn_caches s,
       en_counter = sn_counter s, en_drain = drain, en_returned = sn_returned s, en_cancel = sn_cancel s \<rparr>"

text \<open>A client is counted while it is served; after an error its statistics are removed.  A panic skips what follows it but not the destructor.\<close>

definition run_client :: "('d, 'c, 'p) session_env \<Rightarrow> ('c, 'p) caches \<Rightarrow> client \<Rightarrow> (('d, 'c, 'p) entry, unit) act" where
  "run_client env ops client s =
     (case handle env ops (session_of client s) of
        (r, sn) \<Rightarrow>
          let before = (if is_admin client then [] else [1]); after = (if is_admin client then [] else [- 1])
          in (r, case r of
                   Ok _ \<Rightarrow> session_end (client_drop (share_pool sn)) (en_drain s @ before @ after)
                 | Err _ \<Rightarrow> session_end (client_drop (share_pool (snd (stats_disconnect sn)))) (en_drain s @ before @ after)
                 | Panic \<Rightarrow> session_end (client_drop (share_pool sn)) (en_drain s @ before)))"

definition client_entrypoint ::
  "('d, 'c, 'p) session_env \<Rightarrow> ('c, 'p) caches \<Rightarrow> login_env \<Rightarrow> (stream \<Rightarrow> (string, stream) outcome) result option \<Rightarrow> bool \<Rightarrow>
   (('d, 'c, 'p) entry, unit) act" where
  "client_entrypoint env ops login tls admin_only =
     act_bind (act_get (\<lambda>s. Ok (pr_config (en_process s)))) (\<lambda>config.
     let plain = (\<lambda>bytes. act_bind (on_login (client_startup login config bytes admin_only)) (run_client env ops)) in
     act_bind (on_en_stream get_startup) (\<lambda>(kind, bytes).
     case kind of
       TlsConnection \<Rightarrow>
         (case tls of
            Some accept \<Rightarrow>
              act_bind (on_en_stream (write_all (put_u8 CHR ''S''))) (\<lambda>_.
              act_bind (on_login (startup_tls login config accept admin_only)) (run_client env ops))
          | None \<Rightarrow>
              act_bind (on_en_stream (write_all (put_u8 CHR ''N''))) (\<lambda>_.
              act_bind (on_en_stream get_startup) (\<lambda>(kind, bytes).
              case kind of
                StartupConnection \<Rightarrow> plain bytes
              | _ \<Rightarrow> act_lift (Err (ProtocolSyncError ''Bad postgres client (plain)'')))))
     | StartupConnection \<Rightarrow> plain bytes
     | CancelQueryConnection \<Rightarrow> act_bind (on_en_stream (client_cancel bytes)) (run_client env ops)))"
end
