(* ===== verification/Admin_Laws.thy ===== *)
theory Admin_Laws
  imports Admin
begin

text \<open>
  Properties of the administration database: the shape of its answers, what \<open>PAUSE\<close> and \<open>BAN\<close> do to the pools, and
  what a reload leaves behind.
\<close>

section \<open>Replies\<close>

text \<open>Messages up to the only ReadyForQuery, which says that no transaction is open.\<close>

definition messages_of :: "(byte \<times> bytes) list \<Rightarrow> bytes" where
  "messages_of ms = concat (map (\<lambda>(tag, body). frame tag body) ms)"

definition complete_reply :: "bytes \<Rightarrow> bool" where
  "complete_reply bs \<longleftrightarrow> (\<exists>ms. bs = messages_of ms @ frame CHR ''Z'' ''I'' \<and> CHR ''Z'' \<notin> fst ` set ms)"

lemma complete_reply_ready: "complete_reply (frame CHR ''Z'' ''I'')"
  unfolding complete_reply_def by (rule exI [where x = "[]"]) (simp add: messages_of_def)

lemma complete_reply_frame: "complete_reply bs \<Longrightarrow> tag \<noteq> CHR ''Z'' \<Longrightarrow> complete_reply (frame tag body @ bs)"
proof -
  assume "complete_reply bs" "tag \<noteq> CHR ''Z''"
  then obtain ms where "bs = messages_of ms @ frame CHR ''Z'' ''I''" "CHR ''Z'' \<notin> fst ` set ms" by (auto simp: complete_reply_def)
  with \<open>tag \<noteq> CHR ''Z''\<close> show ?thesis
    unfolding complete_reply_def by (intro exI [where x = "(tag, body) # ms"]) (auto simp: messages_of_def)
qed

lemma message_frames:
  "admin_ready = frame CHR ''Z'' ''I''" "\<exists>body. row_description columns = frame CHR ''T'' body" "\<exists>body. data_row row = frame CHR ''D'' body"
  "\<exists>body. command_complete tag = frame CHR ''C'' body" "\<exists>body. notify message details = frame CHR ''N'' body"
  by (auto simp: admin_ready_def row_description_def data_row_def command_complete_def notify_def frame_def Let_def put_u8_def)

lemma complete_reply_command: "complete_reply (command_complete tag @ admin_ready)"
proof -
  obtain body where "command_complete tag = frame CHR ''C'' body" using message_frames(4) by blast
  then show ?thesis by (simp add: message_frames(1) complete_reply_frame [OF complete_reply_ready])
qed

lemma complete_reply_rows: "complete_reply bs \<Longrightarrow> complete_reply (concat (map data_row rows) @ bs)"
proof (induction rows)
  case (Cons row rows)
  obtain body where "data_row row = frame CHR ''D'' body" using message_frames(3) by blast
  with Cons show ?case by (simp add: complete_reply_frame)
qed simp

lemma complete_reply_table: "complete_reply (admin_table columns rows tag)"
proof -
  obtain body where "row_description columns = frame CHR ''T'' body" using message_frames(2) by blast
  then show ?thesis by (simp add: admin_table_def complete_reply_frame complete_reply_rows complete_reply_command)
qed

lemma complete_reply_help: "complete_reply show_help"
proof -
  obtain body where "show_help = frame CHR ''N'' body @ command_complete ''SHOW'' @ admin_ready"
    unfolding show_help_def using message_frames(5) by blast
  moreover have "complete_reply (frame CHR ''N'' body @ command_complete ''SHOW'' @ admin_ready)"
    by (rule complete_reply_frame [OF complete_reply_command]) simp
  ultimately show ?thesis by metis
qed

text \<open>An action that writes a complete reply when it succeeds and nothing when it fails.\<close>

definition replies :: "(('d, 'p) admin, 'a) act \<Rightarrow> bool" where
  "replies m \<longleftrightarrow> (\<forall>s. wr_budget (adm_stream s) = None \<longrightarrow>
     (case m s of
        (Ok _, s') \<Rightarrow> \<exists>bs. complete_reply bs \<and> wr_output (adm_stream s') = wr_output (adm_stream s) @ bs
      | (Err e, s') \<Rightarrow> adm_stream s' = adm_stream s
      | (Panic, s') \<Rightarrow> True))"

definition silent :: "(('d, 'p) admin, 'a) act \<Rightarrow> bool" where
  "silent m \<longleftrightarrow> (\<forall>s. adm_stream (snd (m s)) = adm_stream s)"

lemma silent_process [simp]: "silent (on_process m)" "silent (on_pools n)" "silent (act_get f)" "silent (act_lift r)"
  by (auto simp: silent_def on_process_def on_pools_def act_zoom_def act_get_def act_lift_def split: prod.split)

lemma silent_when [simp]: "silent (act_when b (on_process m))"
  by (cases b) (auto simp: act_when_def silent_def act_return_def on_process_def act_zoom_def split: prod.split)

lemma replies_bind:
  fixes m :: "(('d, 'p) admin, 'a) act"
  assumes m: "silent m" "\<And>x. replies (f x)"
  shows "replies (act_bind m f)"
proof (unfold replies_def, intro allI impI)
  fix s :: "('d, 'p) admin" assume m3: "wr_budget (adm_stream s) = None"
  obtain r t where r: "m s = (r, t)" by (cases "m s")
  with m(1) have t: "adm_stream t = adm_stream s" unfolding silent_def by (metis snd_conv)
  show "case act_bind m f s of (Ok _, s') \<Rightarrow> \<exists>bs. complete_reply bs \<and> wr_output (adm_stream s') = wr_output (adm_stream s) @ bs
      | (Err e, s') \<Rightarrow> adm_stream s' = adm_stream s | (Panic, s') \<Rightarrow> True"
  proof (cases r)
    case (Ok x)
    with m(2) [of x, unfolded replies_def, rule_format, of t] m3 t r show ?thesis
      by (cases "f x t"; cases "fst (f x t)") (simp_all add: act_bind_def)
  qed (use r t in \<open>simp_all add: act_bind_def\<close>)
qed

lemma replies_say: "(\<And>p bs. answer p = Ok bs \<Longrightarrow> complete_reply bs) \<Longrightarrow> replies (admin_say answer)"
  by (auto simp: replies_def admin_say_def act_bind_def act_get_def on_adm_stream_def act_zoom_def split: outcome.splits)

lemma replies_error: "replies (admin_error message)"
proof -
  have "ready_for_query False = frame CHR ''Z'' ''I''" by (simp add: ready_for_query_def frame_def put_u8_def)
  then show ?thesis
    by (simp add: replies_def admin_error_def on_adm_stream_def act_zoom_def error_response_def error_response_terminal_frame act_bind_def
        send_ready_for_query_def complete_reply_frame [OF complete_reply_ready])
qed

lemma replies_set: "replies (on_adm_stream (custom_protocol_response_ok message))"
proof -
  have "ready_for_query False = frame CHR ''Z'' ''I''" by (simp add: ready_for_query_def frame_def put_u8_def)
  moreover have "custom_protocol_response_ok message = act_bind (write_all_half (frame CHR ''C'' (message @ [CHR 0x00]))) (\<lambda>_. send_ready_for_query)"
    by (simp add: custom_protocol_response_ok_def frame_def put_u8_def algebra_simps)
  ultimately show ?thesis
    by (simp add: replies_def on_adm_stream_def act_zoom_def act_bind_def send_ready_for_query_def complete_reply_frame [OF complete_reply_ready])
qed

lemmas show_defs = show_lists_def show_version_def show_pools_def show_databases_def show_config_def show_stats_def show_clients_def
  show_servers_def show_users_def show_bans_def

lemma replies_show: "replies (admin_show env parts)"
  unfolding admin_show_def Let_def
  by (auto intro!: replies_say replies_error complete_reply_help complete_reply_table simp: show_defs rbind_Ok_iff Let_def)

lemma replies_pools: "replies (for_pools env name f tokens)"
  unfolding for_pools_def Let_def
  by (auto intro!: replies_bind replies_say replies_error complete_reply_command split: option.split)

text \<open>
  C32: every command of the administration database is answered completely.  Whatever the query, if the command
  succeeds then what was written is a sequence of whole messages with exactly one ReadyForQuery, at
  its end; if it fails, nothing was written.
\<close>

theorem handle_admin_replies:
  assumes "wr_budget (adm_stream s) = None"
  shows "case handle_admin env ops query s of
     (Ok _, s') \<Rightarrow> \<exists>ms. wr_output (adm_stream s') = wr_output (adm_stream s) @ messages_of ms @ frame CHR ''Z'' ''I'' \<and> CHR ''Z'' \<notin> fst ` set ms
   | (Err e, s') \<Rightarrow> adm_stream s' = adm_stream s
   | (Panic, s') \<Rightarrow> True"
proof -
  have "replies (admin_command env ops parts)" for parts
    unfolding admin_command_def admin_ban_def admin_unban_def admin_reload_def admin_pause_def admin_resume_def admin_shutdown_def Let_def
    by (auto intro!: replies_bind replies_say replies_error replies_set replies_show replies_pools complete_reply_table complete_reply_command
        split: option.split)
  then have "replies (handle_admin env ops query)" unfolding handle_admin_def by (intro replies_bind) auto
  then show ?thesis using assms unfolding replies_def complete_reply_def by (fastforce split: prod.splits outcome.splits)
qed

section \<open>Queries\<close>

text \<open>A word of visible ASCII characters, without the separators.\<close>

definition plain_word :: "string \<Rightarrow> bool" where
  "plain_word w \<longleftrightarrow> w \<noteq> [] \<and> (\<forall>c \<in> set w. 32 < (of_char c :: nat) \<and> (of_char c :: nat) < 127 \<and> c \<noteq> CHR '';'' \<and> c \<noteq> CHR '','')"

lemma whitespace_width_visible:
  assumes "32 < (of_char c :: nat)" "(of_char c :: nat) < 127"
  shows "whitespace_width (c # s) = 0"
proof -
  have "c \<noteq> d" if "(of_char d :: nat) \<le> 32 \<or> 127 \<le> (of_char d :: nat)" for d using assms that by auto
  from this [of "CHR 0x09"] this [of "CHR 0x0A"] this [of "CHR 0x0B"] this [of "CHR 0x0C"] this [of "CHR 0x0D"] this [of "CHR 0x20"]
    this [of "CHR 0xC2"] this [of "CHR 0xE1"] this [of "CHR 0xE2"] this [of "CHR 0xE3"]
  show ?thesis by (simp add: whitespace_width_def)
qed

lemma split_words_visible:
  "\<forall>c \<in> set w. 32 < (of_char c :: nat) \<and> (of_char c :: nat) < 127 \<Longrightarrow> split_words acc (w @ s) = split_words (rev w @ acc) s"
  by (induction w arbitrary: acc) (auto simp: whitespace_width_visible Let_def)

lemma split_words_space: "split_words acc (CHR '' '' # s) = (if acc = [] then [] else [rev acc]) @ split_words [] s"
  by (simp add: whitespace_width_def Let_def)

lemma trim_end_visible:
  "\<forall>c \<in> set w. 32 < (of_char c :: nat) \<and> (of_char c :: nat) < 127 \<Longrightarrow> trim_end w = w"
  by (induction w) (auto simp: whitespace_width_visible Let_def)

lemma str_trim_plain: "plain_word w \<Longrightarrow> str_trim w = w"
proof -
  assume w: "plain_word w"
  then have "trim_start w = w" by (cases w) (auto simp: plain_word_def whitespace_width_visible Let_def)
  with w show ?thesis by (simp add: str_trim_def trim_end_visible plain_word_def)
qed

lemma plain_wordD:
  assumes "plain_word w"
  shows "\<forall>c \<in> set w. 32 < (of_char c :: nat) \<and> (of_char c :: nat) < 127" "CHR '','' \<notin> set w" "w \<noteq> []" "ascii w"
proof -
  show v: "\<forall>c \<in> set w. 32 < (of_char c :: nat) \<and> (of_char c :: nat) < 127" "CHR '','' \<notin> set w" "w \<noteq> []"
    using assms unfolding plain_word_def by blast+
  show "ascii w" unfolding ascii_def
  proof
    fix c assume "c \<in> set w"
    with v(1) have "(of_char c :: nat) < 127" by blast
    then show "(of_char c :: nat) < 128" by simp
  qed
qed

lemma drop_semicolons: "plain_word w \<Longrightarrow> rev (dropWhile (\<lambda>c. c = CHR '';'') (rev (s @ w))) = s @ w"
proof -
  assume "plain_word w"
  then obtain v c where "w = v @ [c]" "c \<noteq> CHR '';''" by (cases w rule: rev_cases) (simp_all add: plain_word_def)
  then show ?thesis by simp
qed

lemma admin_query_text:
  assumes "ascii text" "length text + 5 < 2147483648"
  shows "admin_query (frame CHR ''Q'' (text @ [CHR 0x00])) = Ok text"
proof -
  let ?len = "of_nat (length text + 1) + 4 :: i32"
  have w: "unat (scast ?len :: usize) = length text + 5" using frame_len(2) [of "length text + 1"] assms(2) by simp
  then have "(5 :: usize) \<le> scast ?len" by (simp add: word_le_nat_alt)
  then have n: "unat (scast ?len - 5 :: usize) = length text" using w by (simp add: unat_sub)
  have "admin_query (frame CHR ''Q'' (text @ [CHR 0x00]))
      = (if length (text @ [CHR 0x00]) < unat (scast ?len - 5 :: usize) then Panic else Ok (from_utf8_lossy (take (unat (scast ?len - 5 :: usize)) (text @ [CHR 0x00]))))"
    by (simp add: admin_query_def frame_def Let_def)
  then show ?thesis using assms(1) unfolding n by (simp add: from_utf8_lossy_ascii)
qed

lemma on_pool_of_change: "on_pool_of i (change_pool f) pools = (Ok [], pools(i := map_option f (pools i)))"
  by (auto simp: on_pool_of_def change_pool_def split: option.split)

lemma over_pools_total:
  assumes "distinct ids" "\<And>i p. i \<in> set ids \<Longrightarrow> pools i = Some p \<Longrightarrow> fst (f i p) = Ok (rows i p)"
  shows "over_pools f ids pools
    = (Ok (concat (map (\<lambda>i. case pools i of None \<Rightarrow> [] | Some p \<Rightarrow> rows i p) ids)),
       \<lambda>i. if i \<in> set ids then map_option (\<lambda>p. snd (f i p)) (pools i) else pools i)"
  using assms
proof (induction ids arbitrary: pools)
  case (Cons i ids)
  let ?pools = "pools(i := map_option (\<lambda>p. snd (f i p)) (pools i))"
  have one: "on_pool_of i (f i) pools = (Ok (case pools i of None \<Rightarrow> [] | Some p \<Rightarrow> rows i p), ?pools)"
    using Cons.prems(2) [of i] by (cases "pools i") (auto simp: on_pool_of_def split: prod.split)
  have cong: "map (\<lambda>i. case ?pools i of None \<Rightarrow> [] | Some p \<Rightarrow> rows i p) ids = map (\<lambda>i. case pools i of None \<Rightarrow> [] | Some p \<Rightarrow> rows i p) ids"
    using Cons.prems(1) by (intro map_cong refl) auto
  have "over_pools f ids ?pools
      = (Ok (concat (map (\<lambda>i. case ?pools i of None \<Rightarrow> [] | Some p \<Rightarrow> rows i p) ids)),
         \<lambda>k. if k \<in> set ids then map_option (\<lambda>p. snd (f k p)) (?pools k) else ?pools k)"
    using Cons.prems by (intro Cons.IH) (auto split: if_splits)
  then show ?case using one Cons.prems(1) unfolding cong by (simp add: act_bind_def act_return_def fun_eq_iff)
qed (simp add: act_return_def)

lemma over_pools_change:
  assumes "distinct ids"
  shows "over_pools (\<lambda>_. change_pool f) ids pools = (Ok [], \<lambda>i. if i \<in> set ids then map_option f (pools i) else pools i)"
proof -
  have "concat (map (\<lambda>i. case pools i of None \<Rightarrow> [] | Some p \<Rightarrow> []) ids) = ([] :: unit list)" by (auto split: option.split)
  with over_pools_total [OF assms, of pools "\<lambda>_. change_pool f" "\<lambda>_ _. []"] show ?thesis by (simp add: change_pool_def cong: if_cong)
qed

lemma pools_after_say [simp]: "pr_pools (adm_process (snd (admin_say answer s))) = pr_pools (adm_process s)"
  by (auto simp: admin_say_def act_bind_def act_get_def on_adm_stream_def act_zoom_def split: outcome.splits prod.splits)

lemma pools_after_change:
  assumes "m (pr_pools (adm_process s)) = (Ok x, pools)"
  shows "pr_pools (adm_process (snd (act_bind (on_pools m) (\<lambda>_. admin_say answer) s))) = pools"
proof -
  have "on_pools m s = (Ok x, s\<lparr>adm_process := (adm_process s)\<lparr>pr_pools := pools\<rparr>\<rparr>)"
    using assms by (simp add: on_pools_def on_process_def act_zoom_def)
  then show ?thesis by simp
qed

lemma query_parts_two:
  "plain_word w \<Longrightarrow> \<forall>c \<in> set v. 32 < (of_char c :: nat) \<and> (of_char c :: nat) < 127 \<Longrightarrow> query_parts (''PAUSE '' @ v @ w) = [''PAUSE'', v @ w]"
proof -
  assume a: "plain_word w" "\<forall>c \<in> set v. 32 < (of_char c :: nat) \<and> (of_char c :: nat) < 127"
  have "query_parts (''PAUSE '' @ v @ w) = split_words [] (''PAUSE'' @ CHR '' '' # (v @ w))"
    using drop_semicolons [OF a(1), of "''PAUSE '' @ v"] by (simp add: query_parts_def)
  also have "\<dots> = [''PAUSE''] @ split_words [] ((v @ w) @ [])"
    by (subst split_words_visible) (simp_all add: split_words_space del: split_words.simps)
  also have "split_words [] ((v @ w) @ []) = [v @ w]"
    using a plain_wordD [OF a(1)] by (subst split_words_visible) auto
  finally show ?thesis by simp
qed

lemma query_parts_one: "plain_word w \<Longrightarrow> query_parts w = [w]"
  using drop_semicolons [of w "[]"] split_words_visible [of w "[]" "[]"] plain_wordD [of w] by (auto simp: query_parts_def)

lemma query_parts_three:
  assumes "plain_word w" and v: "v \<noteq> []" "\<forall>c \<in> set v. 32 < (of_char c :: nat) \<and> (of_char c :: nat) < 127" and u: "plain_word u"
  shows "query_parts (u @ '' '' @ v @ '' '' @ w) = [u, v, w]"
proof -
  have "query_parts (u @ '' '' @ v @ '' '' @ w) = split_words [] (u @ CHR '' '' # (v @ CHR '' '' # w))"
    using drop_semicolons [OF assms(1), of "u @ '' '' @ v @ '' ''"] by (simp add: query_parts_def)
  also have "\<dots> = [u] @ split_words [] (v @ CHR '' '' # w)"
    using plain_wordD [OF u] by (subst split_words_visible) (auto simp: split_words_space simp del: split_words.simps)
  also have "split_words [] (v @ CHR '' '' # w) = [v] @ split_words [] (w @ [])"
    using v by (subst split_words_visible) (auto simp: split_words_space simp del: split_words.simps)
  also have "split_words [] (w @ []) = [w]"
    using plain_wordD [OF assms(1)] by (subst split_words_visible) auto
  finally show ?thesis by simp
qed

lemma part_upper_pause: "part_upper 0 (''PAUSE'' # parts) = ''PAUSE''"
  by (simp add: part_upper_def ascii_upper_def)

lemma pause_all:
  assumes "distinct (ae_pools env)" "set (ae_pools env) = dom (pr_pools (adm_process s))" "pool_list parts = []"
  shows "pr_pools (adm_process (snd (admin_pause env parts s))) = (\<lambda>i. map_option pool_pause (pr_pools (adm_process s) i))"
proof -
  have "(\<lambda>i. if i \<in> set (ae_pools env) then map_option pool_pause (pr_pools (adm_process s) i) else pr_pools (adm_process s) i)
      = (\<lambda>i. map_option pool_pause (pr_pools (adm_process s) i))" by (auto simp: assms(2) fun_eq_iff domIff)
  with pools_after_change [of "over_pools (\<lambda>_. change_pool pool_pause) (ae_pools env)" s, OF over_pools_change [OF assms(1)]] assms(3)
  show ?thesis by (simp add: admin_pause_def for_pools_def)
qed

text \<open>
  C33: \<open>PAUSE db,user\<close> pauses the pool of that database and user and no other, and \<open>PAUSE\<close> alone pauses every
  pool.  With a space after the comma, as the console help writes it, every pool is paused too: the
  name of the pool is ignored when the query has three words.
\<close>

theorem admin_pause_pools:
  assumes "plain_word db" "plain_word user" "length db + length user + 100 < 2147483648"
    and "distinct (ae_pools env)" "set (ae_pools env) = dom (pr_pools (adm_process s))"
    and "pr_pools (adm_process s) (pool_identifier_new db user) = Some pool"
  shows "pr_pools (adm_process (snd (handle_admin env ops (frame CHR ''Q'' ((''PAUSE '' @ db @ '','' @ user) @ [CHR 0x00])) s)))
           = (pr_pools (adm_process s))(pool_identifier_new db user \<mapsto> pool_pause pool)
       \<and> pr_pools (adm_process (snd (handle_admin env ops (frame CHR ''Q'' (''PAUSE'' @ [CHR 0x00])) s)))
           = (\<lambda>i. map_option pool_pause (pr_pools (adm_process s) i))
       \<and> pr_pools (adm_process (snd (handle_admin env ops (frame CHR ''Q'' ((''PAUSE '' @ db @ '', '' @ user) @ [CHR 0x00])) s)))
           = (\<lambda>i. map_option pool_pause (pr_pools (adm_process s) i))"
proof (intro conjI)
  note w = plain_wordD [OF assms(1)] plain_wordD [OF assms(2)]
  have cmd: "handle_admin env ops (frame CHR ''Q'' (q @ [CHR 0x00])) s = admin_pause env parts s"
    if "query_parts q = parts" "part_upper 0 parts = ''PAUSE''" "ascii q" "length q + 5 < 2147483648" for q parts
    using that by (simp add: handle_admin_def admin_query_text act_lift_def admin_command_def)
  have p1: "query_parts (''PAUSE '' @ db @ '','' @ user) = [''PAUSE'', db @ '','' @ user]"
    using query_parts_two [OF assms(2), of "db @ '',''"] w(1) by simp
  have "pool_list [''PAUSE'', db @ '','' @ user] = [db, user]"
    using w by (simp add: pool_list_def split_on_append_sep split_on_none str_trim_plain assms)
  then have "admin_pause env [''PAUSE'', db @ '','' @ user] s = act_bind (on_pools (on_pool_of (pool_identifier_new db user) (change_pool pool_pause)))
      (\<lambda>_. admin_say (\<lambda>_. Ok (command_complete (''PAUSE'' @ '' '' @ db @ '','' @ user) @ admin_ready))) s"
    using assms(6) by (simp add: admin_pause_def for_pools_def get_pool_def act_get_def)
  moreover have "ascii (''PAUSE '' @ db @ '','' @ user)" using w by simp
  ultimately show "pr_pools (adm_process (snd (handle_admin env ops (frame CHR ''Q'' ((''PAUSE '' @ db @ '','' @ user) @ [CHR 0x00])) s)))
      = (pr_pools (adm_process s))(pool_identifier_new db user \<mapsto> pool_pause pool)"
    using assms(3,6) pools_after_change [of "on_pool_of (pool_identifier_new db user) (change_pool pool_pause)" s, OF on_pool_of_change]
    by (subst cmd [OF p1]) (simp_all add: part_upper_pause)
  have p: "plain_word ''PAUSE''" by (simp add: plain_word_def)
  show "pr_pools (adm_process (snd (handle_admin env ops (frame CHR ''Q'' (''PAUSE'' @ [CHR 0x00])) s)))
      = (\<lambda>i. map_option pool_pause (pr_pools (adm_process s) i))"
    by (subst cmd [OF query_parts_one [OF p]]) (simp_all add: part_upper_pause pause_all [OF assms(4,5)] pool_list_def)
  have p3: "query_parts (''PAUSE '' @ db @ '', '' @ user) = [''PAUSE'', db @ '','', user]"
    using query_parts_three [OF assms(2) _ _ p, of "db @ '',''"] w(1) by simp
  have "ascii (''PAUSE '' @ db @ '', '' @ user)" using w by simp
  then show "pr_pools (adm_process (snd (handle_admin env ops (frame CHR ''Q'' ((''PAUSE '' @ db @ '', '' @ user) @ [CHR 0x00])) s)))
      = (\<lambda>i. map_option pool_pause (pr_pools (adm_process s) i))"
    using assms(3) by (subst cmd [OF p3]) (simp_all add: part_upper_pause pause_all [OF assms(4,5)] pool_list_def)
qed

section \<open>Bans\<close>

lemma collect_from_host_Ok:
  assumes "aligned (cp_databases p) (cp_addresses p)" "n \<le> length (cp_addresses p)"
  shows "collect_from_host n host p = Ok (filter (\<lambda>a. a_host a = host) (concat (take n (cp_addresses p))))"
  using assms(2)
proof (induction n)
  case (Suc n)
  then have "unat (of_nat n :: usize) = n" using assms(1) by (intro of_nat_small) (simp add: aligned_def)
  with Suc show ?case by (simp add: at_index_def take_Suc_conv_app_nth)
qed simp

lemma aligned_distinct_concat: "aligned dbs addrs \<Longrightarrow> distinct (concat addrs)"
proof -
  assume al: "aligned dbs addrs"
  have "distinct (concat (take n addrs))" if "n \<le> length addrs" for n
    using that
  proof (induction n)
    case (Suc n)
    have "x \<notin> set (addrs ! n)" if "x \<in> set (concat (take n addrs))" for x
    proof -
      from that obtain ys where ys: "ys \<in> set (take n addrs)" "x \<in> set ys" by auto
      then obtain i where "i < n" "ys = addrs ! i" using Suc.prems by (auto simp: in_set_conv_nth)
      with ys(2) have "x \<in> set (addrs ! i)" by simp
      then have "unat (a_shard x) = i" using aligned_nth_member [OF al, of i x] Suc.prems \<open>i < n\<close> by simp
      with \<open>i < n\<close> show ?thesis using aligned_nth_member [OF al, of n x] Suc.prems by auto
    qed
    with Suc aligned_distinct [OF al, of n] show ?case by (auto simp: take_Suc_conv_app_nth)
  qed simp
  from this [of "length addrs"] show ?thesis by simp
qed

text \<open>The entry of an address in the ban list of its shard.\<close>

definition ban_entry :: "('d, 'p) connection_pool \<Rightarrow> address \<Rightarrow> (ban_reason \<times> i64) option" where
  "ban_entry p a = map_of (cp_banlist p ! unat (a_shard a)) a"

lemma is_banned_entry: "pool_at l p \<Longrightarrow> a \<in> members l \<Longrightarrow> is_banned a p = Ok (ban_entry p a \<noteq> None)"
  using pool_at_index(1) by (fastforce simp: is_banned_def ban_entry_def)

lemma ban_effect:
  assumes at: "pool_at l p" "a \<in> members l"
  shows "\<exists>p'. ban now a (AdminBan d) None p = (Ok None, p') \<and> pool_at l p'
    \<and> (\<forall>b \<in> members l. ban_entry p' b = (if b = a \<and> a_role a \<noteq> Primary then Some (AdminBan d, now) else ban_entry p b))"
proof -
  let ?i = "unat (a_shard a)" let ?bans = "AList.update a (AdminBan d, now) (cp_banlist p ! ?i)"
  let ?p = "if a_role a = Primary then p else p\<lparr>cp_banlist := (cp_banlist p)[?i := ?bans]\<rparr>"
  have run: "ban now a (AdminBan d) None p = (Ok None, ?p)"
    using pool_at_index(1) [OF at]
    by (auto simp: ban_def act_bind_def act_when_def act_return_def act_get_def act_modify_def on_bans_def counts_as_error_def)
  have keep: "pool_at l ?p" by (rule keepsD [OF keeps_ban [OF at(2)] at(1) run])
  have i: "?i < length (cp_banlist p)" using pool_at_index(1) [OF at] by (simp add: at_index_def split: if_splits)
  have "ban_entry ?p b = (if b = a \<and> a_role a \<noteq> Primary then Some (AdminBan d, now) else ban_entry p b)" for b
    using i by (auto simp: ban_entry_def AList.update_conv' nth_list_update)
  with run keep show ?thesis by blast
qed

lemma ban_addresses_effect:
  assumes "pool_at l p" "set as \<subseteq> members l" "distinct as"
  shows "\<exists>p'. ban_addresses now d i as p = (Ok (map (ban_row i) (filter (\<lambda>a. ban_entry p a = None) as)), p') \<and> pool_at l p'
    \<and> (\<forall>b \<in> members l. ban_entry p' b =
          (if b \<in> set as \<and> ban_entry p b = None \<and> a_role b \<noteq> Primary then Some (AdminBan d, now) else ban_entry p b))"
  using assms
proof (induction as arbitrary: p)
  case (Cons a as)
  then have a: "a \<in> members l" "a \<notin> set as" by auto
  note b = is_banned_entry [OF Cons.prems(1) a(1)]
  show ?case
  proof (cases "ban_entry p a = None")
    case False
    from Cons.IH [OF Cons.prems(1)] Cons.prems obtain q where "ban_addresses now d i as p = (Ok (map (ban_row i) (filter (\<lambda>a. ban_entry p a = None) as)), q)"
      "pool_at l q" "\<forall>b \<in> members l. ban_entry q b =
          (if b \<in> set as \<and> ban_entry p b = None \<and> a_role b \<noteq> Primary then Some (AdminBan d, now) else ban_entry p b)" by auto
    with b False show ?thesis by (intro exI [where x = q]) (auto simp: act_get_def)
  next
    case True
    from ban_effect [OF Cons.prems(1) a(1), of now d] obtain q where q: "ban now a (AdminBan d) None p = (Ok None, q)" "pool_at l q"
      "\<forall>b \<in> members l. ban_entry q b = (if b = a \<and> a_role a \<noteq> Primary then Some (AdminBan d, now) else ban_entry p b)" by blast
    from Cons.IH [OF q(2)] Cons.prems obtain q' where q': "ban_addresses now d i as q = (Ok (map (ban_row i) (filter (\<lambda>a. ban_entry q a = None) as)), q')"
      "pool_at l q'" "\<forall>b \<in> members l. ban_entry q' b =
          (if b \<in> set as \<and> ban_entry q b = None \<and> a_role b \<noteq> Primary then Some (AdminBan d, now) else ban_entry q b)" by auto
    have same: "ban_entry q x = ban_entry p x" if "x \<in> set as" for x
      using q(3) subsetD [OF Cons.prems(2), of x] that a(2) by auto
    then have "filter (\<lambda>a. ban_entry q a = None) as = filter (\<lambda>a. ban_entry p a = None) as"
      by (intro filter_cong refl) simp
    with q(1) q'(1) b True have "ban_addresses now d i (a # as) p = (Ok (map (ban_row i) (filter (\<lambda>a. ban_entry p a = None) (a # as))), q')"
      by (simp add: act_bind_def act_get_def act_return_def)
    moreover have "\<forall>b \<in> members l. ban_entry q' b =
        (if b \<in> set (a # as) \<and> ban_entry p b = None \<and> a_role b \<noteq> Primary then Some (AdminBan d, now) else ban_entry p b)"
      using q'(3) q(3) a(2) True by auto
    ultimately show ?thesis using q'(2) by blast
  qed
qed (simp add: act_return_def)

text \<open>What \<open>BAN\<close> does to one pool.\<close>

lemma ban_host_effect:
  assumes "pool_inv p"
  shows "\<exists>p'. act_bind (act_get (get_addresses_from_host host)) (ban_addresses now d i) p
      = (Ok (map (ban_row i) (filter (\<lambda>a. a_host a = host \<and> ban_entry p a = None) (concat (cp_addresses p)))), p')
    \<and> pool_inv p' \<and> layout p' = layout p
    \<and> (\<forall>a \<in> set (concat (cp_addresses p)). ban_entry p' a =
          (if a_host a = host \<and> a_role a \<noteq> Primary \<and> ban_entry p a = None then Some (AdminBan d, now) else ban_entry p a))"
proof -
  let ?as = "filter (\<lambda>a. a_host a = host) (concat (cp_addresses p))"
  have at: "pool_at (layout p) p" and mem: "members (layout p) = set (concat (cp_addresses p))"
    using assms by (simp_all add: pool_at_def members_def layout_def)
  have al: "aligned (cp_databases p) (cp_addresses p)" using assms by (simp add: pool_inv_def)
  have get: "get_addresses_from_host host p = Ok ?as"
    using collect_from_host_Ok [OF al, of "length (cp_addresses p)"] al by (simp add: get_addresses_from_host_def aligned_def)
  from ban_addresses_effect [OF at, of ?as now d i] obtain p'
    where p': "ban_addresses now d i ?as p = (Ok (map (ban_row i) (filter (\<lambda>a. ban_entry p a = None) ?as)), p')" "pool_at (layout p) p'"
      "\<forall>b \<in> members (layout p). ban_entry p' b =
          (if b \<in> set ?as \<and> ban_entry p b = None \<and> a_role b \<noteq> Primary then Some (AdminBan d, now) else ban_entry p b)"
    using mem aligned_distinct_concat [OF al] by auto
  have "filter (\<lambda>a. ban_entry p a = None) ?as = filter (\<lambda>a. a_host a = host \<and> ban_entry p a = None) (concat (cp_addresses p))"
    by (simp only: filter_filter conj_commute)
  with get p'(1) have "act_bind (act_get (get_addresses_from_host host)) (ban_addresses now d i) p
      = (Ok (map (ban_row i) (filter (\<lambda>a. a_host a = host \<and> ban_entry p a = None) (concat (cp_addresses p)))), p')"
    by (simp add: act_bind_def act_get_def)
  moreover have "ban_entry p' a = (if a_host a = host \<and> a_role a \<noteq> Primary \<and> ban_entry p a = None then Some (AdminBan d, now) else ban_entry p a)"
    if "a \<in> set (concat (cp_addresses p))" for a
    using p'(3) that unfolding mem by auto
  moreover have "pool_inv p'" "layout p' = layout p" using p'(2) by (simp_all add: pool_at_def)
  ultimately show ?thesis by blast
qed

lemma admin_say_output:
  "wr_budget (adm_stream s) = None \<Longrightarrow> fst (admin_say (\<lambda>_. Ok answer) s) = Ok ()
    \<and> wr_output (adm_stream (snd (admin_say (\<lambda>_. Ok answer) s))) = wr_output (adm_stream s) @ answer"
  by (simp add: admin_say_def act_bind_def act_get_def on_adm_stream_def act_zoom_def)

lemma ban_request:
  assumes "plain_word host" "plain_word seconds" "length host + length seconds + 100 < 2147483648"
  shows "handle_admin env ops (frame CHR ''Q'' ((''BAN '' @ host @ '' '' @ seconds) @ [CHR 0x00])) = admin_ban env [''BAN'', host, seconds]"
proof -
  have b: "plain_word ''BAN''" by (simp add: plain_word_def)
  have "query_parts (''BAN '' @ host @ '' '' @ seconds) = [''BAN'', host, seconds]"
    using query_parts_three [OF assms(2) _ _ b, of host] plain_wordD [OF assms(1)] by simp
  moreover have "admin_query (frame CHR ''Q'' ((''BAN '' @ host @ '' '' @ seconds) @ [CHR 0x00])) = Ok (''BAN '' @ host @ '' '' @ seconds)"
    using plain_wordD(4) [OF assms(1)] plain_wordD(4) [OF assms(2)] assms(3) by (intro admin_query_text) simp_all
  moreover have "part_upper 0 [''BAN'', host, seconds] = ''BAN''" by (simp add: part_upper_def ascii_upper_def)
  ultimately show ?thesis by (simp add: handle_admin_def act_lift_def admin_command_def fun_eq_iff)
qed

text \<open>
  C34: \<open>BAN host seconds\<close>.  In every pool, each server on that host that is not a primary and was not banned
  is banned from now on for the given time, by the administrator; a ban that was there already stays
  as it is, with the time it had, no other server is banned, and the layout and the invariant of the
  pool stay.  The answer has one row for each server on the host that was not banned before, pool by
  pool; a primary is named too although it is never banned.
\<close>

theorem admin_ban_command:
  assumes "plain_word host" "plain_word seconds" "length host + length seconds + 100 < 2147483648"
    and "parse_i64 seconds = Some d" "0 < sint d"
    and "distinct (ae_pools env)" "set (ae_pools env) = dom (pr_pools (adm_process s))"
    and "\<forall>p \<in> ran (pr_pools (adm_process s)). pool_inv p" "wr_budget (adm_stream s) = None"
    and s': "s' = snd (handle_admin env ops (frame CHR ''Q'' ((''BAN '' @ host @ '' '' @ seconds) @ [CHR 0x00])) s)"
  shows "(\<forall>i p. pr_pools (adm_process s) i = Some p \<longrightarrow> (\<exists>p'. pr_pools (adm_process s') i = Some p'
        \<and> pool_inv p' \<and> layout p' = layout p
        \<and> (\<forall>a \<in> set (concat (cp_addresses p)). ban_entry p' a =
              (if a_host a = host \<and> a_role a \<noteq> Primary \<and> ban_entry p a = None then Some (AdminBan d, ae_utc env) else ban_entry p a))))
    \<and> dom (pr_pools (adm_process s')) = dom (pr_pools (adm_process s))
    \<and> wr_output (adm_stream s') = wr_output (adm_stream s) @ admin_table ban_columns
        (concat (map (\<lambda>i. case pr_pools (adm_process s) i of None \<Rightarrow> []
           | Some p \<Rightarrow> map (ban_row i) (filter (\<lambda>a. a_host a = host \<and> ban_entry p a = None) (concat (cp_addresses p)))) (ae_pools env))) ''BAN''"
proof -
  let ?pools = "pr_pools (adm_process s)"
  let ?rows = "\<lambda>i p. map (ban_row i) (filter (\<lambda>a. a_host a = host \<and> ban_entry p a = None) (concat (cp_addresses p)))"
  define f :: "pool_identifier \<Rightarrow> (('a, 'b) connection_pool, string list list) act"
    where "f = (\<lambda>i. act_bind (act_get (get_addresses_from_host host)) (ban_addresses (ae_utc env) d i))"
  have f: "fst (f i p) = Ok (?rows i p)" "pool_inv (snd (f i p))" "layout (snd (f i p)) = layout p"
    "\<forall>a \<in> set (concat (cp_addresses p)). ban_entry (snd (f i p)) a =
        (if a_host a = host \<and> a_role a \<noteq> Primary \<and> ban_entry p a = None then Some (AdminBan d, ae_utc env) else ban_entry p a)"
    if "?pools i = Some p" for i p
  proof -
    from assms(8) that have "pool_inv p" by (auto intro: ranI)
    from ban_host_effect [OF this, of host "ae_utc env" d i] obtain p' where
      "f i p = (Ok (?rows i p), p')" "pool_inv p'" "layout p' = layout p"
      "\<forall>a \<in> set (concat (cp_addresses p)). ban_entry p' a =
        (if a_host a = host \<and> a_role a \<noteq> Primary \<and> ban_entry p a = None then Some (AdminBan d, ae_utc env) else ban_entry p a)"
      unfolding f_def by blast
    then show "fst (f i p) = Ok (?rows i p)" "pool_inv (snd (f i p))" "layout (snd (f i p)) = layout p"
      "\<forall>a \<in> set (concat (cp_addresses p)). ban_entry (snd (f i p)) a =
        (if a_host a = host \<and> a_role a \<noteq> Primary \<and> ban_entry p a = None then Some (AdminBan d, ae_utc env) else ban_entry p a)"
      by simp_all
  qed
  let ?answer = "admin_table ban_columns (concat (map (\<lambda>i. case ?pools i of None \<Rightarrow> [] | Some p \<Rightarrow> ?rows i p) (ae_pools env))) ''BAN''"
  let ?s = "s\<lparr>adm_process := (adm_process s)\<lparr>pr_pools := \<lambda>i. if i \<in> set (ae_pools env) then map_option (\<lambda>p. snd (f i p)) (?pools i) else ?pools i\<rparr>\<rparr>"
  have "handle_admin env ops (frame CHR ''Q'' ((''BAN '' @ host @ '' '' @ seconds) @ [CHR 0x00])) s = admin_ban env [''BAN'', host, seconds] s"
    by (simp only: ban_request [OF assms(1-3)])
  also have "\<dots> = admin_say (\<lambda>_. Ok ?answer) ?s"
    using assms(4,5) over_pools_total [OF assms(6), of ?pools f ?rows] f(1)
    by (simp add: admin_ban_def f_def [symmetric] on_pools_def on_process_def act_zoom_def act_bind_def)
  finally have run: "s' = snd (admin_say (\<lambda>_. Ok ?answer) ?s)" using s' by simp
  have pools: "pr_pools (adm_process s') i = map_option (\<lambda>p. snd (f i p)) (?pools i)" for i
    unfolding run by (auto simp: assms(7) domIff)
  show ?thesis
  proof (intro conjI allI impI)
    fix i p assume i: "?pools i = Some p"
    then have "pr_pools (adm_process s') i = Some (snd (f i p))" by (simp add: pools)
    with f(2-4) [OF i] show "\<exists>p'. pr_pools (adm_process s') i = Some p' \<and> pool_inv p' \<and> layout p' = layout p
        \<and> (\<forall>a \<in> set (concat (cp_addresses p)). ban_entry p' a =
              (if a_host a = host \<and> a_role a \<noteq> Primary \<and> ban_entry p a = None then Some (AdminBan d, ae_utc env) else ban_entry p a))"
      by blast
  next
    show "dom (pr_pools (adm_process s')) = dom ?pools" by (simp add: pools dom_def)
  next
    have "wr_budget (adm_stream ?s) = None" using assms(9) by simp
    from admin_say_output [OF this, of ?answer] show "wr_output (adm_stream s') = wr_output (adm_stream s) @ ?answer"
      unfolding run by simp
  qed
qed

section \<open>Reloading\<close>

text \<open>
  C35: a reload that could not build the pools is not repeated.  When \<open>RELOAD\<close> has read a new configuration and then fails,
  the new configuration is in force with the old pools; another \<open>RELOAD\<close> of the same file finds nothing
  changed, reports success and leaves the old pools, even if they could be built by then.
\<close>

theorem reload_not_repeated:
  assumes "reload_config env ops p = (Err e, p')" "pr_config p' \<noteq> pr_config p"
    and "re_read_file env' = re_read_file env" "re_toml env' = re_toml env" "re_certs_ok env' = re_certs_ok env" "re_keys_ok env' = re_keys_ok env"
    and "be_regex (re_build env') = be_regex (re_build env)"
  shows "pr_pools p' = pr_pools p \<and> fst (reload_config env' ops p') = Ok False \<and> pr_pools (snd (reload_config env' ops p')) = pr_pools p"
proof -
  let ?parse = "\<lambda>path. parse_config (re_read_file env) (re_toml env) (be_regex (re_build env)) (re_certs_ok env) (re_keys_ok env) path"
  let ?path = "cf_path (pr_config p)"
  obtain r c where rc: "?parse ?path (pr_config p) = (r, c)" by (cases "?parse ?path (pr_config p)")
  have "r = Ok () \<and> pr_config p' = c \<and> pr_pools p' = pr_pools p"
  proof (cases r)
    case (Ok u)
    then show ?thesis using assms(1) rc
      by (auto simp: reload_config_def pools_from_config_def Let_def split: if_splits outcome.splits prod.splits)
  next
    case (Err x)
    then have "c = pr_config p" using rc by (auto simp: parse_config_def split: option.splits outcome.splits)
    with Err assms(1,2) rc show ?thesis by (auto simp: reload_config_def Let_def)
  next
    case Panic
    with assms(1) rc show ?thesis by (auto simp: reload_config_def Let_def)
  qed
  then have p': "r = Ok ()" "pr_config p' = c" "pr_pools p' = pr_pools p" by auto
  have again: "?parse ?path current = (Ok (), c)" for current
    using rc p'(1) by (auto simp: parse_config_def split: option.splits outcome.splits)
  moreover have "cf_path c = ?path" using rc p'(1) by (auto simp: parse_config_def split: option.splits outcome.splits)
  ultimately show ?thesis using p' assms(3-7) by (simp add: reload_config_def Let_def config_eq_def)
qed

section \<open>Examples\<close>

definition example_config :: config where
  "example_config = config_default\<lparr>cf_pools := [(''db'', example_pool_config\<lparr>pc_users := [(''0'', user_default\<lparr>u_password := Some ''secret''\<rparr>)]\<rparr>)]\<rparr>"

text \<open>A file with the configuration above, and servers that cannot be reached.\<close>

definition example_reload_env :: "nat reload_env" where
  "example_reload_env =
     \<lparr> re_read_file = (\<lambda>_. Some []), re_toml = (\<lambda>_. Some example_config), re_certs_ok = (\<lambda>_. True), re_keys_ok = (\<lambda>_. True),
       re_resolver_error = None, re_build = example_build_env\<lparr>be_build := \<lambda>_ _. Err AllServersDown\<rparr> \<rparr>"

definition example_admin_env :: "nat admin_env" where
  "example_admin_env =
     \<lparr> ae_pools = [pool_identifier_new ''db'' ''user''], ae_clients = [], ae_servers = [], ae_entries = (\<lambda>_. []), ae_lookup = (\<lambda>_. []),
       ae_pool_state = (\<lambda>_. (0, 0)), ae_utc = 0, ae_show_time = (\<lambda>_. []), ae_debug = (\<lambda>s. s), ae_version = ''1.2'', ae_kill = True,
       ae_reload = example_reload_env \<rparr>"

definition example_process :: "(nat, unit) process" where
  "example_process = \<lparr> pr_config = config_default, pr_pools = [pool_identifier_new ''db'' ''user'' \<mapsto> example_pool],
     pr_resolver = cached_resolver_default, pr_interrupted = False \<rparr>"

definition example_admin :: "(nat, unit) admin" where
  "example_admin = \<lparr> adm_stream = fresh_stream [], adm_process = example_process \<rparr>"

theorem handle_admin_replies_witness:
  "\<forall>ops. \<exists>ms. wr_output (adm_stream (snd (handle_admin example_admin_env ops (frame CHR ''Q'' (''SHOW VERSION'' @ [CHR 0x00])) example_admin)))
     = messages_of ms @ frame CHR ''Z'' ''I'' \<and> CHR ''Z'' \<notin> fst ` set ms"
proof
  fix ops
  let ?q = "frame CHR ''Q'' (''SHOW VERSION'' @ [CHR 0x00])"
  have q: "admin_query ?q = Ok ''SHOW VERSION''" by (rule admin_query_text) simp_all
  have "query_parts ''SHOW VERSION'' = [''SHOW'', ''VERSION'']" by (simp add: query_parts_def whitespace_width_def)
  moreover have "part_upper 0 [''SHOW'', ''VERSION''] = ''SHOW''" "part_upper 1 [''SHOW'', ''VERSION''] = ''VERSION''"
    by (simp_all add: part_upper_def ascii_upper_def)
  ultimately have "handle_admin example_admin_env ops ?q example_admin = admin_say (\<lambda>_. Ok (show_version example_admin_env)) example_admin"
    unfolding handle_admin_def q by (simp add: act_lift_def admin_command_def admin_show_def)
  then obtain s' where run: "handle_admin example_admin_env ops ?q example_admin = (Ok (), s')"
    by (simp add: admin_say_def act_get_def on_adm_stream_def act_zoom_def example_admin_def)
  have "wr_budget (adm_stream example_admin) = None" by (simp add: example_admin_def)
  from handle_admin_replies [OF this, of example_admin_env ops ?q] run
  show "\<exists>ms. wr_output (adm_stream (snd (handle_admin example_admin_env ops ?q example_admin)))
     = messages_of ms @ frame CHR ''Z'' ''I'' \<and> CHR ''Z'' \<notin> fst ` set ms" by (simp add: example_admin_def)
qed

theorem admin_pause_pools_witness:
  "\<forall>ops. cp_paused (the (pr_pools (adm_process (snd (handle_admin example_admin_env ops
     (frame CHR ''Q'' ((''PAUSE '' @ ''db'' @ '', '' @ ''user'') @ [CHR 0x00])) example_admin))) (pool_identifier_new ''db'' ''user'')))
   \<and> cp_paused (the (pr_pools (adm_process (snd (handle_admin example_admin_env ops
     (frame CHR ''Q'' (''PAUSE'' @ [CHR 0x00])) example_admin))) (pool_identifier_new ''db'' ''user'')))"
proof
  fix ops
  have "plain_word ''db''" "plain_word ''user''" by (simp_all add: plain_word_def)
  moreover have "distinct (ae_pools example_admin_env)" "set (ae_pools example_admin_env) = dom (pr_pools (adm_process example_admin))"
    "pr_pools (adm_process example_admin) (pool_identifier_new ''db'' ''user'') = Some example_pool"
    by (simp_all add: example_admin_env_def example_admin_def example_process_def)
  ultimately show "cp_paused (the (pr_pools (adm_process (snd (handle_admin example_admin_env ops
     (frame CHR ''Q'' ((''PAUSE '' @ ''db'' @ '', '' @ ''user'') @ [CHR 0x00])) example_admin))) (pool_identifier_new ''db'' ''user'')))
   \<and> cp_paused (the (pr_pools (adm_process (snd (handle_admin example_admin_env ops
     (frame CHR ''Q'' (''PAUSE'' @ [CHR 0x00])) example_admin))) (pool_identifier_new ''db'' ''user'')))"
    using admin_pause_pools [of "''db''" "''user''" example_admin_env example_admin example_pool ops]
    by (simp add: pool_pause_def example_admin_def example_process_def)
qed

theorem admin_ban_command_witness:
  "\<forall>ops. \<exists>p'. pr_pools (adm_process (snd (handle_admin example_admin_env ops (frame CHR ''Q'' ((''BAN '' @ ''db'' @ '' '' @ ''60'') @ [CHR 0x00]))
       (example_admin\<lparr>adm_process := example_process\<lparr>pr_pools := [pool_identifier_new ''db'' ''user'' \<mapsto> example_pool\<lparr>cp_banlist := [[]]\<rparr>]\<rparr>\<rparr>))))
         (pool_identifier_new ''db'' ''user'') = Some p'
     \<and> ban_entry p' (example_address 0 Primary) = None \<and> ban_entry p' (example_address 1 Replica) = Some (AdminBan 60, 0)"
proof
  fix ops
  let ?pool = "example_pool\<lparr>cp_banlist := [[]]\<rparr>" and ?i = "pool_identifier_new ''db'' ''user''"
  let ?s = "example_admin\<lparr>adm_process := example_process\<lparr>pr_pools := [?i \<mapsto> ?pool]\<rparr>\<rparr>"
  have inv: "pool_inv ?pool"
    using example_inv by (auto simp: pool_inv_def bans_ok_def example_pool_def)
  have d: "parse_i64 ''60'' = Some 60" "(0::int) < sint (60 :: i64)"
    by (simp_all add: parse_i64_def parse_signed_def parse_digits_def is_digit_def digits_val_def digit_val_def)
  have mem: "example_address 0 Primary \<in> set (concat (cp_addresses ?pool))" "example_address 1 Replica \<in> set (concat (cp_addresses ?pool))"
    by (simp_all add: example_pool_def)
  have entry: "ban_entry ?pool a = None" if "a \<in> set (concat (cp_addresses ?pool))" for a
    using that by (auto simp: ban_entry_def example_pool_def example_address_def)
  have facts: "a_host (example_address n r) = ''db''" "a_role (example_address n r) = r" for n r by (simp_all add: example_address_def)
  have w: "plain_word ''db''" "plain_word ''60''" "length ''db'' + length ''60'' + 100 < 2147483648" by (simp_all add: plain_word_def)
  have h: "distinct (ae_pools example_admin_env)" "set (ae_pools example_admin_env) = dom (pr_pools (adm_process ?s))"
    "\<forall>p \<in> ran (pr_pools (adm_process ?s)). pool_inv p" "wr_budget (adm_stream ?s) = None"
    using inv by (simp_all add: example_admin_env_def example_admin_def)
  have i: "pr_pools (adm_process ?s) ?i = Some ?pool" by simp
  from admin_ban_command [OF w d h refl, of ops, THEN conjunct1, rule_format, OF i] obtain p' where "pr_pools (adm_process (snd (handle_admin example_admin_env ops (frame CHR ''Q'' ((''BAN '' @ ''db'' @ '' '' @ ''60'') @ [CHR 0x00])) ?s))) ?i = Some p'"
    "\<forall>a \<in> set (concat (cp_addresses ?pool)). ban_entry p' a =
      (if a_host a = ''db'' \<and> a_role a \<noteq> Primary \<and> ban_entry ?pool a = None then Some (AdminBan 60, ae_utc example_admin_env) else ban_entry ?pool a)" by blast
  moreover from bspec [OF this(2) mem(1)] bspec [OF this(2) mem(2)] have "ban_entry p' (example_address 0 Primary) = None" "ban_entry p' (example_address 1 Replica) = Some (AdminBan 60, 0)"
    using entry [OF mem(1)] entry [OF mem(2)] facts by (simp_all add: example_admin_env_def)
  ultimately show "\<exists>p'. pr_pools (adm_process (snd (handle_admin example_admin_env ops (frame CHR ''Q'' ((''BAN '' @ ''db'' @ '' '' @ ''60'') @ [CHR 0x00])) ?s))) ?i = Some p'
     \<and> ban_entry p' (example_address 0 Primary) = None \<and> ban_entry p' (example_address 1 Replica) = Some (AdminBan 60, 0)"
    by blast
qed

definition example_fresh_process :: "(nat, (u64, parse_msg) lru_list) process" where
  "example_fresh_process = \<lparr> pr_config = config_default, pr_pools = Map.empty, pr_resolver = cached_resolver_default, pr_interrupted = False \<rparr>"

lemma example_parse:
  "parse_config (\<lambda>_. Some []) (\<lambda>_. Some example_config) (\<lambda>_. True) (\<lambda>_. True) (\<lambda>_. True) ''pgcat.toml'' current = (Ok (), example_config)"
proof -
  have fill: "fill_up_auth_query_config example_config = example_config"
    by (simp add: fill_up_auth_query_config_def example_config_def or_else_def example_pool_config_def pool_default_def config_default_def general_default_def)
  have unq: "unquote_config example_config = example_config"
    by (simp add: unquote_config_def unquote_pool_def example_config_def example_pool_config_def pool_default_def config_default_def)
  have "wf_pool (\<lambda>_. True) (example_pool_config\<lparr>pc_users := [(''0'', user_default\<lparr>u_password := Some ''secret''\<rparr>)]\<rparr>)"
    by (simp add: wf_pool_def wf_shard_def wf_sharding_key_def wf_user_def example_pool_config_def pool_default_def shard_default_def user_default_def
        parse_usize_def parse_unsigned_def parse_digits_def is_digit_def digits_val_def digit_val_def)
  then have "wf_config (\<lambda>_. True) (\<lambda>_. True) (\<lambda>_. True) example_config"
    by (simp add: wf_config_def wf_auth_def wf_pool_auth_def example_config_def config_default_def general_default_def example_pool_config_def pool_default_def)
  then show ?thesis by (simp add: parse_config_def fill config_validate_eq unq) (simp add: example_config_def config_default_def)
qed

theorem reload_not_repeated_witness:
  "\<exists>p'. reload_config example_reload_env lru_list_ops example_fresh_process = (Err AllServersDown, p')
     \<and> fst (reload_config (example_reload_env\<lparr>re_build := example_build_env\<rparr>) lru_list_ops p') = Ok False"
proof -
  let ?p = "example_fresh_process"
  have "pools_from_config (re_build example_reload_env) lru_list_ops example_config (pr_pools ?p) = (Err AllServersDown, pr_pools ?p)"
    by (simp add: pools_from_config_def build_user_def get_pool_def example_config_def example_pool_config_def config_default_def general_default_def
        pool_config_evals example_reload_env_def example_fresh_process_def)
  moreover have "\<not> config_eq config_default example_config" by (simp add: config_eq_def example_config_def config_default_def)
  moreover have "example_config \<noteq> config_default" by (simp add: example_config_def config_default_def)
  ultimately obtain p' where run: "reload_config example_reload_env lru_list_ops ?p = (Err AllServersDown, p')" and "pr_config p' \<noteq> pr_config ?p"
    by (simp add: reload_config_def example_reload_env_def example_build_env_def example_fresh_process_def example_parse config_default_def Let_def)
  from reload_not_repeated [OF this, of "example_reload_env\<lparr>re_build := example_build_env\<rparr>"] show ?thesis
    using run by (simp add: example_reload_env_def example_build_env_def)
qed

end
