(* ===== verification/Client_Laws.thy ===== *)
theory Client_Laws
  imports Client Admin_Laws
begin

text \<open>
  Properties of clients: who is let in, what a session does to the servers other clients have claimed,
  what is forwarded between a client and a server, and how a connection goes back to its pool.
\<close>

section \<open>A session and the claims of others\<close>

lemma keeps_others: "(\<And>i. keeps (\<lambda>s. client_frame s = i) m) \<Longrightarrow> keeps (\<lambda>s. other_claims s = v) m"
proof -
  assume m: "\<And>i. keeps (\<lambda>s. client_frame s = i) m"
  have "other_claims (snd (m s)) = other_claims s" for s
    using keeps_all [OF m, of s "fst (m s)" "snd (m s)"] by (simp add: client_frame_def)
  then show ?thesis by (simp add: keeps_def)
qed

lemma keeps_others_tx: "(\<And>i. keeps (\<lambda>s. tx_frame s = i) m) \<Longrightarrow> keeps (\<lambda>s. other_claims (tx_session s) = v) m"
proof -
  assume m: "\<And>i. keeps (\<lambda>s. tx_frame s = i) m"
  have "other_claims (tx_session (snd (m s))) = other_claims (tx_session s)" for s
    using keeps_all [OF m, of s "fst (m s)" "snd (m s)"] by (simp add: tx_frame_def client_frame_def)
  then show ?thesis by (simp add: keeps_def)
qed

lemma keeps_others_on_session: "keeps (\<lambda>s. other_claims s = v) m \<Longrightarrow> keeps (\<lambda>s. other_claims (tx_session s) = v) (on_session m)"
  unfolding on_session_def by (rule keeps_part) simp_all

lemma keeps_others_reads:
  "keeps (\<lambda>s. other_claims s = v) client_read" "keeps (\<lambda>s. other_claims s = v) (drop_input n)"
proof -
  show "keeps (\<lambda>s. other_claims s = v) client_read"
    unfolding client_read_def to_client_def on_client_def
    by (rule keeps_zoom) (auto simp: act_zoom_iff other_claims_def own_key_def)
  show "keeps (\<lambda>s. other_claims s = v) (drop_input n)"
    by (simp add: drop_input_def client_modify_def keeps_def act_modify_def other_claims_def own_key_def)
qed

lemma keeps_others_transaction_round: "keeps (\<lambda>s. other_claims (tx_session s) = v) (transaction_round env ops)"
proof -
  have say: "keeps (\<lambda>s. client_frame s = i) (to_client (error_response e))" for i e by (intro keeps_intro)
  show ?thesis
    unfolding transaction_round_def transaction_read_def
    by (intro keeps_intro keeps_others_on_session keeps_others_reads keeps_others_tx [OF keeps_transaction_message]
        keeps_others [OF keeps_session_small(1)] keeps_others [OF keeps_session_small(3)] keeps_others [OF say]
        keeps_others_tx [OF keeps_talking(4)])
qed

lemma keeps_others_transaction_loop: "keeps (\<lambda>s. other_claims (tx_session s) = v) (transaction_loop env ops)"
proof -
  have "other_claims (tx_session (snd (transaction_loop env ops s))) = v" if "other_claims (tx_session s) = v" for s
    using that
  proof (induction env ops s rule: transaction_loop.induct)
    case (1 env ops s)
    obtain r s1 where r: "transaction_round env ops s = (r, s1)" by force
    with keepsD [OF keeps_others_transaction_round "1.prems"] have "other_claims (tx_session s1) = v" .
    with "1.IH" [OF r [symmetric]] r show ?case by (subst transaction_loop.simps) (cases r; simp)
  qed
  then show ?thesis by (simp add: keeps_def)
qed

lemma keeps_others_with_connection:
  "keeps (\<lambda>s. other_claims s = v) (with_connection (use_connection env ops ast message) connection)"
proof -
  have use: "keeps (\<lambda>s. other_claims (tx_session s) = v) (use_connection env ops ast message)"
    unfolding use_connection_def transaction_def
    by (intro keeps_intro keeps_others_transaction_loop keeps_others_tx [OF keeps_connection_small(1)]
        keeps_others_tx [OF keeps_connection_small(2)] keeps_others_tx [OF keeps_connection_small(3)]
        keeps_others_tx [OF keeps_transaction_message])
  obtain server address where c: "connection = (server, address)" by force
  show ?thesis
    unfolding keeps_def
  proof (intro allI impI)
    fix s :: "('a, 'b, 'c) session"
    assume "other_claims s = v"
    moreover obtain r t where "use_connection env ops ast message \<lparr> tx_session = s, tx_server = server, tx_address = address \<rparr> = (r, t)"
      by force
    ultimately show "other_claims (snd (with_connection (use_connection env ops ast message) connection s)) = v"
      using keepsD [OF use, of "\<lparr> tx_session = s, tx_server = server, tx_address = address \<rparr>" r t] c
      by (simp add: with_connection_def other_claims_def own_key_def)
  qed
qed

lemma keeps_others_serve: "keeps (\<lambda>s. other_claims s = v) (serve env ops ast message)"
proof -
  have "keeps (\<lambda>s. other_claims s = v) (\<lambda>s. case get_connection env ops s of
       (Ok connection, s) \<Rightarrow> with_connection (use_connection env ops ast message) connection s
     | (Err err, s) \<Rightarrow> checkout_failed env message err s
     | (Panic, s) \<Rightarrow> (Panic, s))" (is "keeps _ ?m")
    unfolding keeps_def
  proof (intro allI impI)
    fix s :: "('a, 'b, 'c) session"
    assume "other_claims s = v"
    moreover obtain r s1 where r: "get_connection env ops s = (r, s1)" by force
    ultimately have "other_claims s1 = v" using keepsD [OF keeps_others [OF keeps_get_connection]] by blast
    moreover note keeps_others_with_connection [of v env ops ast message] keeps_others [OF keeps_serving(2), of v env message]
    ultimately show "other_claims (snd (?m s)) = v" using r by (cases r) (simp_all add: keeps_def)
  qed
  then show ?thesis
    unfolding serve_def
    by (intro keeps_intro keeps_others [OF keeps_serving(1)] keeps_others [OF keeps_session_small(1)]
        keeps_others [OF keeps_session_small(2)])
qed

lemma keeps_admin_message: "keeps (\<lambda>s. client_frame s = i) (admin_message env ops message)"
proof -
  have "keeps (\<lambda>s. client_frame s = i) (act_zoom admin_view admin_put (handle_admin aenv aops message))" for aenv aops
    by (rule keeps_part [OF keeps_handle_admin [where i = "fst i"]]) (auto simp: frame_defs admin_view_def admin_put_def)
  then show ?thesis unfolding admin_message_def by (intro keeps_intro; simp add: frame_defs)
qed

lemma keeps_others_session_round: "keeps (\<lambda>s. other_claims s = v) (session_round env ops)"
proof -
  have say: "keeps (\<lambda>s. client_frame s = i) (to_client (error_response_terminal e))" for i e by (intro keeps_intro)
  show ?thesis
    unfolding session_round_def session_read_def session_message_def user_message_def serve_unless_denied_def
    by (intro keeps_intro keeps_others_reads keeps_others_serve keeps_others [OF keeps_admin_message] keeps_others [OF keeps_custom]
        keeps_others [OF keeps_queries(1)] keeps_others [OF keeps_buffer_message] keeps_others [OF keeps_serving(3)]
        keeps_others [OF keeps_session_small(1)] keeps_others [OF keeps_session_small(3)] keeps_others [OF say])
qed

lemma keeps_others_session_loop: "keeps (\<lambda>s. other_claims s = v) (session_loop env ops)"
proof -
  have "other_claims (snd (session_loop env ops s)) = v" if "other_claims s = v" for s
    using that
  proof (induction env ops s rule: session_loop.induct)
    case (1 env ops s)
    obtain r s1 where r: "session_round env ops s = (r, s1)" by force
    with keepsD [OF keeps_others_session_round "1.prems"] have "other_claims s1 = v" .
    with "1.IH" [OF r [symmetric]] r show ?case by (subst session_loop.simps) (cases r; simp)
  qed
  then show ?thesis by (simp add: keeps_def)
qed

lemma keeps_others_handle: "keeps (\<lambda>s. other_claims s = v) (handle env ops)"
proof -
  have "keeps (\<lambda>s. other_claims s = v) (handle_cancel env)"
    by (simp add: keeps_def handle_cancel_def other_claims_def own_key_def split: option.split prod.split)
  then show ?thesis
    unfolding handle_def register_client_def
    by (intro keeps_intro keeps_others_session_loop keeps_others [OF keeps_client_get_pool])
       (auto simp: other_claims_def own_key_def split: prod.split)
qed

lemma client_drop_map [simp]: "sn_map (client_drop s) = (sn_map s)(own_key s := None)"
  by (simp add: client_drop_def own_key_def Let_def)

lemma share_pool_simps [simp]: "sn_map (share_pool s) = sn_map s" "sn_client (share_pool s) = sn_client s"
  by (simp_all add: share_pool_def publish_pool_def act_modify_def Let_def)

lemma run_client_frees:
  "en_map (snd (run_client env ops client s)) = (en_map s)((cl_process_id client, cl_secret_key client) := None)"
proof -
  obtain r sn where h: "handle env ops (session_of client s) = (r, sn)" by force
  have start: "other_claims (session_of client s) = ((cl_process_id client, cl_secret_key client), (en_map s)((cl_process_id client, cl_secret_key client) := None))"
    by (simp add: other_claims_def own_key_def session_of_def)
  from keepsD [OF keeps_others_handle start h]
  have "(sn_map sn)(own_key sn := None) = (en_map s)((cl_process_id client, cl_secret_key client) := None)"
    by (auto simp: other_claims_def)
  moreover have "own_key (share_pool x) = own_key x" for x :: "('a, 'b, 'c) session"
    by (simp add: own_key_def)
  ultimately show ?thesis using h
    by (cases r) (simp_all add: run_client_def session_end_def Let_def stats_disconnect_def act_modify_def own_key_def)
qed

text \<open>
  C7: whatever happens in a session (it may end with an error or panic), afterwards the client has no
  claim on a server, and the claims of all other clients are as they were.  A connection that sends a
  cancel request is a client with the keys of the client whose query it cancels, so its end removes the
  claim of that client.
\<close>

theorem run_client_claims:
  "en_map (snd (run_client env ops client s)) = (en_map s)((cl_process_id client, cl_secret_key client) := None)"
  by (rule run_client_frees)

section \<open>Cancel requests\<close>

lemma get_startup_cancel:
  assumes "rd_input t = cancel_request process_id secret_key @ rest"
  shows "get_startup t = (Ok (CancelQueryConnection, put_i32 process_id @ put_i32 secret_key), t\<lparr>rd_input := rest\<rparr>)"
proof -
  have 1: "stream_read_i32 t = (Ok 16, t\<lparr>rd_input := put_i32 CANCEL_REQUEST_CODE @ put_i32 process_id @ put_i32 secret_key @ rest\<rparr>)"
    using assms by (simp add: cancel_request_def)
  have 2: "unat (scast (16 :: i32) - 4 :: usize) = 12" by simp
  show ?thesis
    using 1 by (simp add: get_startup_def act_bind_def act_io_def read_vec_def 2 stream_read_exact_def act_lift_def
        CANCEL_REQUEST_CODE_def SSL_REQUEST_CODE_def PROTOCOL_VERSION_NUMBER_def)
qed

definition cancelling_client :: "i32 \<Rightarrow> i32 \<Rightarrow> stream \<Rightarrow> client" where
  "cancelling_client process_id secret_key t = (case client_cancel (put_i32 process_id @ put_i32 secret_key) t of (Ok c, _) \<Rightarrow> c)"

lemma client_cancel_Ok: "client_cancel (put_i32 process_id @ put_i32 secret_key) t = (Ok (cancelling_client process_id secret_key t), t)"
  by (simp add: cancelling_client_def client_cancel_def act_bind_def act_lift_def act_get_def get_i32_put [of _ "[]", simplified])

lemma cancelling_client_simps [simp]:
  "cl_cancel_mode (cancelling_client p k t)" "cl_process_id (cancelling_client p k t) = p"
  "cl_secret_key (cancelling_client p k t) = k"
  by (simp_all add: cancelling_client_def client_cancel_def act_bind_def act_lift_def act_get_def get_i32_put [of _ "[]", simplified])

lemma cancel_entry:
  assumes "rd_input (en_stream s) = cancel_request process_id secret_key @ rest"
  shows "client_entrypoint env ops login tls admin_only s
    = run_client env ops (cancelling_client process_id secret_key ((en_stream s)\<lparr>rd_input := rest\<rparr>)) (s\<lparr>en_stream := (en_stream s)\<lparr>rd_input := rest\<rparr>\<rparr>)"
  using get_startup_cancel [OF assms]
  by (simp add: client_entrypoint_def act_bind_def act_get_def on_en_stream_def act_zoom_def Let_def client_cancel_Ok)

lemma run_cancel:
  "en_cancel (snd (run_client env ops (cancelling_client p k t) s))
     = (case en_map s (p, k) of None \<Rightarrow> None | Some (p', k', host, port) \<Rightarrow> snd (server_cancel (xe_startup env) host port p' k'))"
  "fst (run_client env ops (cancelling_client p k t) s)
     = (case en_map s (p, k) of None \<Rightarrow> Ok () | Some (p', k', host, port) \<Rightarrow> fst (server_cancel (xe_startup env) host port p' k'))"
proof -
  have drop: "sn_cancel (client_drop (share_pool x)) = sn_cancel x" "sn_cancel (snd (stats_disconnect x)) = sn_cancel x"
    for x :: "('a, 'b, 'c) session"
    by (simp_all add: client_drop_def share_pool_def publish_pool_def stats_disconnect_def act_modify_def Let_def)
  have h: "handle env ops (session_of (cancelling_client p k t) s) = handle_cancel env (session_of (cancelling_client p k t) s)"
    by (simp add: handle_def act_bind_def act_get_def session_of_def)
  obtain r sn where r: "handle_cancel env (session_of (cancelling_client p k t) s) = (r, sn)" by force
  then have sn: "r = (case en_map s (p, k) of None \<Rightarrow> Ok () | Some (p', k', host, port) \<Rightarrow> fst (server_cancel (xe_startup env) host port p' k'))"
    "sn_cancel sn = (case en_map s (p, k) of None \<Rightarrow> None | Some (p', k', host, port) \<Rightarrow> snd (server_cancel (xe_startup env) host port p' k'))"
    by (auto simp: handle_cancel_def session_of_def split: option.splits prod.splits)
  have "run_client env ops (cancelling_client p k t) s = (r, e) \<Longrightarrow> en_cancel e = sn_cancel sn" for e
    by (cases r) (auto simp: run_client_def h r session_end_def drop Let_def)
  moreover have "fst (run_client env ops (cancelling_client p k t) s) = r" by (simp add: run_client_def h r Let_def)
  ultimately show "en_cancel (snd (run_client env ops (cancelling_client p k t) s))
     = (case en_map s (p, k) of None \<Rightarrow> None | Some (p', k', host, port) \<Rightarrow> snd (server_cancel (xe_startup env) host port p' k'))"
    "fst (run_client env ops (cancelling_client p k t) s)
     = (case en_map s (p, k) of None \<Rightarrow> Ok () | Some (p', k', host, port) \<Rightarrow> fst (server_cancel (xe_startup env) host port p' k'))"
    using sn by (metis prod.collapse)+
qed

text \<open>
  C24: a cancel request with the keys of a client goes to the server that client is using: a new connection
  to its address is opened and the keys of the server are written to it, nothing else.  The request also
  removes the claim of the client, so that a second request for the same query is not sent anywhere.
\<close>

theorem cancel_reaches_claimed_server:
  assumes "rd_input (en_stream s) = cancel_request process_id secret_key @ rest"
    and "en_map s (process_id, secret_key) = Some (server_process, server_key, host, port)"
    and "se_connect (xe_startup env) (host_port host port) = Ok t" "wr_budget t = None" "fl_error t = None"
    and "rd_input again = cancel_request process_id secret_key @ rest'"
  shows "\<exists>s'. client_entrypoint env ops login tls admin_only s = (Ok (), s')
    \<and> en_cancel s' = Some (t\<lparr>wr_output := wr_output t @ cancel_request server_process server_key\<rparr>)
    \<and> en_map s' = (en_map s)((process_id, secret_key) := None)
    \<and> (\<exists>s''. client_entrypoint env ops login tls admin_only (s'\<lparr>en_stream := again\<rparr>) = (Ok (), s'') \<and> en_cancel s'' = None)"
proof -
  let ?client = "cancelling_client process_id secret_key ((en_stream s)\<lparr>rd_input := rest\<rparr>)"
  define s1 where "s1 = s\<lparr>en_stream := (en_stream s)\<lparr>rd_input := rest\<rparr>\<rparr>"
  obtain r s' where run: "run_client env ops ?client s1 = (r, s')" by force
  have m: "en_map s1 (process_id, secret_key) = Some (server_process, server_key, host, port)" using assms(2) by (simp add: s1_def)
  have sent: "server_cancel (xe_startup env) host port server_process server_key
      = (Ok (), Some (t\<lparr>wr_output := wr_output t @ cancel_request server_process server_key\<rparr>))"
    using assms(3-5) by (simp add: server_cancel_def write_all_flush_def act_bind_def act_io_def stream_write_all_def stream_flush_def)
  have r: "r = Ok ()" "en_cancel s' = Some (t\<lparr>wr_output := wr_output t @ cancel_request server_process server_key\<rparr>)"
    using run_cancel [of env ops process_id secret_key "(en_stream s)\<lparr>rd_input := rest\<rparr>" s1] run m sent by simp_all
  have map: "en_map s' = (en_map s)((process_id, secret_key) := None)"
    using run_client_frees [of env ops ?client s1] run by (simp add: s1_def)
  have again: "rd_input (en_stream (s'\<lparr>en_stream := again\<rparr>)) = cancel_request process_id secret_key @ rest'" using assms(6) by simp
  define s2 where "s2 = s'\<lparr>en_stream := again\<lparr>rd_input := rest'\<rparr>\<rparr>"
  have "en_map s2 (process_id, secret_key) = None" using map by (simp add: s2_def)
  then have "fst (run_client env ops (cancelling_client process_id secret_key (again\<lparr>rd_input := rest'\<rparr>)) s2) = Ok ()"
    "en_cancel (snd (run_client env ops (cancelling_client process_id secret_key (again\<lparr>rd_input := rest'\<rparr>)) s2)) = None"
    using run_cancel [of env ops process_id secret_key "again\<lparr>rd_input := rest'\<rparr>" s2] by simp_all
  with cancel_entry [OF again, of env ops login tls admin_only] have
    "\<exists>s''. client_entrypoint env ops login tls admin_only (s'\<lparr>en_stream := again\<rparr>) = (Ok (), s'') \<and> en_cancel s'' = None"
    by (simp add: s2_def) (metis prod.collapse)
  moreover have "client_entrypoint env ops login tls admin_only s = (Ok (), s')"
    using cancel_entry [OF assms(1), of env ops login tls admin_only] run r by (simp add: s1_def)
  ultimately show ?thesis using r map by blast
qed

section \<open>What is relayed\<close>

definition client_output :: "('d, 'c, 'p) transaction \<Rightarrow> bytes" where
  "client_output s = wr_output (cl_stream (sn_client (tx_session s)))"

lemma write_all_flush_Ok: "write_all_flush bs t = (Ok x, t') \<Longrightarrow> wr_output t' = wr_output t @ bs"
  by (auto simp: write_all_flush_def act_bind_Ok_iff stream_write_all_def stream_flush_def split: option.splits if_splits)

lemma forward_to_client_writes:
  assumes "forward_to_client bs s = (Ok x, s')"
  shows "client_output s' = client_output s @ bs" "tx_server s' = tx_server s"
  using assms
  by (auto simp: forward_to_client_def on_session_Ok_iff to_client_def on_client_def act_zoom_iff client_output_def
      dest!: write_all_flush_Ok)

lemma reply_step_relays:
  assumes step: "reply_step env ops s = (Ok again, s')" and empty: "sv_buffer (tx_server s) = []"
  shows "\<exists>ms m. reads (tx_server s) (ms @ [m]) (tx_server s') \<and> client_output s' = client_output s @ concat (ms @ [m])
    \<and> sv_buffer (tx_server s') = [] \<and> (again \<longleftrightarrow> sv_data_available (tx_server s'))"
proof -
  from step obtain bytes s1 where 1: "receive_server_message env ops s = (Ok bytes, s1)" and 2: "forward_to_client bytes s1 = (Ok (), s')"
    and again: "again = sv_data_available (tx_server s')"
    by (auto simp: reply_step_def act_bind_Ok_iff is_data_available_def)
  from receive_server_message_Ok [OF 1] obtain t p where
    r: "server_recv (server_ops ops) (xe_now env t) (tx_server s, Some (cl_server_parameters (sn_client (tx_session s)))) = (Ok bytes, p)"
    and s1: "s1 = tx_put_recv p (s\<lparr>tx_session := (tx_session s)\<lparr>sn_tick := Suc (sn_tick (tx_session s))\<rparr>\<rparr>)"
    by (auto simp: tx_recv_state_def)
  obtain sv q where p: "p = (sv, q)" by force
  from server_recv_Ok [OF r [unfolded p]] empty obtain ms m where
    "reads (tx_server s) (ms @ [m]) sv" "bytes = concat (ms @ [m])" "sv_buffer sv = []" by auto
  with s1 p forward_to_client_writes [OF 2] again show ?thesis by (auto simp: client_output_def)
qed

lemma reads_trans: "reads a ms b \<Longrightarrow> reads b ns c \<Longrightarrow> reads a (ms @ ns) c"
  by (auto simp: reads_def)

lemma reply_loop_relays:
  "reply_loop env ops s = (Ok (), s') \<Longrightarrow> sv_buffer (tx_server s) = [] \<Longrightarrow>
   \<exists>ms. ms \<noteq> [] \<and> reads (tx_server s) ms (tx_server s') \<and> client_output s' = client_output s @ concat ms
     \<and> \<not> sv_data_available (tx_server s')"
proof (induction env ops s rule: reply_loop.induct)
  case (1 env ops s)
  from "1.prems"(1) obtain again s1 where st: "reply_step env ops s = (Ok again, s1)"
    and nx: "if again then reply_loop env ops s1 = (Ok (), s') else s' = s1"
    by (subst (asm) reply_loop.simps) (auto split: prod.splits outcome.splits if_splits)
  from reply_step_relays [OF st "1.prems"(2)] obtain ms m where
    m: "reads (tx_server s) (ms @ [m]) (tx_server s1)" "client_output s1 = client_output s @ concat (ms @ [m])"
      "sv_buffer (tx_server s1) = []" "again \<longleftrightarrow> sv_data_available (tx_server s1)" by blast
  show ?case
  proof (cases again)
    case True
    with nx have "reply_loop env ops s1 = (Ok (), s')" by simp
    from "1.IH" [OF st [symmetric] refl True this m(3)] obtain ns where
      "ns \<noteq> []" "reads (tx_server s1) ns (tx_server s')" "client_output s' = client_output s1 @ concat ns" "\<not> sv_data_available (tx_server s')"
      by blast
    with m(1,2) reads_trans [OF m(1)] show ?thesis by (intro exI [of _ "(ms @ [m]) @ ns"]) auto
  next
    case False
    with nx m show ?thesis by (intro exI [of _ "ms @ [m]"]) auto
  qed
qed

lemma send_server_message_Ok:
  assumes "send_server_message env message s = (Ok x, s')"
  shows "wr_output (sv_stream (tx_server s')) = wr_output (sv_stream (tx_server s)) @ message"
    "rd_input (sv_stream (tx_server s')) = rd_input (sv_stream (tx_server s))"
    "sv_buffer (tx_server s') = sv_buffer (tx_server s)" "client_output s' = client_output s"
proof -
  from assms obtain t sn where 1: "server_send (xe_now env t) message (tx_server s) = (Ok (), tx_server s')"
    and 2: "tx_session s' = (tx_session s)\<lparr>sn_tick := sn\<rparr>"
    by (auto simp: send_server_message_def act_bind_Ok_iff on_session_Ok_iff on_tx_server_iff tick_def)
  from server_send_Ok [OF 1] show "wr_output (sv_stream (tx_server s')) = wr_output (sv_stream (tx_server s)) @ message"
    "rd_input (sv_stream (tx_server s')) = rd_input (sv_stream (tx_server s))" by simp_all
  from 1 show "sv_buffer (tx_server s') = sv_buffer (tx_server s)"
    by (auto simp: server_send_def act_bind_Ok_iff on_stream_def act_zoom_iff mirror_send_def server_stats_do_def)
  from 2 show "client_output s' = client_output s" by (simp add: client_output_def)
qed

text \<open>
  C2: the pooler is transparent.  When a query has been sent and answered, the server has received exactly
  the bytes of the client's message, and the client has received exactly the bytes the server sent: one
  or more whole messages, in order, none of them changed, dropped or repeated, up to the end of the reply.
\<close>

theorem query_relayed:
  assumes "send_and_receive_loop env ops (Some message) s = (Ok (), s')" "sv_buffer (tx_server s) = []"
  shows "\<exists>ms. ms \<noteq> [] \<and> list_all framed ms
    \<and> rd_input (sv_stream (tx_server s)) = concat ms @ rd_input (sv_stream (tx_server s'))
    \<and> wr_output (sv_stream (tx_server s')) = wr_output (sv_stream (tx_server s)) @ message
    \<and> client_output s' = client_output s @ concat ms
    \<and> \<not> sv_data_available (tx_server s')"
proof -
  from assms(1) obtain s1 s2 t name where 1: "send_server_message env message s = (Ok (), s1)" and 2: "reply_loop env ops s1 = (Ok (), s2)"
    and 3: "tx_server s' = server_stats_do (server_query_stats (xe_ms env t) name) (tx_server s2)"
    and 4: "cl_stream (sn_client (tx_session s')) = cl_stream (sn_client (tx_session s2))"
    by (auto simp: send_and_receive_loop_def act_bind_Ok_iff on_session_Ok_iff tick_def client_stats_do_def client_modify_def tx_server_modify_def)
  from reply_loop_relays [OF 2] send_server_message_Ok [OF 1] assms(2) obtain ms where
    "ms \<noteq> []" "reads (tx_server s1) ms (tx_server s2)" "client_output s2 = client_output s @ concat ms" "\<not> sv_data_available (tx_server s2)"
    by auto
  with 3 4 send_server_message_Ok [OF 1] show ?thesis
    by (intro exI [of _ ms]) (auto simp: reads_def client_output_def server_stats_do_def)
qed

section \<open>Who is let in\<close>

lemma stream_read_i32_Ok: "stream_read_i32 t = (Ok len, t') \<Longrightarrow> rd_input t = put_i32 len @ rd_input t' \<and> t' = t\<lparr>rd_input := rd_input t'\<rparr>"
proof -
  assume "stream_read_i32 t = (Ok len, t')"
  then have l: "4 \<le> length (rd_input t)" and len: "len = of_nat (get_be (take 4 (rd_input t)))" and t': "t' = t\<lparr>rd_input := drop 4 (rd_input t)\<rparr>"
    by (auto simp: stream_read_i32_def stream_read_exact_def split: if_splits)
  have "put_i32 len = take 4 (rd_input t)"
    unfolding len put_i32_def by (rule word_of_get_be) (use l in simp_all)
  with t' show ?thesis by simp
qed

lemma read_password_Ok:
  assumes "read_password ci t = (Ok response, t')"
  shows "rd_input t = frame CHR ''p'' response @ rd_input t' \<and> t' = t\<lparr>rd_input := rd_input t'\<rparr>"
proof -
  from assms obtain r t2 len where 1: "rd_input t = CHR ''p'' # r"
    and 2: "stream_read_i32 (t\<lparr>rd_input := r\<rparr>) = (Ok len, t2)" and 3: "read_vec (scast (len - 4)) t2 = (Ok response, t')"
    by (auto simp: read_password_def act_bind_Ok_iff stream_read_u8_def split: list.splits if_splits)
  from 3 have "length response = unat (scast (len - 4) :: usize)" and 4: "rd_input t2 = response @ rd_input t'" "t' = t2\<lparr>rd_input := rd_input t'\<rparr>"
    by (auto simp: read_vec_def stream_read_exact_def split: if_splits)
  then have "(of_nat (length response) :: i32) = ucast (scast (len - 4) :: usize)" by (simp add: unsigned_def)
  then have "of_nat (length response) + 4 = len" by (simp only: ucast_scast_i32) simp
  with 1 4 stream_read_i32_Ok [OF 2] show ?thesis
    by (auto simp: frame_def)
qed

text \<open>
  The client has answered the challenge with \<open>response\<close>, and that is all it has sent.
\<close>

definition answered_with :: "bytes \<Rightarrow> ('d, 'p) login \<Rightarrow> ('d, 'p) login \<Rightarrow> bool" where
  "answered_with response s s' \<longleftrightarrow> rd_input (lg_stream s) = frame CHR ''p'' response @ rd_input (lg_stream s')"

text \<open>
  The responses that prove a user: the hash of the configured password, the hash the pool has fetched
  before, and a hash fetched for this login.
\<close>

definition proves_user :: "login_env \<Rightarrow> string \<Rightarrow> ('d, 'p) connection_pool \<Rightarrow> bytes \<Rightarrow> bool" where
  "proves_user env username pool response \<longleftrightarrow>
     (case u_password (ps_user (cp_settings pool)) of
        Some password \<Rightarrow> response = md5_hash_password (le_md5 env) username password (le_salt env)
      | None \<Rightarrow> \<exists>hash. cp_auth_hash pool = Some hash \<and> response = md5_hash_second_pass (le_md5 env) hash (le_salt env))
     \<or> (\<exists>attempt hash. attempt \<le> 1 \<and> refetch env attempt pool = Ok hash \<and> response = md5_hash_second_pass (le_md5 env) hash (le_salt env))"

lemma on_lg_stream_Ok_iff: "on_lg_stream m s = (r, s') \<longleftrightarrow> (\<exists>t. m (lg_stream s) = (r, t) \<and> s' = s\<lparr>lg_stream := t\<rparr>)"
  by (simp add: on_lg_stream_def act_zoom_iff)

lemma refuse_not_Ok [simp]: "refuse username e s \<noteq> (Ok x, s')"
  by (simp add: refuse_def act_bind_Ok_iff)

lemma write_all_keeps_input: "write_all bs t = (r, t') \<Longrightarrow> rd_input t' = rd_input t"
  by (rule keeps_all [OF keeps_write_all(1)])

lemma md5_challenge_Ok: "md5_challenge salt t = (Ok x, t') \<Longrightarrow> x = salt \<and> rd_input t' = rd_input t"
  by (auto simp: md5_challenge_def act_bind_Ok_iff dest: write_all_keeps_input)

lemma authenticate_admin_Ok:
  assumes "authenticate_admin env config username ci s = (Ok (), s')"
  shows "g_admin_auth_type (cf_general config) = Trust \<and> s' = s
    \<or> answered_with (md5_hash_password (le_md5 env) (g_admin_username (cf_general config)) (g_admin_password (cf_general config)) (le_salt env)) s s'"
  using assms
  by (auto simp: authenticate_admin_def answered_with_def act_bind_Ok_iff on_lg_stream_Ok_iff Let_def
      dest!: md5_challenge_Ok read_password_Ok split: auth_type.splits if_splits)

lemma set_auth_hash_Ok: "set_auth_hash i hash s = (Ok x, s') \<Longrightarrow> lg_stream s' = lg_stream s"
  by (auto simp: set_auth_hash_def on_lg_pools_def)

lemma expected_response_Ok:
  assumes "expected_response env config username ci i pool (le_salt env) s = (Ok hash, s')"
  shows "proves_user env username pool hash \<and> lg_stream s' = lg_stream s"
  using assms
  by (auto simp: expected_response_def proves_user_def act_bind_Ok_iff dest: set_auth_hash_Ok
      split: option.splits outcome.splits if_splits)

lemma check_response_Ok:
  assumes "check_response env username ci i pool (le_salt env) hash response s = (Ok (), s')"
  shows "(response = hash \<or> proves_user env username pool response) \<and> lg_stream s' = lg_stream s"
  using assms
  by (auto simp: check_response_def proves_user_def dest: set_auth_hash_Ok split: option.splits outcome.splits if_splits)

lemma authenticate_user_Ok:
  assumes "authenticate_user env config username ci i pool s = (Ok (), s')"
  shows "u_auth_type (ps_user (cp_settings pool)) = Trust \<and> s' = s
    \<or> (\<exists>response. answered_with response s s' \<and> proves_user env username pool response)"
proof (cases "u_auth_type (ps_user (cp_settings pool))")
  case MD5
  with assms obtain s1 s2 s3 salt response hash where
    "on_lg_stream (md5_challenge (le_salt env)) s = (Ok salt, s1)" "on_lg_stream (read_password ci) s1 = (Ok response, s2)"
    "expected_response env config username ci i pool salt s2 = (Ok hash, s3)" "check_response env username ci i pool salt hash response s3 = (Ok (), s')"
    by (auto simp: authenticate_user_def act_bind_Ok_iff)
  then show ?thesis
    by (auto simp: on_lg_stream_Ok_iff answered_with_def dest!: md5_challenge_Ok read_password_Ok expected_response_Ok check_response_Ok)
qed (use assms in \<open>simp add: authenticate_user_def\<close>)

lemma own_pool_stream: "own_pool i m s = (r, s') \<Longrightarrow> lg_stream s' = lg_stream s"
  by (auto simp: own_pool_def split: option.splits prod.splits)

lemma login_user_Ok:
  assumes "login_user env config pool_name username ci s = (Ok (transaction_mode, prepared, parameters), s')"
  shows "\<exists>pool. get_pool pool_name username (lg_pools s) = Some pool
    \<and> (transaction_mode \<longleftrightarrow> ps_pool_mode (cp_settings pool) = Transaction)
    \<and> (prepared \<longleftrightarrow> transaction_mode \<and> cp_prepared_statement_cache pool \<noteq> None)
    \<and> (u_auth_type (ps_user (cp_settings pool)) = Trust \<and> lg_stream s' = lg_stream s
       \<or> (\<exists>response. answered_with response s s' \<and> proves_user env username pool response))"
proof -
  from assms obtain pool s1 where pool: "get_pool pool_name username (lg_pools s) = Some pool"
    and auth: "authenticate_user env config username ci (pool_identifier_new pool_name username) pool s = (Ok (), s1)"
    and modes: "transaction_mode \<longleftrightarrow> ps_pool_mode (cp_settings pool) = Transaction"
      "prepared \<longleftrightarrow> transaction_mode \<and> cp_prepared_statement_cache pool \<noteq> None"
    and stream: "lg_stream s' = lg_stream s1"
    by (fastforce simp: login_user_def act_bind_Ok_iff act_when_Ok_iff Let_def dest: own_pool_stream
        split: option.splits if_splits prod.splits outcome.splits)
  from authenticate_user_Ok [OF auth] stream show ?thesis
    by (intro exI [of _ pool]) (auto simp: pool modes answered_with_def)
qed

lemma client_welcome_keeps_input: "client_welcome env parameters t = (r, t') \<Longrightarrow> rd_input t' = rd_input t"
proof -
  have "keeps (\<lambda>t. rd_input t = i) (client_welcome env parameters)" for i
    unfolding client_welcome_def auth_ok_def backend_key_data_def send_ready_for_query_def by (intro keeps_intro)
  then show "client_welcome env parameters t = (r, t') \<Longrightarrow> rd_input t' = rd_input t" by (rule keeps_all)
qed

text \<open>
  C1: authentication is safe.  A client that is let in named a user, and either the account asks for no
  password, or the client answered the challenge of this login with a response that proves the password:
  of the administrator for the administration databases, of the user of an existing pool for all others.
  In administration mode no one else is let in.
\<close>

theorem client_startup_authenticates:
  assumes "client_startup env config bytes admin_only s = (Ok c, s')"
  shows "\<exists>parameters. parse_startup bytes = Ok parameters \<and> parameters ''user'' = Some (cl_username c)
    \<and> cl_pool_name c = startup_pool_name parameters (cl_username c)
    \<and> (cl_admin c \<longleftrightarrow> cl_pool_name c \<in> {''pgcat'', ''pgbouncer''}) \<and> (admin_only \<longrightarrow> cl_admin c)
    \<and> (if cl_admin c
       then g_admin_auth_type (cf_general config) = Trust
         \<or> answered_with (md5_hash_password (le_md5 env) (g_admin_username (cf_general config)) (g_admin_password (cf_general config)) (le_salt env)) s s'
       else \<exists>pool. get_pool (cl_pool_name c) (cl_username c) (lg_pools s) = Some pool
         \<and> (u_auth_type (ps_user (cp_settings pool)) = Trust
            \<or> (\<exists>response. answered_with response s s' \<and> proves_user env (cl_username c) pool response)))"
proof -
  from assms obtain parameters username where p: "parse_startup bytes = Ok parameters" "parameters ''user'' = Some username"
    by (auto simp: client_startup_def act_bind_Ok_iff split: option.splits)
  define pool_name where "pool_name = startup_pool_name parameters username"
  define ci where "ci = client_identifier_new (startup_application_name parameters) username pool_name"
  from assms p obtain tm prep sp s1 t where login: "(if admin_database pool_name then login_admin env config username ci
        else login_user env config pool_name username ci) s = (Ok (tm, prep, sp), s1)"
    and greet: "client_welcome env (set_from_hashmap (parameter_pairs env parameters) False sp) (lg_stream s1) = (Ok (), t)"
    and s': "s' = s1\<lparr>lg_stream := t\<rparr>" and adm: "admin_only \<longrightarrow> admin_database pool_name"
    and c: "cl_username c = username" "cl_pool_name c = pool_name" "cl_admin c = admin_database pool_name"
    by (auto simp: client_startup_def act_bind_Ok_iff Let_def on_lg_stream_Ok_iff pool_name_def [symmetric] ci_def client_of_def
        split: if_splits)
  have input: "rd_input (lg_stream s') = rd_input (lg_stream s1)" using client_welcome_keeps_input [OF greet] s' by simp
  have admin: "admin_database pool_name \<longleftrightarrow> pool_name \<in> {''pgcat'', ''pgbouncer''}"
    by (auto simp: admin_database_def)
  show ?thesis
  proof (cases "admin_database pool_name")
    case True
    with login have "authenticate_admin env config username ci s = (Ok (), s1)"
      by (auto simp: login_admin_def act_bind_Ok_iff)
    from authenticate_admin_Ok [OF this] True p c adm admin input show ?thesis
      by (auto simp: pool_name_def answered_with_def)
  next
    case False
    with login login_user_Ok [of env config pool_name username ci s tm prep sp s1] p c adm admin input show ?thesis
      by (auto simp: pool_name_def answered_with_def)
  qed
qed

lemma read_password_frame:
  assumes "rd_input t = frame CHR ''p'' response @ rest" "length response < 2147483648"
  shows "read_password ci t = (Ok response, t\<lparr>rd_input := rest\<rparr>)"
proof -
  have n: "unat (scast (of_nat (length response) + 4 - 4 :: i32) :: usize) = length response"
    using assms(2) by (simp add: unat_scast_i32)
  have "stream_read_i32 (t\<lparr>rd_input := put_i32 (of_nat (length response) + 4) @ response @ rest\<rparr>)
      = (Ok (of_nat (length response) + 4), t\<lparr>rd_input := response @ rest\<rparr>)" by simp
  then show ?thesis
    using assms n by (simp add: read_password_def act_bind_def act_io_def stream_read_u8_def frame_def read_vec_def stream_read_exact_def)
qed

definition welcome_bytes :: "login_env \<Rightarrow> server_parameters \<Rightarrow> bytes" where
  "welcome_bytes env parameters =
     put_u8 CHR ''R'' @ put_i32 8 @ put_i32 0 @ server_parameters_bytes parameters
     @ ''K'' @ put_i32 12 @ put_i32 (le_process_id env) @ put_i32 (le_secret_key env) @ ready_for_query False"

lemma client_welcome_unlimited:
  "wr_budget t = None \<Longrightarrow> client_welcome env parameters t = (Ok (), t\<lparr>wr_output := wr_output t @ welcome_bytes env parameters\<rparr>)"
  by (simp add: client_welcome_def welcome_bytes_def auth_ok_def backend_key_data_def send_ready_for_query_def)

lemma startup_accepts:
  assumes p: "parse_startup bytes = Ok parameters" "parameters ''user'' = Some user"
    and name: "pool_name = startup_pool_name parameters user" "\<not> admin_database pool_name" "\<not> admin_only"
    and pool: "get_pool pool_name user (lg_pools s) = Some pool" "u_auth_type (ps_user (cp_settings pool)) = MD5"
      "u_password (ps_user (cp_settings pool)) = Some password" "cp_validated pool"
    and response: "response = md5_hash_password (le_md5 env) user password (le_salt env)" "length response < 2147483648"
    and stream: "rd_input (lg_stream s) = frame CHR ''p'' response @ rest" "wr_budget (lg_stream s) = None"
  shows "\<exists>c. client_startup env config bytes admin_only s = (Ok c, s\<lparr>lg_stream := (lg_stream s)\<lparr>rd_input := rest,
        wr_output := wr_output (lg_stream s) @ (put_u8 CHR ''R'' @ put_i32 12 @ put_i32 5 @ le_salt env) @ welcome_bytes env (cl_server_parameters c)\<rparr>\<rparr>)
     \<and> cl_username c = user \<and> cl_pool_name c = pool_name \<and> \<not> cl_admin c"
proof -
  define t where "t = (lg_stream s)\<lparr>wr_output := wr_output (lg_stream s) @ (put_u8 CHR ''R'' @ put_i32 12 @ put_i32 5 @ le_salt env)\<rparr>"
  have 1: "md5_challenge (le_salt env) (lg_stream s) = (Ok (le_salt env), t)"
    using stream by (simp add: md5_challenge_def t_def act_return_def)
  have 2: "read_password ci t = (Ok response, t\<lparr>rd_input := rest\<rparr>)" for ci
    by (rule read_password_frame) (simp_all add: t_def stream response(2))
  have auth: "authenticate_user env config user ci i pool s = (Ok (), s\<lparr>lg_stream := t\<lparr>rd_input := rest\<rparr>\<rparr>)" for ci i
    by (simp add: authenticate_user_def pool act_bind_def on_lg_stream_def act_zoom_def 1 2 expected_response_def check_response_def
        response(1) act_return_def)
  have login: "login_user env config pool_name user ci s = (Ok (ps_pool_mode (cp_settings pool) = Transaction,
      ps_pool_mode (cp_settings pool) = Transaction \<and> cp_prepared_statement_cache pool \<noteq> None, cp_original_server_parameters pool),
      s\<lparr>lg_stream := t\<lparr>rd_input := rest\<rparr>\<rparr>)" for ci
    using pool by (simp add: login_user_def act_bind_def act_get_def auth Let_def own_pool_def get_pool_def act_when_def act_return_def fun_upd_idem)
  show ?thesis
    using p name(2,3) stream
    by (simp add: name(1) [symmetric] client_startup_def act_bind_def act_lift_def Let_def login on_lg_stream_def act_zoom_def client_welcome_unlimited t_def
        act_get_def client_of_def)
qed

text \<open>
  C13: a user who knows the configured password is let in.  Outside administration mode, a client asks for a
  database whose pool has been validated, as a user of that pool whose account asks for an MD5 password
  and has one configured.  After the challenge and a correct response, the client is told
  AuthenticationOk, the parameters, its keys and ReadyForQuery, and nothing else, and nothing more of
  its input is read.  (A pool that has not been validated is connected to first, and a client of the
  administration database is another case.)
\<close>

theorem client_startup_accepts:
  assumes "parse_startup bytes = Ok parameters" "parameters ''user'' = Some user"
    and "pool_name = startup_pool_name parameters user" "\<not> admin_database pool_name" "\<not> admin_only"
    and "get_pool pool_name user (lg_pools s) = Some pool" "u_auth_type (ps_user (cp_settings pool)) = MD5"
      "u_password (ps_user (cp_settings pool)) = Some password" "cp_validated pool"
    and "response = md5_hash_password (le_md5 env) user password (le_salt env)" "length response < 2147483648"
    and "rd_input (lg_stream s) = frame CHR ''p'' response @ rest" "wr_budget (lg_stream s) = None"
  shows "\<exists>c. client_startup env config bytes admin_only s = (Ok c, s\<lparr>lg_stream := (lg_stream s)\<lparr>rd_input := rest,
        wr_output := wr_output (lg_stream s) @ (put_u8 CHR ''R'' @ put_i32 12 @ put_i32 5 @ le_salt env) @ welcome_bytes env (cl_server_parameters c)\<rparr>\<rparr>)
     \<and> cl_username c = user \<and> cl_pool_name c = pool_name \<and> \<not> cl_admin c"
  by (rule startup_accepts [OF assms])

section \<open>How a connection goes back\<close>

lemma transaction_read_message:
  assumes "tx_input s = message @ rest" "framed message"
    and "g_idle_client_in_transaction_timeout (cf_general (pr_config (sn_process (tx_session s)))) = 0"
  shows "\<exists>sn. transaction_read env ops s = (Ok (Some message), s\<lparr>tx_session := sn\<rparr>)
    \<and> sn_returned sn = sn_returned (tx_session s)
    \<and> sn_client sn = (sn_client (tx_session s))\<lparr>cl_stream := (cl_stream (sn_client (tx_session s)))\<lparr>rd_input := rest\<rparr>\<rparr>"
proof -
  have "read_message (cl_stream (sn_client (tx_session s))) = (Ok message, (cl_stream (sn_client (tx_session s)))\<lparr>rd_input := rest\<rparr>)"
    using assms by (intro read_message_framed) (simp_all add: tx_input_def client_input_def)
  then show ?thesis
    using assms(3)
    by (intro exI [of _ "(tx_session s)\<lparr>sn_tick := Suc (sn_tick (tx_session s)),
          sn_client := (sn_client (tx_session s))\<lparr>cl_stream := (cl_stream (sn_client (tx_session s)))\<lparr>rd_input := rest\<rparr>\<rparr>\<rparr>"])
       (simp add: transaction_read_def act_bind_def on_session_def act_zoom_def tick_def act_update_def act_get_def act_catch_def
        client_read_def to_client_def on_client_def act_return_def)
qed

lemma unknown_statement_Err:
  assumes "wr_budget (cl_stream (sn_client s)) = None"
  shows "\<exists>e s'. unknown_statement name s = (Err (ClientError e), s') \<and> sn_returned s' = sn_returned s"
proof -
  have "\<exists>t. error_response m (cl_stream (sn_client s)) = (Ok (), t)" for m
    using assms by (simp add: error_response_def error_response_terminal_def send_ready_for_query_def Let_def)
  then show ?thesis
    by (auto simp: unknown_statement_def act_bind_def to_client_def on_client_def act_zoom_def act_lift_def split: prod.splits outcome.splits)
       (metis fst_conv outcome.distinct)+
qed

text \<open>
  C26: an error inside a transaction.  When a client that is inside a transaction binds a statement it has
  not prepared, the session ends with an error and the connection goes back to its pool exactly as it is:
  no clean-up is done and it is not marked as bad, so that its open transaction is handed to the next
  client.
\<close>

theorem unknown_statement_leaves_transaction:
  assumes "client_input s = frame CHR ''B'' body @ rest" "length body + 4 < 2147483648"
    and "cl_prepared_statements_enabled (sn_client s)" "bind_get_name (frame CHR ''B'' body) = Ok name"
      "cl_prepared_statements (sn_client s) name = None"
    and "g_idle_client_in_transaction_timeout (cf_general (pr_config (sn_process s))) = 0"
      "wr_budget (cl_stream (sn_client s)) = None"
  shows "\<exists>e s'. with_connection (transaction_loop env ops) (server, address) s = (Err (ClientError e), s')
    \<and> sn_returned s' = sn_returned s @ [server]"
proof -
  let ?s = "\<lparr> tx_session = s, tx_server = server, tx_address = address \<rparr>" and ?m = "frame CHR ''B'' body"
  have "framed ?m" using assms(2) by blast
  with transaction_read_message [of ?s ?m rest env ops] assms(1,6) obtain sn where
    r: "transaction_read env ops ?s = (Ok (Some ?m), ?s\<lparr>tx_session := sn\<rparr>)" and "sn_returned sn = sn_returned s"
    and sn: "sn_client sn = (sn_client s)\<lparr>cl_stream := (cl_stream (sn_client s))\<lparr>rd_input := rest\<rparr>\<rparr>"
    by (auto simp: tx_input_def)
  from unknown_statement_Err [of sn name] sn assms(7) obtain e s1 where
    u: "unknown_statement name sn = (Err (ClientError e), s1)" "sn_returned s1 = sn_returned sn" by auto
  have "buffer_bind ?m sn = (Err (ClientError e), s1)"
    using assms(3-5) sn u by (simp add: buffer_bind_def act_bind_def act_get_def act_lift_def)
  then have "buffer_message env ops False ?m sn = (Err (ClientError e), s1)"
    by (simp add: buffer_message_def frame_def Let_def act_bind_def act_when_def act_return_def)
  then have "transaction_round env ops ?s = (Err (ClientError e), ?s\<lparr>tx_session := s1\<rparr>)"
    using r by (simp add: transaction_round_def act_bind_def transaction_message_def frame_def on_session_def act_zoom_def)
  then have "transaction_loop env ops ?s = (Err (ClientError e), ?s\<lparr>tx_session := s1\<rparr>)"
    by (subst transaction_loop.simps) simp
  with u \<open>sn_returned sn = sn_returned s\<close> show ?thesis by (simp add: with_connection_def)
qed

lemma transaction_loop_leaves: "transaction_loop env ops s = (Ok c, s') \<Longrightarrow> c \<noteq> Continue"
proof (induction env ops s rule: transaction_loop.induct)
  case (1 env ops s)
  obtain r s1 where r: "transaction_round env ops s = (r, s1)" by force
  with "1.prems" obtain c1 where ok: "r = Ok c1"
    by (subst (asm) transaction_loop.simps) (cases r; simp)
  show ?case
  proof (cases "c1 = Continue")
    case True
    with "1.prems" r ok have "transaction_loop env ops s1 = (Ok c, s')" by (subst (asm) transaction_loop.simps) simp
    with "1.IH" [OF r [symmetric] ok True] show ?thesis by simp
  next
    case False
    with "1.prems" r ok show ?thesis by (subst (asm) transaction_loop.simps) simp
  qed
qed

text \<open>
  C5: a connection goes back clean.  When a client in transaction mode has finished a transaction and gives
  its connection back, a transaction that was left open has been rolled back, and the reset query for
  what was altered in the session has been sent exactly if something was altered and resetting is
  enabled; nothing else was sent.  What was altered is at least what the connection had noted at the
  end of the transaction, and just that if there was nothing to roll back.  No clean-up is left to be
  done if resetting is enabled, and the client no longer has a claim on the connection.
\<close>

theorem connection_given_back:
  assumes "use_connection env ops ast message s = (Ok Continue, s')"
  shows "\<exists>s1. act_bind claim_server (\<lambda>_. act_bind (tx_sync_parameters env ops) (\<lambda>_. transaction env ops ast message)) s = (Ok Break, s1)
    \<and> (sv_cleanup_connections (tx_server s1) \<longrightarrow> \<not> needs_cleanup (sv_cleanup_state (tx_server s')))
    \<and> (\<exists>c. cleanup_le (sv_cleanup_state (tx_server s1)) c \<and> (sv_in_transaction (tx_server s1) \<or> c = sv_cleanup_state (tx_server s1))
        \<and> wr_output (sv_stream (tx_server s')) = wr_output (sv_stream (tx_server s1))
            @ (if sv_in_transaction (tx_server s1) then simple_query ''ROLLBACK'' else [])
            @ (if sv_cleanup_connections (tx_server s1) \<and> needs_cleanup c then simple_query (reset_string c) else []))
    \<and> sn_map (tx_session s') (own_key (tx_session s')) = None \<and> \<not> cl_connected_to_server (sn_client (tx_session s'))"
proof -
  from assms obtain s2 s3 s1 c where 1: "claim_server s = (Ok (), s2)" "tx_sync_parameters env ops s2 = (Ok (), s3)"
    and 2: "transaction env ops ast message s3 = (Ok c, s1)" and 3: "c \<noteq> Return" "give_back env ops s1 = (Ok (), s')"
    by (auto simp: use_connection_def act_bind_Ok_iff split: if_splits)
  have "c \<noteq> Continue" using 2 by (auto simp: transaction_def act_bind_Ok_iff dest: transaction_loop_leaves split: if_splits)
  with 3(1) have c: "c = Break" by (cases c) auto
  from 3(2) obtain t sv where clean: "checkin_cleanup (server_ops ops) (xe_now env t) (tx_server s1) = (Ok (), sv)"
    and s': "tx_server s' = server_stats_do server_idle sv" "sn_map (tx_session s') (own_key (tx_session s')) = None"
      "\<not> cl_connected_to_server (sn_client (tx_session s'))"
    by (auto simp: give_back_def tx_checkin_cleanup_def act_bind_Ok_iff on_session_Ok_iff on_tx_server_iff tx_server_modify_def
        client_modify_def client_stats_do_def release_def own_key_def)
  have "act_bind claim_server (\<lambda>_. act_bind (tx_sync_parameters env ops) (\<lambda>_. transaction env ops ast message)) s = (Ok Break, s1)"
    using 1 2 c by (auto simp: act_bind_Ok_iff)
  with checkin_cleanup_Ok [OF clean] s' show ?thesis
    by (intro exI [of _ s1]) (simp add: server_stats_do_def)
qed

section \<open>Plugins\<close>

lemma run_plugins_Ok: "execute_plugins (xe_relations env) (xe_render env) ast (sn_router s) = Ok output \<Longrightarrow> run_plugins env ast s = (Ok (Some output), s)"
  by (simp add: run_plugins_def act_get_def)

lemma parse_query_Ok: "router_parse (xe_parse env) message (sn_router s) = Ok ast \<Longrightarrow> parse_query env message s = (Ok (Some ast), s)"
  by (simp add: parse_query_def act_get_def)

lemma parser_enabled_eq: "parser_enabled s = (Ok (query_parser_enabled (sn_router s)), s)"
  by (simp add: parser_enabled_def act_get_def)

text \<open>The state of a session in which the client has been told an error.\<close>

definition told :: "string \<Rightarrow> ('d, 'c, 'p) session \<Rightarrow> ('d, 'c, 'p) session" where
  "told e s = snd (to_client (error_response e) s)"

lemma told_Ok: "wr_budget (cl_stream (sn_client s)) = None \<Longrightarrow> to_client (error_response e) s = (Ok (), told e s)"
  by (simp add: told_def to_client_def on_client_def act_zoom_def error_response_def error_response_terminal_def send_ready_for_query_def
      Let_def)

text \<open>
  C23: a query that a plugin denies is not sent anywhere.  The client is told the error and nothing else
  happens: outside a transaction no connection is taken from the pool, and inside a transaction the
  connection is not touched.
\<close>

theorem denied_query_not_sent:
  assumes "hd message = CHR ''Q''" "handle_custom_protocol env message s = (Ok False, s1)"
    and "query_parser_enabled (sn_router s1)" "router_parse (xe_parse env) message (sn_router s1) = Ok ast"
      "execute_plugins (xe_relations env) (xe_render env) ast (sn_router s1) = Ok (Deny error)"
    and "wr_budget (cl_stream (sn_client s1)) = None"
  shows "user_message env ops message s = (Ok Continue, told error s1)
    \<and> transaction_message env ops None message \<lparr> tx_session = s1, tx_server = server, tx_address = address \<rparr>
        = (Ok Continue, \<lparr> tx_session = told error s1, tx_server = server, tx_address = address \<rparr>)"
proof
  note steps = assms(1,3) parser_enabled_eq [of s1] parse_query_Ok [OF assms(4)] run_plugins_Ok [OF assms(5)] told_Ok [OF assms(6)]
  show "user_message env ops message s = (Ok Continue, told error s1)"
    using steps assms(2) by (simp add: user_message_def initial_query_def plugin_reply_def act_bind_def act_return_def)
  have "query_answered env None message s1 = (Ok True, told error s1)"
    using steps by (simp add: query_answered_def plugin_reply_def act_bind_def act_return_def)
  then show "transaction_message env ops None message \<lparr> tx_session = s1, tx_server = server, tx_address = address \<rparr>
      = (Ok Continue, \<lparr> tx_session = told error s1, tx_server = server, tx_address = address \<rparr>)"
    using assms(1) by (simp add: transaction_message_def tx_query_def on_session_def act_zoom_def act_bind_def act_return_def)
qed

lemma push_extended_simps [simp]:
  "push_extended d s = (r, s') \<longleftrightarrow> r = Ok () \<and> s' = s\<lparr>sn_client := (sn_client s)\<lparr>cl_extended := cl_extended (sn_client s) @ [d]\<rparr>\<rparr>"
  by (auto simp: push_extended_def client_modify_def)

lemma store_statement_iff:
  "store_statement env ops parse s = (r, s') \<longleftrightarrow>
     (\<exists>q pool counter. register_parse_to_cache (pool_ops ops) (parse_get_hash (xe_hash env) parse) parse (sn_pool s, sn_counter s) = (q, pool, counter)
        \<and> r = Ok q \<and> s' = s\<lparr>sn_pool := pool, sn_counter := counter\<rparr>)"
  by (auto simp: store_statement_def act_update_def split: prod.splits)

text \<open>The two ways in which a Parse message is buffered.\<close>

lemma buffer_parse_Ok:
  assumes "buffer_parse env ops message s = (Ok x, s')"
  shows "if cl_prepared_statements_enabled (sn_client s)
    then \<exists>name parse q pool counter data. parse_get_name message = Ok name \<and> parse_try_from message = Ok parse \<and> parse_to_bytes q = Ok data
      \<and> register_parse_to_cache (pool_ops ops) (parse_get_hash (xe_hash env) parse) parse (sn_pool s, sn_counter s) = (Some q, pool, counter)
      \<and> s' = s\<lparr>sn_pool := pool, sn_counter := counter, sn_client := (sn_client s)\<lparr>
          cl_prepared_statements := (cl_prepared_statements (sn_client s))(name \<mapsto> (q, parse_get_hash (xe_hash env) parse)),
          cl_extended := cl_extended (sn_client s) @ [ExtParse data (Some (q, parse_get_hash (xe_hash env) parse))]\<rparr>\<rparr>
    else s' = s\<lparr>sn_client := (sn_client s)\<lparr>cl_extended := cl_extended (sn_client s) @ [ExtParse message None]\<rparr>\<rparr>"
proof (cases "cl_prepared_statements_enabled (sn_client s)")
  case True
  with assms obtain name parse q s1 where 1: "parse_get_name message = Ok name" "parse_try_from message = Ok parse"
    "store_statement env ops parse s = (Ok q, s1)" and 2: "(case q of
         None \<Rightarrow> act_lift (Err (ClientError (''Could not store Prepared statement '' @ backquoted name)))
       | Some new_parse \<Rightarrow>
           act_bind (client_modify (\<lambda>c. c\<lparr>cl_prepared_statements := (cl_prepared_statements c)(name \<mapsto> (new_parse, parse_get_hash (xe_hash env) parse))\<rparr>)) (\<lambda>_.
           act_bind (act_lift (parse_to_bytes new_parse)) (\<lambda>data.
           push_extended (create_new_parse data (Some (new_parse, parse_get_hash (xe_hash env) parse)))))) s1 = (Ok x, s')"
    unfolding buffer_parse_def
    by (auto simp only: act_bind_Ok_iff act_get_iff act_lift_iff Let_def outcome.inject not_True_eq_False if_False)
  from 2 obtain p where q: "q = Some p" by (cases q) simp_all
  with 1 2 True show ?thesis
    by (auto simp: store_statement_iff act_bind_Ok_iff client_modify_def create_new_parse_def)
next
  case False
  with assms show ?thesis by (simp add: buffer_parse_def act_bind_Ok_iff create_new_parse_def)
qed

lemma buffer_parse_appends:
  assumes "buffer_parse env ops message s = (Ok x, s')"
  shows "sn_plugin s' = sn_plugin s \<and> (\<exists>d. cl_extended (sn_client s') = cl_extended (sn_client s) @ [d])"
  using buffer_parse_Ok [OF assms] by (auto split: if_splits)

text \<open>
  C25: a denied statement is forgotten.  When a plugin has denied a Parse message and the client sends
  another Parse message that the plugins allow before it asks for the results, the denial is
  overwritten, and the messages of the denied statement stay in the buffer, to be sent at Sync.
\<close>

theorem denial_forgotten:
  assumes "sn_plugin s = Some (Deny error)" "hd message = CHR ''P''"
    and "query_parser_enabled (sn_router s)" "router_parse (xe_parse env) message (sn_router s) = Ok ast"
      "execute_plugins (xe_relations env) (xe_render env) ast (sn_router s) = Ok Allow"
    and "buffer_message env ops False message s = (Ok buffered, s')"
  shows "sn_plugin s' = Some Allow \<and> sync_plugin s' = (Ok False, s')
    \<and> (\<exists>d. cl_extended (sn_client s') = cl_extended (sn_client s) @ [d])"
proof -
  have "parse_plugins env False message s = (Ok (), s\<lparr>sn_plugin := Some Allow\<rparr>)"
    using assms(3) parser_enabled_eq [of s] parse_query_Ok [OF assms(4)] run_plugins_Ok [OF assms(5)]
    by (simp add: parse_plugins_def act_when_def act_bind_def act_modify_def act_return_def)
  with assms(2,6) have "buffer_parse env ops message (s\<lparr>sn_plugin := Some Allow\<rparr>) = (Ok (), s')"
    by (auto simp: buffer_message_def Let_def act_bind_Ok_iff)
  from buffer_parse_appends [OF this] show ?thesis
    by (simp add: sync_plugin_def act_bind_def act_get_def plugin_reply_def act_return_def act_when_def)
qed

section \<open>Prepared statements of a session\<close>

definition generated :: "usize \<Rightarrow> string \<Rightarrow> bool" where
  "generated counter name \<longleftrightarrow> (\<exists>n < unat counter. name = ''PGCAT_'' @ show_nat n)"

definition statement_ok :: "(string \<Rightarrow> u64) \<Rightarrow> usize \<Rightarrow> parse_msg \<times> u64 \<Rightarrow> bool" where
  "statement_ok hasher counter = (\<lambda>(p, h). parse_get_hash hasher p = h \<and> generated counter (p_name p))"

text \<open>
  A buffered message.  With prepared statements, a Parse, Bind or Describe message names a generated
  statement, unless it describes a portal; without them, it is not rewritten.
\<close>

fun item_ok :: "(string \<Rightarrow> u64) \<Rightarrow> usize \<Rightarrow> bool \<Rightarrow> extended_protocol_data \<Rightarrow> bool" where
  "item_ok hasher counter enabled (ExtParse data None) = (\<not> enabled)"
| "item_ok hasher counter enabled (ExtParse data (Some st)) = (enabled \<and> statement_ok hasher counter st \<and> parse_to_bytes (fst st) = Ok data)"
| "item_ok hasher counter enabled (ExtBind data None) = (\<not> enabled)"
| "item_ok hasher counter enabled (ExtBind data (Some _)) = (enabled \<and> (\<exists>n. bind_get_name data = Ok n \<and> generated counter n))"
| "item_ok hasher counter enabled (ExtDescribe data None) =
     (enabled \<longrightarrow> (\<exists>d. describe_try_from data = Ok d \<and> d_target d = CHR ''P''))"
| "item_ok hasher counter enabled (ExtDescribe data (Some _)) =
     (enabled \<and> (\<exists>d. describe_try_from data = Ok d \<and> d_target d \<noteq> CHR ''P'' \<and> generated counter (d_statement_name d)))"
| "item_ok hasher counter enabled (ExtExecute data) = True"
| "item_ok hasher counter enabled (ExtClose data close) = (close_try_from data = Ok close)"

fun item_data :: "extended_protocol_data \<Rightarrow> bytes" where
  "item_data (ExtParse data _) = data"
| "item_data (ExtBind data _) = data"
| "item_data (ExtDescribe data _) = data"
| "item_data (ExtExecute data) = data"
| "item_data (ExtClose data _) = data"

definition session_wf :: "('p \<Rightarrow> u64 \<rightharpoonup> parse_msg) \<Rightarrow> (string \<Rightarrow> u64) \<Rightarrow> ('d, 'c, 'p) session \<Rightarrow> bool" where
  "session_wf entries hasher s \<longleftrightarrow>
     (\<forall>cache. cp_prepared_statement_cache (sn_pool s) = Some cache \<longrightarrow> cache_inv hasher (entries cache) (sn_counter s))
     \<and> (\<forall>name st. cl_prepared_statements (sn_client s) name = Some st \<longrightarrow> statement_ok hasher (sn_counter s) st)
     \<and> list_all (item_ok hasher (sn_counter s) (cl_prepared_statements_enabled (sn_client s))) (cl_extended (sn_client s))"

lemma generated_wf: "generated counter name \<Longrightarrow> wf_cstring name"
  by (auto simp: generated_def wf_cstring_def show_nat_no_zero intro!: utf8_ascii)

lemma generated_mono: "generated c name \<Longrightarrow> unat c \<le> unat c' \<Longrightarrow> generated c' name"
  unfolding generated_def using less_le_trans by blast

lemma item_ok_mono: "item_ok hasher c enabled d \<Longrightarrow> unat c \<le> unat c' \<Longrightarrow> item_ok hasher c' enabled d"
  by (induction hasher c enabled d rule: item_ok.induct) (auto simp: statement_ok_def intro: generated_mono)

lemma bind_rename_name:
  assumes "bind_rename m name = Ok data" "wf_cstring name"
  shows "bind_get_name data = Ok name"
proof -
  from assms(1) obtain code len p portal rest where p: "cursor_read_string p = Ok (portal, rest)" and z: "CHR 0x00 \<notin> set portal"
    and d: "\<exists>cursor. data = put_u8 code @ put_i32 len @ put_cstring portal @ put_cstring name @ cursor"
    by (auto simp: bind_rename_def rbind_Ok_iff cstring_new_Ok_iff Let_def split: if_splits)
  from p have "utf8 portal" by (auto simp: cursor_read_string_def utf8_from_utf8_lossy split: option.splits if_splits)
  with z have "wf_cstring portal" by (simp add: wf_cstring_def)
  with assms(2) d show ?thesis by (auto simp: bind_get_name_def put_u8_def advance_def)
qed

lemma describe_rename_name:
  assumes "describe_to_bytes (describe_rename d name) = Ok data" "wf_cstring name"
  shows "\<exists>d'. describe_try_from data = Ok d' \<and> d_target d' = d_target d \<and> d_statement_name d' = name"
proof -
  from assms obtain len where "data = d_code d # put_i32 len @ d_target d # put_cstring name @ []"
    by (auto simp: describe_to_bytes_def describe_rename_def put_u8_def Let_def wf_cstring_def)
  with read_put_cstring [OF assms(2), of "[]"] show ?thesis by (simp add: describe_try_from_def)
qed


definition statements_view :: "('d, 'c, 'p) session \<Rightarrow> client \<times> ('d, 'p) connection_pool \<times> usize" where
  "statements_view s = (sn_client s, sn_pool s, sn_counter s)"

lemma session_wf_view: "statements_view t = statements_view s \<Longrightarrow> session_wf entries hasher s \<Longrightarrow> session_wf entries hasher t"
  by (simp add: session_wf_def statements_view_def)

lemma keeps_statements_view:
  "keeps (\<lambda>s. statements_view s = v) (parse_plugins env routing message)" "keeps (\<lambda>s. statements_view s = v) (route_bind env message)"
proof -
  have "keeps (\<lambda>s. statements_view s = v) (infer_route env ast)" for ast
    by (simp add: keeps_def infer_route_def statements_view_def split: prod.split)
  then show "keeps (\<lambda>s. statements_view s = v) (parse_plugins env routing message)" "keeps (\<lambda>s. statements_view s = v) (route_bind env message)"
    unfolding parse_plugins_def route_bind_def parser_enabled_def parse_query_def run_plugins_def
    by (intro keeps_intro; simp add: statements_view_def)+
qed

lemma statement_ok_mono: "statement_ok hasher c st \<Longrightarrow> unat c \<le> unat c' \<Longrightarrow> statement_ok hasher c' st"
  by (auto simp: statement_ok_def intro: generated_mono)

lemma push_item_wf:
  assumes "session_wf entries hasher s" "item_ok hasher (sn_counter s) (cl_prepared_statements_enabled (sn_client s)) d"
  shows "session_wf entries hasher (s\<lparr>sn_client := (sn_client s)\<lparr>cl_extended := cl_extended (sn_client s) @ [d]\<rparr>\<rparr>)"
  using assms by (simp add: session_wf_def)

lemma buffer_parse_wf:
  assumes lru: "lru_cache (pool_ops ops) entries" and wf: "session_wf entries (xe_hash env) s" and counter: "unat (sn_counter s) + 1 < 2 ^ 64"
    and run: "buffer_parse env ops message s = (Ok x, s')"
  shows "session_wf entries (xe_hash env) s'"
proof (cases "cl_prepared_statements_enabled (sn_client s)")
  case False
  with buffer_parse_Ok [OF run] wf show ?thesis by (simp add: session_wf_def)
next
  case True
  let ?h = "xe_hash env"
  from buffer_parse_Ok [OF run] True obtain name parse q pool counter data where
    data: "parse_to_bytes q = Ok data"
    and reg: "register_parse_to_cache (pool_ops ops) (parse_get_hash ?h parse) parse (sn_pool s, sn_counter s) = (Some q, pool, counter)"
    and s': "s' = s\<lparr>sn_pool := pool, sn_counter := counter, sn_client := (sn_client s)\<lparr>
          cl_prepared_statements := (cl_prepared_statements (sn_client s))(name \<mapsto> (q, parse_get_hash ?h parse)),
          cl_extended := cl_extended (sn_client s) @ [ExtParse data (Some (q, parse_get_hash ?h parse))]\<rparr>\<rparr>"
    by auto
  from reg obtain cache cache' where cache: "cp_prepared_statement_cache (sn_pool s) = Some cache"
    and get: "get_or_insert (pool_ops ops) parse (parse_get_hash ?h parse) (cache, sn_counter s) = (q, cache', counter)"
    and pool: "cp_prepared_statement_cache pool = Some cache'"
    by (auto simp: register_parse_to_cache_def split: option.splits prod.splits)
  from wf cache have "cache_inv ?h (entries cache) (sn_counter s)" by (simp add: session_wf_def)
  note spec = get_or_insert_spec [OF lru this counter refl get]
  from spec have inv: "cache_inv ?h (entries cache') counter" and q: "entries cache' (parse_get_hash ?h parse) = Some q"
    and mono: "unat (sn_counter s) \<le> unat counter"
    using counter by (auto simp: unat_word_ariths split: option.splits)
  from inv q have st: "statement_ok ?h counter (q, parse_get_hash ?h parse)"
    unfolding cache_inv_def statement_ok_def generated_def by auto
  have "statement_ok ?h counter st" if "cl_prepared_statements (sn_client s) n = Some st" for n st
    using that wf statement_ok_mono [OF _ mono] unfolding session_wf_def by blast
  moreover from wf have "list_all (item_ok ?h counter True) (cl_extended (sn_client s))"
    using mono True by (auto simp: session_wf_def list_all_iff intro: item_ok_mono)
  ultimately show ?thesis using inv st data pool True by (auto simp: session_wf_def s')
qed

lemma buffer_bind_wf:
  assumes wf: "session_wf entries hasher s" and run: "buffer_bind message s = (Ok x, s')"
  shows "session_wf entries hasher s'"
proof (cases "cl_prepared_statements_enabled (sn_client s)")
  case False
  with run push_item_wf [OF wf] show ?thesis by (auto simp: buffer_bind_def act_bind_Ok_iff create_new_bind_def)
next
  case True
  with run obtain name where name: "bind_get_name message = Ok name" and
    r: "(case cl_prepared_statements (sn_client s) name of
         Some (rewritten_parse, _) \<Rightarrow>
           act_bind (act_lift (bind_rename message (p_name rewritten_parse))) (\<lambda>message. push_extended (create_new_bind message (Some name)))
       | None \<Rightarrow> unknown_statement name) s = (Ok x, s')"
    by (auto simp: buffer_bind_def act_bind_Ok_iff)
  have "unknown_statement name s \<noteq> (Ok x, s')" by (simp add: unknown_statement_def act_bind_Ok_iff)
  with r obtain p h data where st: "cl_prepared_statements (sn_client s) name = Some (p, h)" and data: "bind_rename message (p_name p) = Ok data"
    and s': "s' = s\<lparr>sn_client := (sn_client s)\<lparr>cl_extended := cl_extended (sn_client s) @ [ExtBind data (Some name)]\<rparr>\<rparr>"
    by (auto simp: act_bind_Ok_iff create_new_bind_def split: option.splits)
  from wf st have "generated (sn_counter s) (p_name p)" by (auto simp: session_wf_def statement_ok_def)
  with bind_rename_name [OF data generated_wf] True show ?thesis
    unfolding s' by (intro push_item_wf [OF wf]) auto
qed

lemma buffer_describe_wf:
  assumes wf: "session_wf entries hasher s" and run: "buffer_describe message s = (Ok x, s')"
  shows "session_wf entries hasher s'"
proof (cases "cl_prepared_statements_enabled (sn_client s)")
  case False
  with run push_item_wf [OF wf] show ?thesis by (auto simp: buffer_describe_def act_bind_Ok_iff create_new_describe_def)
next
  case enabled: True
  with run obtain d where d: "describe_try_from message = Ok d" and
    r: "(if d_target d = CHR ''P'' then push_extended (create_new_describe message None)
       else
         case cl_prepared_statements (sn_client s) (d_statement_name d) of
           Some (rewritten_parse, _) \<Rightarrow>
             act_bind (act_lift (describe_to_bytes (describe_rename d (p_name rewritten_parse)))) (\<lambda>message.
             push_extended (create_new_describe message (Some (d_statement_name d))))
         | None \<Rightarrow> unknown_statement (d_statement_name d)) s = (Ok x, s')"
    unfolding buffer_describe_def
    by (auto simp only: act_bind_Ok_iff act_get_iff act_lift_iff Let_def outcome.inject not_True_eq_False if_False)
  have no: "unknown_statement name s \<noteq> (Ok x, s')" for name by (simp add: unknown_statement_def act_bind_Ok_iff)
  show ?thesis
  proof (cases "d_target d = CHR ''P''")
    case True
    with r d push_item_wf [OF wf] show ?thesis by (simp add: create_new_describe_def)
  next
    case False
    show ?thesis
    proof (cases "cl_prepared_statements (sn_client s) (d_statement_name d)")
      case None
      with False r no show ?thesis by simp
    next
      case (Some st)
      then obtain p h where st: "cl_prepared_statements (sn_client s) (d_statement_name d) = Some (p, h)" by (cases st) simp
      with False r obtain data where data: "describe_to_bytes (describe_rename d (p_name p)) = Ok data"
        and s': "s' = s\<lparr>sn_client := (sn_client s)\<lparr>cl_extended := cl_extended (sn_client s) @ [ExtDescribe data (Some (d_statement_name d))]\<rparr>\<rparr>"
        by (simp add: act_bind_Ok_iff create_new_describe_def) blast
      from wf st have g: "generated (sn_counter s) (p_name p)" by (auto simp: session_wf_def statement_ok_def)
      with describe_rename_name [OF data generated_wf [OF g]] False enabled show ?thesis
        unfolding s' by (intro push_item_wf [OF wf]) auto
    qed
  qed
qed

text \<open>A message is buffered in one piece, and as it came, unless it is a Parse, Bind or Describe message
  of a client with prepared statements.\<close>

definition buffers :: "bytes \<Rightarrow> ('d, 'c, 'p) session \<Rightarrow> ('d, 'c, 'p) session \<Rightarrow> bool" where
  "buffers message s s' \<longleftrightarrow> (\<exists>d. cl_extended (sn_client s') = cl_extended (sn_client s) @ [d]
     \<and> (item_data d = message \<or> cl_prepared_statements_enabled (sn_client s) \<and> hd message \<in> {CHR ''P'', CHR ''B'', CHR ''D''}))"

lemma unknown_statement_not_Ok: "unknown_statement name s \<noteq> (Ok x, s')"
  by (simp add: unknown_statement_def act_bind_Ok_iff)

lemma buffer_bind_buffers: "buffer_bind message s = (Ok x, s') \<Longrightarrow> hd message = CHR ''B'' \<Longrightarrow> buffers message s s'"
  by (cases "cl_prepared_statements_enabled (sn_client s)")
     (auto simp: buffers_def buffer_bind_def act_bind_Ok_iff create_new_bind_def unknown_statement_not_Ok split: option.splits)

lemma buffer_describe_buffers:
  assumes run: "buffer_describe message s = (Ok x, s')" and code: "hd message = CHR ''D''"
  shows "buffers message s s'"
proof (cases "cl_prepared_statements_enabled (sn_client s)")
  case False
  with run show ?thesis by (auto simp: buffers_def buffer_describe_def act_bind_Ok_iff create_new_describe_def)
next
  case True
  with run obtain d where
    r: "(if d_target d = CHR ''P'' then push_extended (create_new_describe message None)
       else
         case cl_prepared_statements (sn_client s) (d_statement_name d) of
           Some (rewritten_parse, _) \<Rightarrow>
             act_bind (act_lift (describe_to_bytes (describe_rename d (p_name rewritten_parse)))) (\<lambda>message.
             push_extended (create_new_describe message (Some (d_statement_name d))))
         | None \<Rightarrow> unknown_statement (d_statement_name d)) s = (Ok x, s')"
    unfolding buffer_describe_def
    by (auto simp only: act_bind_Ok_iff act_get_iff act_lift_iff Let_def outcome.inject not_True_eq_False if_False)
  show ?thesis
  proof (cases "d_target d = CHR ''P''")
    case True
    with r show ?thesis by (auto simp: buffers_def create_new_describe_def)
  next
    case False
    with r \<open>cl_prepared_statements_enabled (sn_client s)\<close> show ?thesis
      by (cases "cl_prepared_statements (sn_client s) (d_statement_name d)")
         (auto simp: buffers_def act_bind_Ok_iff unknown_statement_not_Ok code)
  qed
qed

text \<open>The ways in which a message is buffered.\<close>

lemma buffer_message_cases:
  assumes "buffer_message env ops routing message s = (Ok buffered, s')"
  obtains (P) s1 where "buffered" "hd message = CHR ''P''" "statements_view s1 = statements_view s" "buffer_parse env ops message s1 = (Ok (), s')"
  | (B) s1 where "buffered" "hd message = CHR ''B''" "statements_view s1 = statements_view s" "buffer_bind message s1 = (Ok (), s')"
  | (D) "buffered" "hd message = CHR ''D''" "buffer_describe message s = (Ok (), s')"
  | (E) "buffered" "push_extended (ExtExecute message) s = (Ok (), s')"
  | (C) close where "buffered" "close_try_from message = Ok close" "push_extended (ExtClose message close) s = (Ok (), s')"
  | (other) "\<not> buffered" "s' = s"
proof -
  note code = assms [unfolded buffer_message_def Let_def]
  have keep: "keeps (\<lambda>s. statements_view s = v) (act_when routing (route_bind env message))" for v
    by (intro keeps_intro keeps_statements_view)
  consider "hd message = CHR ''P''" | "hd message = CHR ''B''" | "hd message = CHR ''D''" | "hd message = CHR ''E''"
    | "hd message = CHR ''C''" | "hd message \<notin> {CHR ''P'', CHR ''B'', CHR ''D'', CHR ''E'', CHR ''C''}" by blast
  then show ?thesis
  proof cases
    case 1
    with code obtain s1 where 1: "parse_plugins env routing message s = (Ok (), s1)" "buffer_parse env ops message s1 = (Ok (), s')" "buffered"
      by (simp add: act_bind_Ok_iff) blast
    with P \<open>hd message = CHR ''P''\<close> keeps_all [OF keeps_statements_view(1) 1(1)] show ?thesis by blast
  next
    case 2
    with code obtain s1 where 2: "act_when routing (route_bind env message) s = (Ok (), s1)" "buffer_bind message s1 = (Ok (), s')" "buffered"
      by (simp add: act_bind_Ok_iff) blast
    with B \<open>hd message = CHR ''B''\<close> keeps_all [OF keep 2(1)] show ?thesis by blast
  next
    case 3
    with code D show ?thesis by (simp add: act_bind_Ok_iff)
  next
    case 4
    with code E show ?thesis by (simp add: act_bind_Ok_iff create_new_execute_def)
  next
    case 5
    with code C show ?thesis by (auto simp: act_bind_Ok_iff buffer_close_def create_new_close_def)
  next
    case 6
    with code other show ?thesis by (auto split: if_splits)
  qed
qed

lemma buffer_message_buffers:
  assumes "buffer_message env ops routing message s = (Ok buffered, s')"
  shows "if buffered then buffers message s s' else s' = s"
proof -
  have view: "buffers message s1 s' \<Longrightarrow> statements_view s1 = statements_view s \<Longrightarrow> buffers message s s'" for s1
    by (simp add: buffers_def statements_view_def)
  from assms show ?thesis
  proof (cases rule: buffer_message_cases)
    case (P s1)
    have "buffers message s1 s'" using buffer_parse_Ok [OF P(4)] P(2) by (auto simp: buffers_def split: if_splits)
    with P view show ?thesis by simp
  next
    case (B s1)
    with view buffer_bind_buffers show ?thesis by auto
  qed (auto simp: buffers_def dest: buffer_describe_buffers)
qed

text \<open>
  C14: the buffer of a session is well typed.  Every statement a client has prepared is filed under the
  hash of its text and has a generated name.  If the client has prepared statements enabled, a buffered
  Parse, Bind or Describe message names a generated statement, unless it describes a portal.  All other
  messages, Close with the name the client gave among them, and all messages of a client without
  prepared statements are buffered as they came.  Buffering a message adds it to the end of the buffer in
  one piece and keeps all that, together with the invariant of the statement cache of the pool; a
  message that is not buffered changes nothing.
\<close>

theorem buffer_message_wf:
  assumes "lru_cache (pool_ops ops) entries" "session_wf entries (xe_hash env) s" "unat (sn_counter s) + 1 < 2 ^ 64"
    and "buffer_message env ops routing message s = (Ok buffered, s')"
  shows "session_wf entries (xe_hash env) s' \<and> (if buffered then buffers message s s' else s' = s)"
proof -
  from assms(4) have "session_wf entries (xe_hash env) s'"
  proof (cases rule: buffer_message_cases)
    case (P s1)
    with assms(3) have "unat (sn_counter s1) + 1 < 2 ^ 64" by (simp add: statements_view_def)
    with P session_wf_view [OF _ assms(2)] buffer_parse_wf [OF assms(1)] show ?thesis by blast
  next
    case (B s1)
    with session_wf_view [OF _ assms(2)] buffer_bind_wf show ?thesis by blast
  next
    case D
    with assms(2) buffer_describe_wf show ?thesis by blast
  qed (use assms(2) push_item_wf [OF assms(2)] in auto)
  with buffer_message_buffers [OF assms(4)] show ?thesis by simp
qed

section \<open>A complete reply\<close>

definition named :: "server_parameters \<Rightarrow> bool" where
  "named p \<longleftrightarrow> map_of p ''application_name'' \<noteq> None"

lemma recv_keeps_named: "keeps (\<lambda>s. pred_option named (snd s)) (recv_loop ops)"
proof (rule keeps_recv_loop)
  have set: "named p \<Longrightarrow> named (set_param k v b p)" for p k v b
    by (simp add: named_def map_of_set_param)
  have "keeps (\<lambda>s. pred_option named (snd s)) (recv_handle ops code message)" for code message
    unfolding recv_handle_defs
    by (intro keeps_intro) (auto simp: set pred_option_def split: list.split option.splits)
  then show "keeps (\<lambda>s. pred_option named (snd s)) (recv_step ops)"
    unfolding recv_step_def on_server_def server_modify_def
    by (intro keeps_intro keeps_zoom) (auto simp: on_server_def)
qed

lemma server_recv_reply:
  assumes "rd_input (sv_stream s) = reply_bytes ms c @ rest" "list_all plain_message ms" "status_byte c"
  shows "\<exists>bytes s' p'. server_recv ops now (s, p) = (Ok bytes, (s', p')) \<and> (pred_option named p \<longrightarrow> pred_option named p')
    \<and> ((\<exists>ms'. length ms' < length ms \<and> list_all plain_message ms' \<and> rd_input (sv_stream s') = reply_bytes ms' c @ rest \<and> sv_data_available s')
       \<or> rd_input (sv_stream s') = rest \<and> \<not> sv_data_available s' \<and> (sv_in_transaction s' \<longleftrightarrow> c \<noteq> CHR ''I''))"
proof -
  from recv_loop_reply [OF assms] obtain s1 p1 where l: "recv_loop ops (s, p) = (Ok (), (s1, p1))"
    and r: "(\<exists>ms'. length ms' < length ms \<and> list_all plain_message ms' \<and> rd_input (sv_stream s1) = reply_bytes ms' c @ rest \<and> sv_data_available s1)
       \<or> rd_input (sv_stream s1) = rest \<and> \<not> sv_data_available s1 \<and> (sv_in_transaction s1 \<longleftrightarrow> c \<noteq> CHR ''I'')" by blast
  from keepsD [OF recv_keeps_named _ l] have "pred_option named p \<longrightarrow> pred_option named p1" by simp
  with l r show ?thesis
    by (simp add: server_recv_def act_bind_def act_get_def server_modify_def on_server_def act_zoom_def act_modify_def act_return_def
        server_stats_do_def)
qed


text \<open>Nothing stands between the server and the client: no time limit, and the client takes what it is sent.\<close>

definition undisturbed :: "('d, 'c, 'p) transaction \<Rightarrow> bool" where
  "undisturbed s \<longleftrightarrow> u_statement_timeout (ps_user (cp_settings (sn_pool (tx_session s)))) = 0
     \<and> wr_budget (cl_stream (sn_client (tx_session s))) = None \<and> fl_error (cl_stream (sn_client (tx_session s))) = None
     \<and> named (cl_server_parameters (sn_client (tx_session s)))"

lemma reply_step_total:
  assumes u: "undisturbed s"
    and reply: "rd_input (sv_stream (tx_server s)) = reply_bytes ms c @ rest" "list_all plain_message ms" "status_byte c"
  shows "\<exists>again s'. reply_step env ops s = (Ok again, s') \<and> undisturbed s'
    \<and> (again \<and> (\<exists>ms'. length ms' < length ms \<and> list_all plain_message ms' \<and> rd_input (sv_stream (tx_server s')) = reply_bytes ms' c @ rest)
       \<or> \<not> again \<and> rd_input (sv_stream (tx_server s')) = rest \<and> (sv_in_transaction (tx_server s') \<longleftrightarrow> c \<noteq> CHR ''I''))"
proof -
  let ?t = "sn_tick (tx_session s)" and ?s = "s\<lparr>tx_session := (tx_session s)\<lparr>sn_tick := Suc (sn_tick (tx_session s))\<rparr>\<rparr>"
  from server_recv_reply [OF reply, of "server_ops ops" "xe_now env ?t" "Some (cl_server_parameters (sn_client (tx_session s)))"] u
  obtain bytes sv q where r: "server_recv (server_ops ops) (xe_now env ?t) (tx_recv_state s) = (Ok bytes, (sv, q))" and q: "pred_option named q"
    and nxt: "(\<exists>ms'. length ms' < length ms \<and> list_all plain_message ms' \<and> rd_input (sv_stream sv) = reply_bytes ms' c @ rest \<and> sv_data_available sv)
       \<or> rd_input (sv_stream sv) = rest \<and> \<not> sv_data_available sv \<and> (sv_in_transaction sv \<longleftrightarrow> c \<noteq> CHR ''I'')"
    by (auto simp: undisturbed_def tx_recv_state_def)
  define s1 where "s1 = tx_put_recv (sv, q) ?s"
  have "receive_server_message env ops s = (Ok bytes, s1)"
    using r u by (simp add: receive_server_message_def act_bind_def on_session_def act_zoom_def tick_def act_update_def act_get_def
        statement_timed_out_def undisturbed_def act_catch_def s1_def tx_recv_state_def)
  moreover have u1: "undisturbed s1"
    using u q by (auto simp: s1_def undisturbed_def tx_put_recv_def Let_def split: option.split)
  define s2 where "s2 = s1\<lparr>tx_session := (tx_session s1)\<lparr>sn_client := (sn_client (tx_session s1))\<lparr>cl_stream :=
      (cl_stream (sn_client (tx_session s1)))\<lparr>wr_output := wr_output (cl_stream (sn_client (tx_session s1))) @ bytes\<rparr>\<rparr>\<rparr>\<rparr>"
  have "forward_to_client bytes s1 = (Ok (), s2)"
    using u1 by (simp add: forward_to_client_def act_catch_def on_session_def act_zoom_def to_client_def on_client_def write_all_flush_def
        act_bind_def act_io_def stream_write_all_def stream_flush_def undisturbed_def s2_def)
  ultimately have "reply_step env ops s = (Ok (sv_data_available sv), s2)"
    by (simp add: reply_step_def act_bind_def act_get_def is_data_available_def s2_def s1_def)
  moreover have "undisturbed s2" "tx_server s2 = sv" using u1 by (simp_all add: s2_def s1_def undisturbed_def)
  ultimately show ?thesis using nxt by auto
qed

lemma reply_loop_total:
  assumes "undisturbed s" "rd_input (sv_stream (tx_server s)) = reply_bytes ms c @ rest" "list_all plain_message ms" "status_byte c"
  shows "\<exists>s'. reply_loop env ops s = (Ok (), s') \<and> undisturbed s' \<and> rd_input (sv_stream (tx_server s')) = rest
    \<and> (sv_in_transaction (tx_server s') \<longleftrightarrow> c \<noteq> CHR ''I'')"
  using assms
proof (induction "length ms" arbitrary: ms s rule: less_induct)
  case less
  from reply_step_total [OF less.prems, of env ops] obtain again s1 where st: "reply_step env ops s = (Ok again, s1)" and u: "undisturbed s1"
    and r: "again \<and> (\<exists>ms'. length ms' < length ms \<and> list_all plain_message ms' \<and> rd_input (sv_stream (tx_server s1)) = reply_bytes ms' c @ rest)
       \<or> \<not> again \<and> rd_input (sv_stream (tx_server s1)) = rest \<and> (sv_in_transaction (tx_server s1) \<longleftrightarrow> c \<noteq> CHR ''I'')" by blast
  show ?case
  proof (cases again)
    case True
    with r obtain ms' where "length ms' < length ms" "list_all plain_message ms'" "rd_input (sv_stream (tx_server s1)) = reply_bytes ms' c @ rest" by blast
    from less.hyps [OF this(1) u this(3,2) less.prems(4)] st True show ?thesis by (subst reply_loop.simps) simp
  next
    case False
    with r st u show ?thesis by (subst reply_loop.simps) simp
  qed
qed

lemma send_and_receive_total:
  assumes "undisturbed s" "sv_buffer (tx_server s) = []"
    and "wr_budget (sv_stream (tx_server s)) = None" "fl_error (sv_stream (tx_server s)) = None"
    and "rd_input (sv_stream (tx_server s)) = reply_bytes ms c @ rest" "list_all plain_message ms" "status_byte c"
  shows "\<exists>s'. send_and_receive_loop env ops (Some message) s = (Ok (), s')
    \<and> wr_output (sv_stream (tx_server s')) = wr_output (sv_stream (tx_server s)) @ message
    \<and> client_output s' = client_output s @ reply_bytes ms c \<and> rd_input (sv_stream (tx_server s')) = rest
    \<and> (sv_in_transaction (tx_server s') \<longleftrightarrow> c \<noteq> CHR ''I'')"
proof -
  from server_send_total [OF assms(3,4)] obtain sv where
    send: "server_send (xe_now env (sn_tick (tx_session s))) message (tx_server s) = (Ok (), sv)" by blast
  define s1 where "s1 = s\<lparr>tx_session := (tx_session s)\<lparr>sn_tick := Suc (sn_tick (tx_session s))\<rparr>, tx_server := sv\<rparr>"
  have 1: "send_server_message env message s = (Ok (), s1)"
    using send by (simp add: send_server_message_def act_bind_def on_session_def act_zoom_def tick_def act_update_def act_catch_def on_tx_server_def
        s1_def)
  have "undisturbed s1" using assms(1) by (simp add: s1_def undisturbed_def)
  moreover have "rd_input (sv_stream (tx_server s1)) = reply_bytes ms c @ rest" using send_server_message_Ok [OF 1] assms(5) by simp
  ultimately obtain s2 where 2: "reply_loop env ops s1 = (Ok (), s2)" and u: "undisturbed s2"
    and fin: "rd_input (sv_stream (tx_server s2)) = rest" "sv_in_transaction (tx_server s2) \<longleftrightarrow> c \<noteq> CHR ''I''"
    using reply_loop_total assms(6,7) by blast
  from u obtain name where "get_application_name (cl_server_parameters (sn_client (tx_session s2))) = Ok name"
    by (auto simp: undisturbed_def named_def get_application_name_def)
  with 1 2 have "\<exists>s' t. send_and_receive_loop env ops (Some message) s = (Ok (), s')
      \<and> tx_server s' = server_stats_do (server_query_stats t name) (tx_server s2) \<and> client_output s' = client_output s2"
    by (simp add: send_and_receive_loop_def act_bind_def act_get_def on_session_def act_zoom_def tick_def act_update_def client_stats_do_def
        client_modify_def act_modify_def application_name_def tx_server_modify_def client_output_def) blast
  then obtain s' t where s': "send_and_receive_loop env ops (Some message) s = (Ok (), s')"
    "tx_server s' = server_stats_do (server_query_stats t name) (tx_server s2)" "client_output s' = client_output s2" by blast
  from reply_loop_relays [OF 2] send_server_message_Ok [OF 1] assms(2) obtain ns where
    ns: "reads (tx_server s1) ns (tx_server s2)" "client_output s2 = client_output s @ concat ns" by auto
  have "concat ns = reply_bytes ms c" using ns(1) fin(1) send_server_message_Ok [OF 1] assms(5) by (auto simp: reads_def)
  with s' ns fin send_server_message_Ok [OF 1] show ?thesis
    by (auto simp: server_stats_do_def reads_def)
qed

text \<open>
  C8: every query is answered.  When the server takes the query and sends a complete reply, and nothing
  disturbs the exchange, the whole reply reaches the client, the next reply on the connection is left
  unread, and the status of the transaction is the one the server reported.
\<close>

theorem query_answered_completely:
  assumes "undisturbed s" "sv_buffer (tx_server s) = []"
    and "wr_budget (sv_stream (tx_server s)) = None" "fl_error (sv_stream (tx_server s)) = None"
    and "rd_input (sv_stream (tx_server s)) = reply_bytes ms c @ rest" "list_all plain_message ms" "status_byte c"
  shows "\<exists>s'. send_and_receive_loop env ops (Some message) s = (Ok (), s')
    \<and> wr_output (sv_stream (tx_server s')) = wr_output (sv_stream (tx_server s)) @ message
    \<and> client_output s' = client_output s @ reply_bytes ms c \<and> rd_input (sv_stream (tx_server s')) = rest
    \<and> (sv_in_transaction (tx_server s') \<longleftrightarrow> c \<noteq> CHR ''I'')"
  by (rule send_and_receive_total [OF assms])

section \<open>Concrete sessions\<close>

definition example_client :: "stream \<Rightarrow> client" where
  "example_client t =
     \<lparr> cl_stream = t, cl_buffer = [], cl_response_queue = [], cl_cancel_mode = False,
       cl_transaction_mode = True, cl_process_id = 7, cl_secret_key = 9, cl_parameters = Map.empty, cl_stats = client_stats_default,
       cl_admin = False, cl_last_address_id = None, cl_last_server_stats = None, cl_connected_to_server = False,
       cl_pool_name = ''app'', cl_username = ''alice'', cl_server_parameters = [(''application_name'', ''psql'')],
       cl_prepared_statements_enabled = True, cl_prepared_statements = Map.empty, cl_extended = [] \<rparr>"

definition example_session :: "client \<Rightarrow> (nat, (string, unit) lru_list, (u64, parse_msg) lru_list) session" where
  "example_session c =
     \<lparr> sn_client = c, sn_process = example_fresh_process, sn_map = Map.empty, sn_clients = Map.empty,
       sn_caches = \<lparr> rc_activity = Map.empty, rc_mutations = [] \<rparr>, sn_counter = 0, sn_pool = connection_pool_default,
       sn_router = query_router_new, sn_failures = 0, sn_plugin = None, sn_tick = 0, sn_returned = [], sn_cancel = None \<rparr>"

definition example_transaction :: "bytes \<Rightarrow> (nat, (string, unit) lru_list, (u64, parse_msg) lru_list) transaction" where
  "example_transaction bs =
     \<lparr> tx_session = example_session (example_client (fresh_stream [])), tx_server = example_server bs, tx_address = address_default \<rparr>"

lemmas example_defs = example_client_def example_session_def example_transaction_def example_server_def

lemma example_undisturbed:
  "undisturbed (example_transaction bs)" "sv_buffer (tx_server (example_transaction bs)) = []"
  "wr_budget (sv_stream (tx_server (example_transaction bs))) = None" "fl_error (sv_stream (tx_server (example_transaction bs))) = None"
  "rd_input (sv_stream (tx_server (example_transaction bs))) = bs" "client_output (example_transaction bs) = []"
  by (simp_all add: undisturbed_def named_def example_defs client_output_def connection_pool_default_def pool_settings_default_def user_default_def)

lemma example_reply: "list_all plain_message [(CHR ''C'', ''SELECT 1'')]" "status_byte CHR ''I''"
  by (simp_all add: plain_message_def status_byte_def)

theorem query_answered_completely_witness:
  "\<forall>env ops. \<exists>s'. send_and_receive_loop env ops (Some ''Q'') (example_transaction (reply_bytes [(CHR ''C'', ''SELECT 1'')] CHR ''I'')) = (Ok (), s')
     \<and> client_output s' = reply_bytes [(CHR ''C'', ''SELECT 1'')] CHR ''I''"
  using query_answered_completely [OF example_undisturbed(1-4) _ example_reply, of _ "[]"]
  by (simp add: example_undisturbed del: reply_bytes_simps) blast

theorem query_relayed_witness:
  "\<forall>env ops. \<exists>s' ms. send_and_receive_loop env ops (Some ''Q'') (example_transaction (reply_bytes [(CHR ''C'', ''SELECT 1'')] CHR ''I'')) = (Ok (), s')
     \<and> list_all framed ms \<and> client_output s' = concat ms"
proof (intro allI)
  fix env :: "(nat, (string, unit) lru_list, (u64, parse_msg) lru_list) session_env" and ops
  let ?s = "example_transaction (reply_bytes [(CHR ''C'', ''SELECT 1'')] CHR ''I'')"
  from send_and_receive_total [OF example_undisturbed(1-4) _ example_reply, of _ "[]" env ops "''Q''"] obtain s' where
    "send_and_receive_loop env ops (Some ''Q'') ?s = (Ok (), s')" by (auto simp: example_undisturbed simp del: reply_bytes_simps)
  with query_relayed [OF this example_undisturbed(2)] show "\<exists>s' ms. send_and_receive_loop env ops (Some ''Q'') ?s = (Ok (), s')
     \<and> list_all framed ms \<and> client_output s' = concat ms" by (auto simp: example_undisturbed)
qed

theorem cancel_reaches_claimed_server_witness:
  "\<forall>env ops login s. \<exists>s'. client_entrypoint (env\<lparr>xe_startup := example_startup_env\<lparr>se_connect := \<lambda>_. Ok (fresh_stream [])\<rparr>\<rparr>) ops login None False
       (s\<lparr>en_stream := fresh_stream (cancel_request 7 9), en_map := [(7, 9) \<mapsto> (1, 2, ''db'', 5432)]\<rparr>) = (Ok (), s')
     \<and> en_cancel s' = Some ((fresh_stream [])\<lparr>wr_output := cancel_request 1 2\<rparr>) \<and> en_map s' = Map.empty"
proof (intro allI)
  fix env :: "('a, 'b, 'c) session_env" and ops login and s :: "('a, 'b, 'c) entry"
  show "\<exists>s'. client_entrypoint (env\<lparr>xe_startup := example_startup_env\<lparr>se_connect := \<lambda>_. Ok (fresh_stream [])\<rparr>\<rparr>) ops login None False
       (s\<lparr>en_stream := fresh_stream (cancel_request 7 9), en_map := [(7, 9) \<mapsto> (1, 2, ''db'', 5432)]\<rparr>) = (Ok (), s')
     \<and> en_cancel s' = Some ((fresh_stream [])\<lparr>wr_output := cancel_request 1 2\<rparr>) \<and> en_map s' = Map.empty"
    using cancel_reaches_claimed_server [of "s\<lparr>en_stream := fresh_stream (cancel_request 7 9), en_map := [(7, 9) \<mapsto> (1, 2, ''db'', 5432)]\<rparr>" 7 9 "[]"
        1 2 "''db''" 5432 "env\<lparr>xe_startup := example_startup_env\<lparr>se_connect := \<lambda>_. Ok (fresh_stream [])\<rparr>\<rparr>" "fresh_stream []"
        "fresh_stream (cancel_request 7 9)" "[]" ops login None False]
    by auto
qed

theorem unknown_statement_leaves_transaction_witness:
  "\<forall>env ops. \<exists>e s'. with_connection (transaction_loop env ops) (example_server [], address_default)
       (example_session (example_client (fresh_stream (frame CHR ''B'' (put_cstring [] @ put_cstring ''s1''))))) = (Err (ClientError e), s')
     \<and> sn_returned s' = [example_server []] \<and> sv_in_transaction (example_server []) \<and> \<not> sv_bad (example_server [])"
proof (intro allI)
  fix env :: "(nat, (string, unit) lru_list, (u64, parse_msg) lru_list) session_env" and ops
  let ?body = "put_cstring [] @ put_cstring ''s1''"
  have "bind_get_name (frame CHR ''B'' ?body) = Ok ''s1''"
    using bind_get_name_frame [of "[]" "''s1''" "CHR ''B''" "[]"] by (simp add: wf_cstring_def utf8_ascii)
  with unknown_statement_leaves_transaction [of "example_session (example_client (fresh_stream (frame CHR ''B'' ?body)))" ?body "[]" "''s1''"
      env ops "example_server []" address_default]
  show "\<exists>e s'. with_connection (transaction_loop env ops) (example_server [], address_default)
       (example_session (example_client (fresh_stream (frame CHR ''B'' ?body)))) = (Err (ClientError e), s')
     \<and> sn_returned s' = [example_server []] \<and> sv_in_transaction (example_server []) \<and> \<not> sv_bad (example_server [])"
    by (simp add: client_input_def example_defs example_fresh_process_def config_default_def general_default_def put_cstring_def)
qed

definition example_login :: "(nat, unit) login" where
  "example_login =
     \<lparr> lg_stream = fresh_stream (frame CHR ''p'' (''md5'' @ [CHR 0x00])),
       lg_pools = [pool_identifier_new ''alice'' ''alice'' \<mapsto>
         example_pool\<lparr>cp_settings := pool_settings_default\<lparr>ps_user := user_default\<lparr>u_password := Some ''secret''\<rparr>\<rparr>\<rparr>] \<rparr>"

definition example_login_env :: login_env where
  "example_login_env =
     \<lparr> le_salt = ''salt'', le_process_id = 7, le_secret_key = 9, le_md5 = (\<lambda>_. []), le_exec = (\<lambda>_ _ _ _. Ok []), le_tasks = [],
       le_keys = [''user''], le_version = ''1.2'', le_quoted = (\<lambda>s. s), le_debug = (\<lambda>_. []) \<rparr>"

lemma example_startup_bytes: "parse_startup (put_params [(''user'', ''alice'')]) = Ok [''user'' \<mapsto> ''alice'']"
  using parse_params_put [of "[(''user'', ''alice'')]"] by (simp add: parse_startup_def param_text_def latin1_ascii)

lemma example_response: "md5_hash_password (le_md5 example_login_env) ''alice'' ''secret'' (le_salt example_login_env) = ''md5'' @ [CHR 0x00]"
  by (simp add: md5_hash_password_def md5_hash_second_pass_def lower_hex_def example_login_env_def Let_def)

lemma example_login_facts:
  "startup_pool_name [''user'' \<mapsto> ''alice''] ''alice'' = ''alice''" "\<not> admin_database ''alice''"
  "get_pool ''alice'' ''alice'' (lg_pools example_login)
     = Some (example_pool\<lparr>cp_settings := pool_settings_default\<lparr>ps_user := user_default\<lparr>u_password := Some ''secret''\<rparr>\<rparr>\<rparr>)"
  "rd_input (lg_stream example_login) = frame CHR ''p'' (''md5'' @ [CHR 0x00]) @ []" "wr_budget (lg_stream example_login) = None"
  by (simp_all add: startup_pool_name_def admin_database_def get_pool_def example_login_def)

lemmas example_accepted =
  startup_accepts [OF example_startup_bytes _ refl, of "''alice''" False example_login
    "example_pool\<lparr>cp_settings := pool_settings_default\<lparr>ps_user := user_default\<lparr>u_password := Some ''secret''\<rparr>\<rparr>\<rparr>" "''secret''" _ example_login_env "[]"]

theorem client_startup_accepts_witness:
  "\<exists>c s'. client_startup example_login_env config_default (put_params [(''user'', ''alice'')]) False example_login = (Ok c, s')
     \<and> cl_username c = ''alice'' \<and> rd_input (lg_stream s') = []"
  using client_startup_accepts [OF example_startup_bytes _ refl, of "''alice''" False example_login
    "example_pool\<lparr>cp_settings := pool_settings_default\<lparr>ps_user := user_default\<lparr>u_password := Some ''secret''\<rparr>\<rparr>\<rparr>" "''secret''"
    "''md5'' @ [CHR 0x00]" example_login_env "[]" config_default]
  by (auto simp: example_login_facts example_response example_pool_def pool_settings_default_def user_default_def)

theorem client_startup_authenticates_witness:
  "\<exists>c s' response. client_startup example_login_env config_default (put_params [(''user'', ''alice'')]) False example_login = (Ok c, s')
     \<and> answered_with response example_login s'"
proof -
  have "\<exists>c s'. client_startup example_login_env config_default (put_params [(''user'', ''alice'')]) False example_login = (Ok c, s')
      \<and> cl_username c = ''alice'' \<and> cl_pool_name c = ''alice'' \<and> \<not> cl_admin c"
    using example_accepted [of "''md5'' @ [CHR 0x00]" config_default]
    by (auto simp: example_login_facts example_response example_pool_def pool_settings_default_def user_default_def)
  then obtain c s' where c: "client_startup example_login_env config_default (put_params [(''user'', ''alice'')]) False example_login = (Ok c, s')"
    "cl_username c = ''alice''" "cl_pool_name c = ''alice''" "\<not> cl_admin c" by blast
  from client_startup_authenticates [OF c(1)] c show ?thesis
    by (auto simp: example_login_facts pool_settings_default_def user_default_def)
qed

text \<open>A pool that may not read the table \<open>secrets\<close>, one query, simple and prepared, and a parser that accepts it.\<close>

definition example_router :: query_router where
  "example_router = query_router_new\<lparr>rt_pool_settings := pool_settings_default\<lparr>ps_query_parser_enabled := True, ps_plugins := Some
     \<lparr> pl_intercept = None, pl_table_access = Some \<lparr> ta_enabled = True, ta_tables = [''secrets''] \<rparr>, pl_query_logger = None, pl_prewarmer = None \<rparr>\<rparr>\<rparr>"

definition guarded_session :: "bool \<Rightarrow> (nat, (string, unit) lru_list, (u64, parse_msg) lru_list) session" where
  "guarded_session prepared =
     (example_session ((example_client (fresh_stream []))\<lparr>cl_prepared_statements_enabled := prepared\<rparr>))\<lparr>sn_router := example_router\<rparr>"

definition example_query :: bytes where
  "example_query = frame CHR ''Q'' (put_cstring ''q'')"

definition example_parse :: bytes where
  "example_parse = frame CHR ''P'' (put_cstring ''a'' @ put_cstring ''q'' @ put_i16 0)"

definition reading :: "string \<Rightarrow> ('d, 'c, 'p) session_env \<Rightarrow> ('d, 'c, 'p) session_env" where
  "reading table env = env\<lparr>xe_ready := False, xe_parse := \<lambda>_. Ok [], xe_relations := \<lambda>_. [table]\<rparr>"

lemmas example_strings [simp] = read_put_cstring [where r = "[]", simplified]

lemma wf_example_strings [simp]: "wf_cstring ''q''" "wf_cstring ''a''"
  by (simp_all add: wf_cstring_def utf8_ascii)

lemma example_query_parsed [simp]: "router_parse (\<lambda>_. Ok []) example_query example_router = Ok []"
   "router_parse (\<lambda>_. Ok []) example_parse example_router = Ok []"
  by (simp_all add: example_query_def example_parse_def router_parse_def frame_def example_router_def pool_settings_default_def query_router_new_def Let_def)

lemma example_plugins [simp]:
  "execute_plugins (\<lambda>_. [''secrets'']) render [] example_router = Ok (Deny (''permission for table '' @ [CHR 0x22] @ ''secrets'' @ [CHR 0x22] @ '' denied''))"
  "execute_plugins (\<lambda>_. [''public.t'']) render [] example_router = Ok Allow"
  by (simp_all add: execute_plugins_def table_access_run_def example_router_def)


lemma guarded_facts [simp]:
  "sn_router (guarded_session p) = example_router" "query_parser_enabled example_router" "sn_returned (guarded_session p) = []"
  "cl_prepared_statements_enabled (sn_client (guarded_session p)) = p" "wr_budget (cl_stream (sn_client (guarded_session p))) = None"
  "xe_parse (reading table env) = (\<lambda>_. Ok [])" "xe_relations (reading table env) = (\<lambda>_. [table])" "\<not> xe_ready (reading table env)"
  by (simp_all add: guarded_session_def example_session_def example_client_def reading_def example_router_def query_parser_enabled_def
      query_router_new_def pool_settings_default_def)

lemma example_unrouted: "handle_custom_protocol (reading table env) example_query (guarded_session p)
    = (Ok False, (guarded_session p)\<lparr>sn_tick := 1\<rparr>)"
  by (simp add: handle_custom_protocol_def tick_def try_execute_command_def example_query_def frame_def act_bind_def act_get_def act_modify_def
      act_update_def act_return_def Let_def guarded_session_def example_session_def example_router_def pool_settings_default_def query_router_new_def)

theorem denied_query_not_sent_witness:
  "\<forall>env ops. \<exists>e. user_message (reading ''secrets'' env) ops example_query (guarded_session True) = (Ok Continue, told e ((guarded_session True)\<lparr>sn_tick := 1\<rparr>))"
proof (intro allI)
  fix env ops
  have "hd example_query = CHR ''Q''" by (simp add: example_query_def frame_def put_u8_def)
  from denied_query_not_sent [OF this example_unrouted [of "''secrets''" env True], of "[]"]
  show "\<exists>e. user_message (reading ''secrets'' env) ops example_query (guarded_session True) = (Ok Continue, told e ((guarded_session True)\<lparr>sn_tick := 1\<rparr>))"
    by simp blast
qed

theorem denial_forgotten_witness:
  "\<forall>env ops. \<exists>s'. buffer_message (reading ''public.t'' env) ops False example_parse ((guarded_session False)\<lparr>sn_plugin := Some (Deny ''no'')\<rparr>)
      = (Ok True, s') \<and> sync_plugin s' = (Ok False, s')"
proof (intro allI)
  fix env ops
  have "hd example_parse = CHR ''P''" by (simp add: example_parse_def frame_def put_u8_def)
  then show "\<exists>s'. buffer_message (reading ''public.t'' env) ops False example_parse ((guarded_session False)\<lparr>sn_plugin := Some (Deny ''no'')\<rparr>)
      = (Ok True, s') \<and> sync_plugin s' = (Ok False, s')"
    using denial_forgotten [of "(guarded_session False)\<lparr>sn_plugin := Some (Deny ''no'')\<rparr>" "''no''" example_parse "reading ''public.t'' env" "[]" ops True]
    by (simp add: buffer_message_def parse_plugins_def parser_enabled_def parse_query_def run_plugins_def buffer_parse_def act_bind_def act_get_def
        act_when_def act_modify_def act_return_def push_extended_def client_modify_def)
qed


definition example_statements :: "(nat, (string, unit) lru_list, (u64, parse_msg) lru_list) session" where
  "example_statements = (example_session (example_client (fresh_stream [])))
     \<lparr>sn_pool := connection_pool_default\<lparr>cp_prepared_statement_cache := Some (8, [])\<rparr>\<rparr>"

definition prepared_parse :: bytes where
  "prepared_parse = CHR ''P'' # put_i32 9 @ parse_body sample_parse"

lemma prepared_parse_facts:
  "hd prepared_parse = CHR ''P''" "parse_get_name prepared_parse = Ok ''s1''" "parse_try_from prepared_parse = Ok (sample_parse\<lparr>p_len := 9\<rparr>)"
  "parse_to_bytes (sample_parse\<lparr>p_len := 9, p_name := ''PGCAT_0''\<rparr>)
     = Ok (frame CHR ''P'' (parse_body (sample_parse\<lparr>p_len := 9, p_name := ''PGCAT_0''\<rparr>)))"
proof -
  show "hd prepared_parse = CHR ''P''" by (simp add: prepared_parse_def)
  show "parse_try_from prepared_parse = Ok (sample_parse\<lparr>p_len := 9\<rparr>)"
    using parse_try_from_body [OF sample_wf(1)] by (simp add: prepared_parse_def sample_parse_def)
  show "parse_get_name prepared_parse = Ok ''s1''"
    by (simp add: prepared_parse_def parse_get_name_def advance_def parse_body_def sample_parse_def wf_cstring_def utf8_ascii)
  have "wf_parse (sample_parse\<lparr>p_len := 9, p_name := ''PGCAT_0''\<rparr>)"
    using sample_wf(1) by (simp add: wf_parse_def wf_cstring_def utf8_ascii)
  then show "parse_to_bytes (sample_parse\<lparr>p_len := 9, p_name := ''PGCAT_0''\<rparr>)
     = Ok (frame CHR ''P'' (parse_body (sample_parse\<lparr>p_len := 9, p_name := ''PGCAT_0''\<rparr>)))"
    by (simp add: parse_to_bytes_frame sample_parse_def)
qed

lemma show_nat_0: "show_nat 0 = ''0''"
  by code_simp

theorem buffer_message_wf_witness:
  "\<forall>env. \<exists>s'. buffer_message env (Caches lru_list_ops lru_list_ops) False prepared_parse example_statements = (Ok True, s')
     \<and> session_wf list_entries (xe_hash env) s'"
proof
  fix env :: "(nat, (string, unit) lru_list, (u64, parse_msg) lru_list) session_env"
  have "session_wf list_entries (xe_hash env) example_statements" "unat (sn_counter example_statements) + 1 < 2 ^ 64"
    by (simp_all add: session_wf_def example_statements_def example_session_def example_client_def connection_pool_default_def cache_inv_def list_entries_def)
  moreover have "\<exists>s'. buffer_message env (Caches lru_list_ops lru_list_ops) False prepared_parse example_statements = (Ok True, s')"
    by (simp add: buffer_message_def prepared_parse_facts parse_plugins_def parser_enabled_def query_parser_enabled_def example_statements_def example_session_def
      example_client_def query_router_new_def pool_settings_default_def buffer_parse_def act_bind_def act_get_def act_when_def act_modify_def act_return_def
      push_extended_def client_modify_def act_lift_def store_statement_def act_update_def register_parse_to_cache_def get_or_insert_def lru_list_ops_def
      list_entries_def list_promote_def list_push_def parse_rewrite_def show_nat_0 Let_def)
  ultimately show "\<exists>s'. buffer_message env (Caches lru_list_ops lru_list_ops) False prepared_parse example_statements = (Ok True, s')
     \<and> session_wf list_entries (xe_hash env) s'"
    using buffer_message_wf [of "Caches lru_list_ops lru_list_ops" list_entries env example_statements False prepared_parse True] lru_list.lru_cache_axioms
    by auto
qed

text \<open>A lone Sync message, answered by the pooler, on a connection whose session was altered; the server
  answers the reset query.\<close>

definition dirty_transaction :: "(nat, (string, unit) lru_list, (u64, parse_msg) lru_list) transaction" where
  "dirty_transaction = (example_transaction [])\<lparr>tx_server :=
     (example_server (reply_bytes [(CHR ''C'', ''RESET'')] CHR ''I''))\<lparr>sv_in_transaction := False\<rparr>\<rparr>"

lemma dirty_transaction_simps:
  "sv_in_transaction (tx_server dirty_transaction) = False" "sv_parameters (tx_server dirty_transaction) = []"
  "sv_in_copy_mode (tx_server dirty_transaction) = False" "sn_plugin (tx_session dirty_transaction) = None" "cl_extended (sn_client (tx_session dirty_transaction)) = []"
  "cl_buffer (sn_client (tx_session dirty_transaction)) = []" "cl_response_queue (sn_client (tx_session dirty_transaction)) = []" "cl_transaction_mode (sn_client (tx_session dirty_transaction))"
  "cl_server_parameters (sn_client (tx_session dirty_transaction)) = [(''application_name'', ''psql'')]"
  "wr_budget (cl_stream (sn_client (tx_session dirty_transaction))) = None" "fl_error (cl_stream (sn_client (tx_session dirty_transaction))) = None"
  by (simp_all add: dirty_transaction_def example_defs)

lemma dirty_server:
  "sv_cleanup_connections (tx_server dirty_transaction)" "sv_cleanup_state (tx_server dirty_transaction) = cleanup_set_true cleanup_state_new"
  "wr_output (sv_stream (tx_server dirty_transaction)) = []" "wr_budget (sv_stream (tx_server dirty_transaction)) = None"
  "fl_error (sv_stream (tx_server dirty_transaction)) = None"
  "rd_input (sv_stream (tx_server dirty_transaction)) = reply_bytes [(CHR ''C'', ''RESET'')] CHR ''I'' @ []"
  by (simp_all add: dirty_transaction_def example_server_def fresh_stream_def del: reply_bytes_simps)

lemma compare_params_none: "compare_params [] p = []"
  by (auto simp: compare_params_def List.map_filter_def filter_empty_conv split: option.split)

lemma server_stats_do_copy_mode: "sv_in_copy_mode (server_stats_do f s) = sv_in_copy_mode s"
  by (simp add: server_stats_do_def)

lemma dirty_sync:
  "\<exists>s1 f. act_bind claim_server (\<lambda>_. act_bind (tx_sync_parameters env ops) (\<lambda>_. transaction env ops None (frame CHR ''S'' []))) dirty_transaction
     = (Ok Break, s1) \<and> tx_server s1 = server_stats_do f (tx_server dirty_transaction)"
  by (auto simp: claim_server_def tx_sync_parameters_def transaction_def transaction_message_def tx_sync_def sync_plugin_def plugin_reply_def
      put_buffer_def sync_send_def flush_responses_def forward_to_client_def put_response_def clear_buffer_def after_reply_def
      on_session_def on_tx_server_def tx_server_modify_def client_modify_def client_stats_do_def to_client_def on_client_def act_zoom_def act_bind_def act_get_def act_modify_def
      act_return_def act_when_def act_update_def act_lift_def act_catch_def act_io_def write_all_flush_def stream_write_all_def stream_flush_def tick_def sync_parameters_def compare_params_none
      application_name_def get_application_name_def server_in_transaction_def server_in_copy_mode_def server_stats_do_copy_mode
      frame_def put_u8_def dirty_transaction_simps Let_def)

lemma dirty_reset:
  assumes "sv = server_stats_do f (tx_server dirty_transaction)"
  shows "\<exists>sv'. checkin_cleanup ops now sv = (Ok (), sv')"
proof -
  have "wr_budget (sv_stream (clear_statements ops sv)) = None" "fl_error (sv_stream (clear_statements ops sv)) = None"
    "rd_input (sv_stream (clear_statements ops sv)) = reply_bytes [(CHR ''C'', ''RESET'')] CHR ''I'' @ []"
    unfolding assms clear_statements_def server_stats_do_def using dirty_server by simp_all
  from server_query_reply [OF this, of ops now "reset_string (sv_cleanup_state sv)"] obtain t where "server_query ops now (reset_string (sv_cleanup_state sv)) (clear_statements ops sv) = (Ok (), t)"
    by (auto simp: plain_message_def status_byte_def)
  then show ?thesis
    using dirty_transaction_simps(1) dirty_server(1,2) unfolding assms
    by (simp add: checkin_cleanup_def server_in_transaction_def act_bind_def act_get_def act_when_def act_modify_def act_return_def server_stats_do_def)
qed

theorem connection_given_back_witness:
  "\<forall>env ops. \<exists>s'. use_connection env ops None (frame CHR ''S'' []) dirty_transaction = (Ok Continue, s')
     \<and> wr_output (sv_stream (tx_server s')) = simple_query ''RESET ROLE;RESET ALL;DEALLOCATE ALL;''
     \<and> \<not> needs_cleanup (sv_cleanup_state (tx_server s')) \<and> sn_map (tx_session s') (own_key (tx_session s')) = None"
proof (intro allI)
  fix env :: "(nat, (string, unit) lru_list, (u64, parse_msg) lru_list) session_env" and ops
  let ?use = "use_connection env ops None (frame CHR ''S'' []) dirty_transaction"
  from dirty_sync [of env ops] obtain s1 f where
    run: "act_bind claim_server (\<lambda>_. act_bind (tx_sync_parameters env ops) (\<lambda>_. transaction env ops None (frame CHR ''S'' []))) dirty_transaction
      = (Ok Break, s1)" and sv: "tx_server s1 = server_stats_do f (tx_server dirty_transaction)" by blast
  from dirty_reset [OF sv, of "server_ops ops" "xe_now env (sn_tick (tx_session s1))"] obtain sv' where
    "checkin_cleanup (server_ops ops) (xe_now env (sn_tick (tx_session s1))) (tx_server s1) = (Ok (), sv')" by blast
  then have "\<exists>s'. give_back env ops s1 = (Ok (), s')"
    by (simp add: give_back_def tx_checkin_cleanup_def act_bind_def on_session_def tick_def act_update_def act_get_def act_modify_def on_tx_server_def
        tx_server_modify_def client_modify_def client_stats_do_def release_def act_zoom_def)
  with run obtain s' where s': "?use = (Ok Continue, s')"
    by (fastforce simp: use_connection_def act_bind_Ok_iff act_return_def)
  from connection_given_back [OF s'] run sv dirty_transaction_simps(1) dirty_server(1-3) s' show "\<exists>s'. ?use = (Ok Continue, s')
     \<and> wr_output (sv_stream (tx_server s')) = simple_query ''RESET ROLE;RESET ALL;DEALLOCATE ALL;''
     \<and> \<not> needs_cleanup (sv_cleanup_state (tx_server s')) \<and> sn_map (tx_session s') (own_key (tx_session s')) = None"
    by (intro exI [of _ s']) (auto simp: server_stats_do_def reset_string_def needs_cleanup_def cleanup_set_true_def)
qed

end
