(* ===== verification/Main_Loop.thy ===== *)
theory Main_Loop
  imports Client_Laws
begin

text \<open>
  \<open>src/src/main.rs\<close> and \<open>format_duration\<close> of \<open>src/src/lib.rs\<close>: the start of the process and its main loop, which accepts
  clients, counts them, and shuts the process down.  The loop waits for several events at once; the
  relation \<open>main_step\<close> takes any that is ready, and interleaves the loop with the tasks of the clients.
\<close>

section \<open>Durations\<close>

text \<open>\<open>{:0>n}\<close>\<close>

definition pad_zero :: "nat \<Rightarrow> string \<Rightarrow> string" where
  "pad_zero n s = replicate (n - length s) CHR ''0'' @ s"

text \<open>A duration in milliseconds; the conversions and the remainder round towards zero.\<close>

definition trunc_div :: "int \<Rightarrow> int \<Rightarrow> int" where
  "trunc_div a b = sgn a * (\<bar>a\<bar> div b)"

definition trunc_rem :: "int \<Rightarrow> int \<Rightarrow> int" where
  "trunc_rem a b = a - b * trunc_div a b"

definition format_duration :: "int \<Rightarrow> string" where
  "format_duration ms =
     show_int (trunc_div ms 86400000) @ ''d ''
     @ pad_zero 2 (show_int (trunc_rem (trunc_div ms 3600000) 24)) @ '':''
     @ pad_zero 2 (show_int (trunc_rem (trunc_div ms 60000) 60)) @ '':''
     @ pad_zero 2 (show_int (trunc_rem (trunc_div ms 1000) 60)) @ ''.''
     @ pad_zero 3 (show_int (trunc_rem ms 1000))"

text \<open>The fields of a duration that is not negative add up to it.\<close>

lemma format_duration_fields:
  assumes "0 \<le> ms"
  shows "(((trunc_div ms 86400000 * 24 + trunc_rem (trunc_div ms 3600000) 24) * 60 + trunc_rem (trunc_div ms 60000) 60) * 60
      + trunc_rem (trunc_div ms 1000) 60) * 1000 + trunc_rem ms 1000 = ms"
proof -
  have nonneg: "trunc_div n d = n div d" if "0 \<le> n" for n d :: int using that by (cases "n = 0") (simp_all add: trunc_div_def)
  then have whole: "trunc_div (trunc_div ms b) c = trunc_div ms (b * c)" if "0 < b" "0 < c" for b c
    using assms that by (simp add: pos_imp_zdiv_nonneg_iff zdiv_zmult2_eq)
  have "trunc_div (trunc_div ms 1000) 60 = trunc_div ms 60000" "trunc_div (trunc_div ms 60000) 60 = trunc_div ms 3600000"
    "trunc_div (trunc_div ms 3600000) 24 = trunc_div ms 86400000"
    using whole [of 1000 60] whole [of 60000 60] whole [of 3600000 24] by simp_all
  then show ?thesis by (simp add: trunc_rem_def algebra_simps)
qed

section \<open>The state of the process\<close>

text \<open>
  The task of a client: whether it was accepted in administration mode, whether it only sends a cancel
  request, whether it has been told to leave, and what it is doing.
\<close>

datatype client_phase = Starting | Serving | Finished | Panicked

record client_task =
  ct_admin_only :: bool
  ct_cancel :: bool
  ct_told :: bool
  ct_phase :: client_phase

text \<open>\<open>Blocked\<close>: the loop waits for room in a channel that only the loop itself empties.\<close>

datatype loop_status = Running | Blocked | Stopped

record ('d, 'p) main_loop =
  ml_process :: "('d, 'p) process"
  ml_tasks :: "client_task list"
  ml_drain :: "i32 channel"
  ml_exit :: "unit channel"
  ml_timers :: nat
  ml_admin_only :: bool
  ml_total_clients :: i32
  ml_status :: loop_status

text \<open>\<open>Sender::send\<close>, which waits while the channel is full.\<close>

definition channel_send :: "'m \<Rightarrow> 'm channel \<Rightarrow> 'm channel option" where
  "channel_send m ch = (if channel_capacity ch = 0 then None else Some (ch\<lparr>cn_queue := cn_queue ch @ [m]\<rparr>))"

section \<open>Start\<close>

record 'd main_env =
  me_setup :: bool
  me_config_file :: string
  me_reload :: "'d reload_env"
  me_socket_addr :: "string \<Rightarrow> bool"
  me_bind :: "string \<Rightarrow> bool"
  me_exit_config :: i32

definition main_loop_new :: "('d, 'p) process \<Rightarrow> ('d, 'p) main_loop" where
  "main_loop_new process =
     \<lparr> ml_process = process, ml_tasks = [], ml_drain = channel_new 2048, ml_exit = channel_new 1, ml_timers = 0,
       ml_admin_only = False, ml_total_clients = 0, ml_status = Running \<rparr>"

text \<open>The steps up to the main loop; \<open>Err code\<close>: the process exits with the code.\<close>

definition main_start ::
  "'d main_env \<Rightarrow> (u64, parse_msg, 'p) lru_ops \<Rightarrow> cached_resolver \<Rightarrow> (i32, ('d, 'p) main_loop) outcome" where
  "main_start env ops resolver =
     (let reload = me_reload env; failed = Err (me_exit_config env) in
      if \<not> me_setup env then failed
      else
        case parse_config (re_read_file reload) (re_toml reload) (be_regex (re_build reload)) (re_certs_ok reload) (re_keys_ok reload)
               (me_config_file env) config_default of
          (Panic, _) \<Rightarrow> Panic
        | (Err _, _) \<Rightarrow> failed
        | (Ok _, config) \<Rightarrow>
            let general = cf_general config in
            if g_enable_prometheus_exporter general = Some True
               \<and> \<not> me_socket_addr env (g_host general @ '':'' @ show_int (sint (g_prometheus_exporter_port general))) then failed
            else if \<not> me_bind env (g_host general @ '':'' @ show_nat (unat (g_port general))) then failed
            else
              let resolver = snd (resolver_from_config (re_resolver_error reload) config resolver) in
              case pools_from_config (re_build reload) ops config Map.empty of
                (Panic, _) \<Rightarrow> Panic
              | (Err _, _) \<Rightarrow> failed
              | (Ok _, pools) \<Rightarrow>
                  Ok (main_loop_new \<lparr> pr_config = config, pr_pools = pools, pr_resolver = resolver, pr_interrupted = False \<rparr>))"

section \<open>The arms of the loop\<close>

text \<open>SIGHUP: the result of the reload is ignored, a panic ends the process.\<close>

definition on_hangup :: "'d reload_env \<Rightarrow> (u64, parse_msg, 'p) lru_ops \<Rightarrow> ('d, 'p) main_loop \<Rightarrow> ('d, 'p) main_loop" where
  "on_hangup env ops s =
     (case reload_config env ops (ml_process s) of
        (Panic, p) \<Rightarrow> s\<lparr>ml_process := p, ml_status := Stopped\<rparr>
      | (_, p) \<Rightarrow> s\<lparr>ml_process := p\<rparr>)"

text \<open>SIGINT: the clients are told to leave, the loop wakes itself with an empty message, and a timer is started.\<close>

definition on_interrupt :: "('d, 'p) main_loop \<Rightarrow> ('d, 'p) main_loop" where
  "on_interrupt s =
     (if ml_admin_only s then s
      else
        let s = s\<lparr>ml_admin_only := True, ml_tasks := map (ct_told_update (\<lambda>_. True)) (ml_tasks s)\<rparr> in
        case channel_send 0 (ml_drain s) of
          None \<Rightarrow> s\<lparr>ml_status := Blocked\<rparr>
        | Some drain \<Rightarrow> s\<lparr>ml_drain := drain, ml_timers := Suc (ml_timers s)\<rparr>)"

definition on_term :: "('d, 'p) main_loop \<Rightarrow> ('d, 'p) main_loop" where
  "on_term s = s\<lparr>ml_status := Stopped\<rparr>"

definition on_accept :: "bool \<Rightarrow> ('d, 'p) main_loop \<Rightarrow> ('d, 'p) main_loop" where
  "on_accept cancel s =
     s\<lparr>ml_tasks := ml_tasks s @ [\<lparr> ct_admin_only = ml_admin_only s, ct_cancel = cancel, ct_told = False, ct_phase = Starting \<rparr>]\<rparr>"

definition on_exit :: "('d, 'p) main_loop \<Rightarrow> ('d, 'p) main_loop" where
  "on_exit s = s\<lparr>ml_exit := (ml_exit s)\<lparr>cn_queue := tl (cn_queue (ml_exit s))\<rparr>, ml_status := Stopped\<rparr>"

text \<open>The next message of a client is added to the count.\<close>

definition on_drain :: "('d, 'p) main_loop \<Rightarrow> ('d, 'p) main_loop" where
  "on_drain s =
     (case cn_queue (ml_drain s) of
        [] \<Rightarrow> s
      | client_ping # rest \<Rightarrow>
          let s = s\<lparr>ml_drain := (ml_drain s)\<lparr>cn_queue := rest\<rparr>, ml_total_clients := ml_total_clients s + client_ping\<rparr> in
          if ml_total_clients s = 0 \<and> ml_admin_only s
          then (case channel_send () (ml_exit s) of
                  None \<Rightarrow> s\<lparr>ml_status := Blocked\<rparr>
                | Some exit \<Rightarrow> s\<lparr>ml_exit := exit\<rparr>)
          else s)"

definition set_phase :: "nat \<Rightarrow> client_phase \<Rightarrow> ('d, 'p) main_loop \<Rightarrow> ('d, 'p) main_loop" where
  "set_phase i phase s = s\<lparr>ml_tasks := (ml_tasks s)[i := (ml_tasks s ! i)\<lparr>ct_phase := phase\<rparr>]\<rparr>"

text \<open>
  Steps of the loop and of the other tasks.  A client that is not let in, and a client of the administration
  database, ends without having been counted; in administration mode only cancel requests are counted.
\<close>

inductive main_step :: "(u64, parse_msg, 'p) lru_ops \<Rightarrow> ('d, 'p) main_loop \<Rightarrow> ('d, 'p) main_loop \<Rightarrow> bool" for ops where
  hangup: "ml_status s = Running \<Longrightarrow> main_step ops s (on_hangup env ops s)"
| interrupt: "ml_status s = Running \<Longrightarrow> main_step ops s (on_interrupt s)"
| term_signal: "ml_status s = Running \<Longrightarrow> main_step ops s (on_term s)"
| accept: "ml_status s = Running \<Longrightarrow> main_step ops s (on_accept cancel s)"
| exit: "ml_status s = Running \<Longrightarrow> cn_queue (ml_exit s) \<noteq> [] \<Longrightarrow> main_step ops s (on_exit s)"
| drain: "ml_status s = Running \<Longrightarrow> cn_queue (ml_drain s) \<noteq> [] \<Longrightarrow> main_step ops s (on_drain s)"
| timeout: "ml_status s \<noteq> Stopped \<Longrightarrow> ml_timers s = Suc n \<Longrightarrow> channel_send () (ml_exit s) = Some e
    \<Longrightarrow> main_step ops s (s\<lparr>ml_exit := e, ml_timers := n\<rparr>)"
| announce: "ml_status s \<noteq> Stopped \<Longrightarrow> i < length (ml_tasks s) \<Longrightarrow> ct_phase (ml_tasks s ! i) = Starting
    \<Longrightarrow> \<not> ct_admin_only (ml_tasks s ! i) \<or> ct_cancel (ml_tasks s ! i) \<Longrightarrow> channel_send 1 (ml_drain s) = Some d
    \<Longrightarrow> main_step ops s (set_phase i Serving (s\<lparr>ml_drain := d\<rparr>))"
| uncounted: "ml_status s \<noteq> Stopped \<Longrightarrow> i < length (ml_tasks s) \<Longrightarrow> ct_phase (ml_tasks s ! i) = Starting
    \<Longrightarrow> main_step ops s (set_phase i Finished s)"
| leave: "ml_status s \<noteq> Stopped \<Longrightarrow> i < length (ml_tasks s) \<Longrightarrow> ct_phase (ml_tasks s ! i) = Serving
    \<Longrightarrow> channel_send (- 1) (ml_drain s) = Some d \<Longrightarrow> main_step ops s (set_phase i Finished (s\<lparr>ml_drain := d\<rparr>))"
| panic: "ml_status s \<noteq> Stopped \<Longrightarrow> i < length (ml_tasks s) \<Longrightarrow> ct_phase (ml_tasks s ! i) = Serving
    \<Longrightarrow> main_step ops s (set_phase i Panicked s)"

section \<open>The invariant of the loop\<close>

inductive_cases main_stepE: "main_step ops s t"

definition announced :: "client_task \<Rightarrow> bool" where
  "announced t \<longleftrightarrow> ct_phase t \<in> {Serving, Panicked}"

definition served_count :: "client_task list \<Rightarrow> nat" where
  "served_count ts = length (filter announced ts)"

lemma served_simps [simp]:
  "served_count [] = 0" "served_count (t # ts) = (if announced t then 1 else 0) + served_count ts" "served_count (ts @ us) = served_count ts + served_count us"
  "served_count (map (ct_told_update f) ts) = served_count ts"
  proof -
  have "announced (ct_told_update f t) = announced t" for t by (simp add: announced_def)
  then show "served_count (map (ct_told_update f) ts) = served_count ts" by (simp add: served_count_def filter_map comp_def)
qed (simp_all add: served_count_def)

lemma served_update:
  "i < length ts \<Longrightarrow> served_count (ts[i := t]) + (if announced (ts ! i) then 1 else 0) = served_count ts + (if announced t then 1 else 0)"
proof (induction ts arbitrary: i)
  case (Cons u ts)
  then show ?case by (cases i) auto
qed simp

text \<open>The messages on their way and the count together are the clients that are served, or were when they panicked.\<close>

definition accounts :: "('d, 'p) main_loop \<Rightarrow> bool" where
  "accounts s \<longleftrightarrow> ml_total_clients s + sum_list (cn_queue (ml_drain s)) = of_nat (served_count (ml_tasks s))"

text \<open>After the interrupt, whoever is served has been told to leave, or only sends a cancel request.\<close>

definition told_to_leave :: "('d, 'p) main_loop \<Rightarrow> bool" where
  "told_to_leave s \<longleftrightarrow> (ml_admin_only s \<longrightarrow> list_all (\<lambda>t. ct_cancel t \<or> ct_told t \<or> ct_admin_only t \<and> \<not> announced t) (ml_tasks s))"

text \<open>The channels keep to their bounds, and nothing asks the loop to stop before the interrupt.\<close>

definition channels_ok :: "('d, 'p) main_loop \<Rightarrow> bool" where
  "channels_ok s \<longleftrightarrow> channel_ok (ml_drain s) \<and> channel_ok (ml_exit s) \<and> cn_bound (ml_drain s) = 2048 \<and> cn_bound (ml_exit s) = 1
     \<and> (ml_timers s \<noteq> 0 \<or> cn_queue (ml_exit s) \<noteq> [] \<longrightarrow> ml_admin_only s)"

text \<open>A loop that has nothing to do after the interrupt still waits for clients.\<close>

definition awaits_clients :: "('d, 'p) main_loop \<Rightarrow> bool" where
  "awaits_clients s \<longleftrightarrow>
     (ml_status s = Running \<and> ml_admin_only s \<and> cn_queue (ml_exit s) = [] \<and> cn_queue (ml_drain s) = [] \<longrightarrow> ml_total_clients s \<noteq> 0)"

definition main_inv :: "('d, 'p) main_loop \<Rightarrow> bool" where
  "main_inv s \<longleftrightarrow> accounts s \<and> told_to_leave s \<and> channels_ok s \<and> awaits_clients s"

lemmas main_inv_defs = accounts_def told_to_leave_def channels_ok_def awaits_clients_def

lemma channel_send_Some:
  "channel_send m ch = Some ch' \<longleftrightarrow> ch' = ch\<lparr>cn_queue := cn_queue ch @ [m]\<rparr> \<and> length (cn_queue ch) < cn_bound ch"
  by (auto simp: channel_send_def channel_capacity_def)

lemma main_inv_new: "main_inv (main_loop_new p)"
  by (simp add: main_inv_def main_inv_defs main_loop_new_def channel_new_def channel_ok_def)

lemma on_hangup_inv: "main_inv s \<Longrightarrow> main_inv (on_hangup env ops s)"
  by (auto simp: main_inv_def main_inv_defs on_hangup_def split: prod.split outcome.split)

lemma on_interrupt_inv: "main_inv s \<Longrightarrow> main_inv (on_interrupt s)"
  by (auto simp: main_inv_def main_inv_defs on_interrupt_def Let_def channel_send_Some channel_ok_def list_all_iff split: option.split)

lemma on_accept_inv: "main_inv s \<Longrightarrow> main_inv (on_accept cancel s)"
  by (auto simp: main_inv_def main_inv_defs on_accept_def announced_def)

lemma on_drain_inv: 
  assumes "main_inv s"
  shows "main_inv (on_drain s)"
proof (cases "cn_queue (ml_drain s)")
  case Nil
  with assms show ?thesis by (simp add: on_drain_def)
next
  case (Cons ping rest)
  have "ml_total_clients (on_drain s) = ml_total_clients s + ping" "cn_queue (ml_drain (on_drain s)) = rest"
    "ml_tasks (on_drain s) = ml_tasks s"
    using Cons by (simp_all add: on_drain_def Let_def channel_send_def)
  then have "accounts (on_drain s)"
    using assms Cons by (simp add: main_inv_def accounts_def add.assoc)
  moreover have "told_to_leave (on_drain s)"
    using assms Cons by (simp add: main_inv_def told_to_leave_def on_drain_def Let_def channel_send_def)
  moreover have "channels_ok (on_drain s)"
    using assms Cons by (auto simp: main_inv_def channels_ok_def on_drain_def Let_def channel_send_def channel_ok_def channel_capacity_def not_le)
  moreover have "awaits_clients (on_drain s)"
    using Cons by (auto simp: awaits_clients_def on_drain_def Let_def channel_send_def)
  ultimately show ?thesis by (simp add: main_inv_def)
qed

lemma on_stop_inv: "main_inv s \<Longrightarrow> main_inv (on_term s)" "main_inv s \<Longrightarrow> main_inv (on_exit s)"
  by (auto simp: main_inv_def main_inv_defs on_term_def on_exit_def channel_ok_def dest: list.set_sel(2))

text \<open>A task that changes its phase tells the loop so when it becomes or stops being counted.\<close>

definition phase_message :: "client_task \<Rightarrow> client_phase \<Rightarrow> i32 list" where
  "phase_message t phase =
     (if announced t = (phase \<in> {Serving, Panicked}) then [] else if announced t then [- 1] else [1])"

lemma set_phase_inv:
  assumes inv: "main_inv s" and i: "i < length (ml_tasks s)"
    and d: "d = (ml_drain s)\<lparr>cn_queue := cn_queue (ml_drain s) @ phase_message (ml_tasks s ! i) phase\<rparr>" "channel_ok d"
    and admitted: "phase \<in> {Serving, Panicked} \<Longrightarrow> announced (ml_tasks s ! i) \<or> \<not> ct_admin_only (ml_tasks s ! i) \<or> ct_cancel (ml_tasks s ! i)"
  shows "main_inv (set_phase i phase (s\<lparr>ml_drain := d\<rparr>))"
proof -
  let ?t = "(ml_tasks s ! i)\<lparr>ct_phase := phase\<rparr>"
  have a: "announced ?t \<longleftrightarrow> phase \<in> {Serving, Panicked}" by (simp add: announced_def)
  from served_update [OF i, of ?t] have "of_nat (served_count ((ml_tasks s)[i := ?t]) + (if announced (ml_tasks s ! i) then 1 else 0))
      = (of_nat (served_count (ml_tasks s) + (if announced ?t then 1 else 0)) :: i32)" by simp
  then have c: "of_nat (served_count ((ml_tasks s)[i := ?t])) = (of_nat (served_count (ml_tasks s)) + sum_list (phase_message (ml_tasks s ! i) phase) :: i32)"
    unfolding phase_message_def a [symmetric] by (simp add: algebra_simps split: if_splits)
  have "accounts (set_phase i phase (s\<lparr>ml_drain := d\<rparr>))"
    using inv c d(1) by (simp add: main_inv_def accounts_def set_phase_def add.assoc [symmetric])
  moreover have "told_to_leave (set_phase i phase (s\<lparr>ml_drain := d\<rparr>))"
  proof -
    have "list_all P (xs[i := x])" if "list_all P xs" "P x" for P and xs :: "client_task list" and x
      using that by (auto simp: list_all_iff dest!: set_update_subset_insert [THEN subsetD])
    moreover have "list_all P xs \<Longrightarrow> i < length xs \<Longrightarrow> P (xs ! i)" for P and xs :: "client_task list" by (simp add: list_all_iff)
    ultimately show ?thesis using inv i a admitted unfolding main_inv_def told_to_leave_def set_phase_def by fastforce
  qed
  moreover have "channels_ok (set_phase i phase (s\<lparr>ml_drain := d\<rparr>))"
    using inv d by (simp add: main_inv_def channels_ok_def set_phase_def)
  moreover have "awaits_clients (set_phase i phase (s\<lparr>ml_drain := d\<rparr>))"
    using inv d by (simp add: main_inv_def awaits_clients_def set_phase_def)
  ultimately show ?thesis by (simp add: main_inv_def)
qed


lemma main_step_inv:
  assumes "main_step ops s t" "main_inv s"
  shows "main_inv t"
  using assms
proof (cases rule: main_step.cases)
  case (timeout n e)
  with assms(2) show ?thesis
    by (auto simp: main_inv_def main_inv_defs channel_send_Some channel_ok_def)
next
  case (announce i d)
  with set_phase_inv [OF assms(2), of i d Serving] assms(2) show ?thesis
    by (auto simp: phase_message_def announced_def channel_send_Some channel_ok_def)
next
  case (uncounted i)
  with set_phase_inv [OF assms(2), of i "ml_drain s" Finished] assms(2) show ?thesis
    by (auto simp: phase_message_def announced_def main_inv_def channels_ok_def)
next
  case (leave i d)
  with set_phase_inv [OF assms(2), of i d Finished] assms(2) show ?thesis
    by (auto simp: phase_message_def announced_def channel_send_Some channel_ok_def)
next
  case (panic i)
  with set_phase_inv [OF assms(2), of i "ml_drain s" Panicked] assms(2) show ?thesis
    by (auto simp: phase_message_def announced_def main_inv_def channels_ok_def)
qed (simp_all add: on_hangup_inv on_interrupt_inv on_accept_inv on_drain_inv on_stop_inv)

definition reachable :: "(u64, parse_msg, 'p) lru_ops \<Rightarrow> ('d, 'p) process \<Rightarrow> ('d, 'p) main_loop \<Rightarrow> bool" where
  "reachable ops process s \<longleftrightarrow> (main_step ops)\<^sup>*\<^sup>* (main_loop_new process) s"

lemma reachable_inv: "reachable ops process s \<Longrightarrow> main_inv s"
  unfolding reachable_def by (induction rule: rtranclp_induct) (auto simp: main_inv_new dest: main_step_inv)


lemma reachable_step: "reachable ops process s \<Longrightarrow> main_step ops s t \<Longrightarrow> reachable ops process t"
  unfolding reachable_def by (rule rtranclp.rtrancl_into_rtrancl)

text \<open>A loop that waits for itself waits for ever.\<close>

lemma blocked_stays: "(main_step ops)\<^sup>*\<^sup>* s t \<Longrightarrow> ml_status s = Blocked \<Longrightarrow> ml_status t = Blocked"
proof (induction rule: rtranclp_induct)
  case (step t u)
  from step.hyps(2) step.IH [OF step.prems] show ?case by (cases rule: main_step.cases) (simp_all add: set_phase_def)
qed

text \<open>The loop when the exit message is taken as soon as there is one.\<close>

lemma on_drain_shorter: "cn_queue (ml_drain s) \<noteq> [] \<Longrightarrow> length (cn_queue (ml_drain (on_drain s))) < length (cn_queue (ml_drain s))"
  by (cases "cn_queue (ml_drain s)") (simp_all add: on_drain_def Let_def channel_send_def)

function settle :: "('d, 'p) main_loop \<Rightarrow> ('d, 'p) main_loop" where
  "settle s =
     (if cn_queue (ml_exit s) \<noteq> [] then on_exit s
      else if cn_queue (ml_drain s) = [] then s
      else settle (on_drain s))"
  by pat_completeness auto
termination
  by (relation "measure (\<lambda>s. length (cn_queue (ml_drain s)))") (auto intro: on_drain_shorter [simplified])

declare settle.simps [simp del]

lemma on_drain_keeps:
  "ml_tasks (on_drain s) = ml_tasks s" "ml_admin_only (on_drain s) = ml_admin_only s"
  "main_inv s \<Longrightarrow> cn_queue (ml_exit s) = [] \<Longrightarrow> ml_status (on_drain s) = ml_status s"
  by (auto simp: on_drain_def Let_def channel_send_def main_inv_def channels_ok_def channel_capacity_def split: list.split)

lemma settle_stops:
  assumes "main_inv s" "ml_status s = Running" "ml_admin_only s" "served_count (ml_tasks s) = 0"
  shows "ml_status (settle s) = Stopped \<and> (main_step ops)\<^sup>*\<^sup>* s (settle s)"
  using assms
proof (induction s rule: settle.induct)
  case (1 s)
  consider (exit) "cn_queue (ml_exit s) \<noteq> []" | (idle) "cn_queue (ml_exit s) = []" "cn_queue (ml_drain s) = []"
    | (drain) "cn_queue (ml_exit s) = []" "cn_queue (ml_drain s) \<noteq> []" by blast
  then show ?case
  proof cases
    case exit
    with "1.prems"(2) show ?thesis
      by (subst (1 2) settle.simps) (auto simp: on_exit_def intro!: r_into_rtranclp main_step.exit [unfolded on_exit_def])
  next
    case idle
    with "1.prems" show ?thesis by (auto simp: main_inv_def accounts_def awaits_clients_def)
  next
    case drain
    from "1.prems" drain have "ml_status (settle (on_drain s)) = Stopped \<and> (main_step ops)\<^sup>*\<^sup>* (on_drain s) (settle (on_drain s))"
      by (intro "1.IH") (simp_all add: on_drain_inv on_drain_keeps)
    moreover have "main_step ops s (on_drain s)" using "1.prems"(2) drain(2) by (rule main_step.drain)
    ultimately show ?thesis using drain by (subst (1 2) settle.simps) (auto intro: converse_rtranclp_into_rtranclp)
  qed
qed


section \<open>The messages of a client\<close>

text \<open>
  The rules \<open>announce\<close>, \<open>uncounted\<close>, \<open>leave\<close> and \<open>panic\<close> are what \<open>client_entrypoint\<close> does: it sends nothing, or one message
  when the session starts and one when it ends, which a panic leaves out.
\<close>

definition task_messages :: "(('d, 'c, 'p) entry, 'a) act \<Rightarrow> bool" where
  "task_messages m \<longleftrightarrow> (\<forall>s r s'. m s = (r, s') \<longrightarrow>
     en_drain s' = en_drain s \<or> en_drain s' = en_drain s @ (if r = Panic then [1] else [1, - 1]))"

lemma task_messages_quiet: "(\<And>d. keeps (\<lambda>s. en_drain s = d) m) \<Longrightarrow> task_messages m"
  unfolding task_messages_def by (metis keeps_all)

lemma task_messages_bind:
  assumes m: "\<And>d. keeps (\<lambda>s. en_drain s = d) m" and f: "\<And>x. task_messages (f x)"
  shows "task_messages (act_bind m f)"
  unfolding task_messages_def
proof (intro allI impI)
  fix s r s' assume run: "act_bind m f s = (r, s')"
  obtain r1 s1 where 1: "m s = (r1, s1)" by force
  then have d: "en_drain s1 = en_drain s" by (rule keeps_all [OF m])
  show "en_drain s' = en_drain s \<or> en_drain s' = en_drain s @ (if r = Panic then [1] else [1, - 1])"
  proof (cases r1)
    case (Ok x)
    with run 1 have "f x s1 = (r, s')" by (simp add: act_bind_def)
    with f d show ?thesis unfolding task_messages_def by metis
  qed (use run 1 d in \<open>auto simp: act_bind_def\<close>)
qed

lemma task_messages_run_client: "task_messages (run_client env ops client)"
  by (auto simp: task_messages_def run_client_def Let_def session_end_def split: prod.splits outcome.splits)

lemma keeps_entry: "keeps (\<lambda>s. en_drain s = d) (on_en_stream m)" "keeps (\<lambda>s. en_drain s = d) (on_login l)" "keeps (\<lambda>s. en_drain s = d) (act_get g)"
  by (auto simp: keeps_def on_en_stream_def on_login_def act_zoom_def act_get_def split: prod.split)

lemma client_task_messages: "task_messages (client_entrypoint env ops login tls admin_only)"
proof -
  have lift: "task_messages (act_lift r)" for r by (simp add: task_messages_def act_lift_def)
  have plain: "task_messages (act_bind (on_login l) (run_client env ops))" for l
    by (intro task_messages_bind keeps_entry task_messages_run_client)
  show ?thesis
    unfolding client_entrypoint_def Let_def
    by (intro task_messages_bind keeps_entry)
       (auto simp: plain lift split: prod.split client_connection_type.split option.split
         intro!: task_messages_bind keeps_entry task_messages_run_client)
qed

section \<open>Properties\<close>

text \<open>
  C9: the clients are counted correctly in every interleaving of the main loop with the tasks of the clients.
  The count and the messages on their way add up to the clients that are served, together with those
  whose task panicked, which are never counted off.  After the interrupt, whoever is served was accepted before and has
  been told to leave, or only sends a cancel request; and nothing asks the loop to stop before the interrupt.
\<close>

theorem main_loop_accounts:
  assumes "reachable ops process s"
  shows "ml_total_clients s + sum_list (cn_queue (ml_drain s))
      = of_nat (length (filter (\<lambda>t. ct_phase t = Serving) (ml_tasks s)) + length (filter (\<lambda>t. ct_phase t = Panicked) (ml_tasks s)))
    \<and> (ml_admin_only s \<longrightarrow> list_all (\<lambda>t. ct_phase t = Serving \<longrightarrow> ct_told t \<or> ct_cancel t) (ml_tasks s))
    \<and> (cn_queue (ml_exit s) \<noteq> [] \<or> ml_timers s \<noteq> 0 \<longrightarrow> ml_admin_only s)"
proof -
  have "served_count ts = length (filter (\<lambda>t. ct_phase t = Serving) ts) + length (filter (\<lambda>t. ct_phase t = Panicked) ts)" for ts
    by (induction ts) (auto simp: announced_def)
  with reachable_inv [OF assms] show ?thesis
    by (auto simp: main_inv_def main_inv_defs list_all_iff announced_def)
qed

text \<open>
  C10: a graceful shutdown completes.  When the process has been interrupted and the tasks of all clients have ended, the
  loop comes to its end, provided that it takes the exit message as soon as there is one: the
  messages that are still on their way bring the count to zero.
\<close>

theorem shutdown_completes:
  assumes "reachable ops process s" "ml_status s = Running" "ml_admin_only s"
    and "list_all (\<lambda>t. ct_phase t = Finished) (ml_tasks s)"
  shows "ml_status (settle s) = Stopped \<and> (main_step ops)\<^sup>*\<^sup>* s (settle s)"
proof -
  have "served_count (ml_tasks s) = 0"
    using assms(4) by (simp add: served_count_def list_all_iff announced_def filter_empty_conv)
  then show ?thesis using settle_stops [OF reachable_inv [OF assms(1)] assms(2,3)] by blast
qed

text \<open>
  A client connects, is served and leaves; before the loop has counted it off, the interrupt arrives, so that
  two messages are on their way when the count reaches zero.
\<close>

definition example_loop :: "('d, 'p) process \<Rightarrow> client_phase \<Rightarrow> i32 list \<Rightarrow> i32 \<Rightarrow> bool \<Rightarrow> unit list \<Rightarrow> loop_status \<Rightarrow> ('d, 'p) main_loop" where
  "example_loop process phase drain n interrupted ex status =
     \<lparr> ml_process = process, ml_tasks = [\<lparr> ct_admin_only = False, ct_cancel = False, ct_told = interrupted, ct_phase = phase \<rparr>],
       ml_drain = \<lparr> cn_queue = drain, cn_bound = 2048, cn_closed = False \<rparr>, ml_exit = \<lparr> cn_queue = ex, cn_bound = 1, cn_closed = False \<rparr>,
       ml_timers = (if interrupted then 1 else 0), ml_admin_only = interrupted, ml_total_clients = n, ml_status = status \<rparr>"

lemma example_loop_steps:
  "main_step ops (main_loop_new p) (example_loop p Starting [] 0 False [] Running)"
  "main_step ops (example_loop p Starting [] 0 False [] Running) (example_loop p Serving [1] 0 False [] Running)"
  "main_step ops (example_loop p Serving [1] 0 False [] Running) (example_loop p Serving [] 1 False [] Running)"
  "main_step ops (example_loop p Serving [] 1 False [] Running) (example_loop p Finished [- 1] 1 False [] Running)"
  "main_step ops (example_loop p Finished [- 1] 1 False [] Running) (example_loop p Finished [- 1, 0] 1 True [] Running)"
  "main_step ops (example_loop p Finished [- 1, 0] 1 True [] Running) (example_loop p Finished [0] 0 True [()] Running)"
  "main_step ops (example_loop p Finished [0] 0 True [()] Running) (example_loop p Finished [] 0 True [()] Blocked)"
proof -
  note defs = example_loop_def main_loop_new_def channel_new_def channel_send_def channel_capacity_def
  show "main_step ops (main_loop_new p) (example_loop p Starting [] 0 False [] Running)"
    using main_step.accept [of "main_loop_new p" ops False] by (simp add: defs on_accept_def)
  show "main_step ops (example_loop p Starting [] 0 False [] Running) (example_loop p Serving [1] 0 False [] Running)"
    using main_step.announce [of "example_loop p Starting [] 0 False [] Running" 0] by (simp add: defs set_phase_def)
  show "main_step ops (example_loop p Serving [1] 0 False [] Running) (example_loop p Serving [] 1 False [] Running)"
    using main_step.drain [of "example_loop p Serving [1] 0 False [] Running"] by (simp add: defs on_drain_def)
  show "main_step ops (example_loop p Serving [] 1 False [] Running) (example_loop p Finished [- 1] 1 False [] Running)"
    using main_step.leave [of "example_loop p Serving [] 1 False [] Running" 0] by (simp add: defs set_phase_def)
  show "main_step ops (example_loop p Finished [- 1] 1 False [] Running) (example_loop p Finished [- 1, 0] 1 True [] Running)"
    using main_step.interrupt [of "example_loop p Finished [- 1] 1 False [] Running"] by (simp add: defs on_interrupt_def)
  show "main_step ops (example_loop p Finished [- 1, 0] 1 True [] Running) (example_loop p Finished [0] 0 True [()] Running)"
    using main_step.drain [of "example_loop p Finished [- 1, 0] 1 True [] Running"] by (simp add: defs on_drain_def)
  show "main_step ops (example_loop p Finished [0] 0 True [()] Running) (example_loop p Finished [] 0 True [()] Blocked)"
    using main_step.drain [of "example_loop p Finished [0] 0 True [()] Running"] by (simp add: defs on_drain_def)
qed

lemma example_loop_reachable:
  "reachable ops p (example_loop p Finished [- 1, 0] 1 True [] Running)" "reachable ops p (example_loop p Finished [] 0 True [()] Blocked)"
proof -
  have "reachable ops p (main_loop_new p)" by (simp add: reachable_def)
  from this [THEN reachable_step, OF example_loop_steps(1), THEN reachable_step, OF example_loop_steps(2), THEN reachable_step, OF example_loop_steps(3),
      THEN reachable_step, OF example_loop_steps(4), THEN reachable_step, OF example_loop_steps(5)]
  show "reachable ops p (example_loop p Finished [- 1, 0] 1 True [] Running)" .
  from this [THEN reachable_step, OF example_loop_steps(6), THEN reachable_step, OF example_loop_steps(7)]
  show "reachable ops p (example_loop p Finished [] 0 True [()] Blocked)" .
qed

text \<open>
  C11: a graceful shutdown can hang.  A state is reachable in which all clients have left and the loop waits
  for room in its own exit channel; it never leaves that state, so that neither the time limit of the
  shutdown nor SIGTERM ends the process.
\<close>

theorem shutdown_can_hang:
  "\<exists>s. reachable ops process s \<and> list_all (\<lambda>t. ct_phase t = Finished) (ml_tasks s) \<and> ml_status s = Blocked
    \<and> (\<forall>t. (main_step ops)\<^sup>*\<^sup>* s t \<longrightarrow> ml_status t = Blocked)"
  using example_loop_reachable(2) [of ops process] blocked_stays [of ops "example_loop process Finished [] 0 True [()] Blocked"]
  by (intro exI [of _ "example_loop process Finished [] 0 True [()] Blocked"]) (simp add: example_loop_def)

theorem main_loop_accounts_witness:
  "\<forall>(ops :: (u64, parse_msg, 'p) lru_ops) (process :: ('d, 'p) process). reachable ops process (example_loop process Finished [- 1, 0] 1 True [] Running)
     \<and> (1 :: i32) + sum_list [- 1, 0] = of_nat (0 + 0)"
proof (intro allI)
  fix ops :: "(u64, parse_msg, 'p) lru_ops" and process :: "('d, 'p) process"
  show "reachable ops process (example_loop process Finished [- 1, 0] 1 True [] Running) \<and> (1 :: i32) + sum_list [- 1, 0] = of_nat (0 + 0)"
    using main_loop_accounts [OF example_loop_reachable(1) [of ops process]] example_loop_reachable(1) [of ops process]
    by (simp add: example_loop_def)
qed

theorem shutdown_completes_witness:
  "\<forall>ops process. ml_status (settle (example_loop process Finished [- 1, 0] 1 True [] Running)) = Stopped
     \<and> (main_step ops)\<^sup>*\<^sup>* (example_loop process Finished [- 1, 0] 1 True [] Running) (settle (example_loop process Finished [- 1, 0] 1 True [] Running))"
  by (intro allI shutdown_completes [OF example_loop_reachable(1)]) (simp_all add: example_loop_def)

theorem shutdown_can_hang_witness:
  "\<forall>ops process. \<exists>s. reachable ops process s \<and> ml_status s = Blocked"
  using shutdown_can_hang by blast

end
