(* ===== verification/Spec2Isabelle.thy ===== *)
theory Spec2Isabelle
  imports Main_Loop
begin

text \<open>
  A verification library for \<open>pgcat\<close>, a connection pooler and sharding proxy for PostgreSQL.

  \<^bold>\<open>The program.\<close>  A client connects to the pooler as if it were a server.  \<open>client_entrypoint\<close>
  (\<open>src/src/client.rs\<close>) reads its first message, authenticates it and runs its session.  The session
  loop reads a message, lets the query router (\<open>query_router.rs\<close>, \<open>plugins\<close>) decide which role and which
  shard (\<open>sharding.rs\<close>) it is for, takes a connection (\<open>server.rs\<close>) from the pool of the client's database
  and user (\<open>pool.rs\<close>), and relays messages (\<open>messages.rs\<close>) in both directions until the transaction is over;
  then the connection is cleaned up and goes back to the pool.  Pools are built from the configuration
  (\<open>config.rs\<close>), ban replicas that fail, and share a cache of prepared statements.  \<open>main.rs\<close> accepts clients,
  counts them and shuts the process down.  The administration
  database (\<open>admin.rs\<close>) shows and changes the state of the process; \<open>stats.rs\<close> and \<open>stats\<close> count what
  happens; \<open>auth_passthrough.rs\<close> and \<open>scram.rs\<close> authenticate users and the pooler itself;
  \<open>dns_cache.rs\<close> and \<open>mirrors.rs\<close> serve the connections.

  \<^bold>\<open>Conventions.\<close>  A Rust function that can fail returns an \<open>outcome\<close>: \<open>Ok\<close>, \<open>Err\<close>, or \<open>Panic\<close> for
  \<open>unwrap\<close>, slices out of range and arithmetic that stops the task.  Code with effects is an \<open>act\<close>, a function
  from a state to a result and a state; the state is kept when the code fails, because what was written
  to a socket before an error stays written.  \<open>act_zoom\<close> runs code on a part of the state.  Integers are
  words of their width.  A socket is a \<open>stream\<close>: the input that is still to come, the output written so
  far, and the point at which writing fails.  Bytes are characters; a \<open>String\<close> is its UTF-8 text.  What other
  tasks and the outside world do is an argument, read at the points where the code looks at it:
  clocks, random numbers, time limits, the shutdown signal, the network, TLS, cryptographic functions,
  the SQL parser, regular expressions, the pools of the \<open>bb8\<close> package and the order of hash maps.

  \<^bold>\<open>Theories.\<close>
  \<^item> \<open>Pgcat_Prelude\<close>, \<open>Errors\<close>, \<open>Wire\<close>: outcomes, numbers as text, \<open>errors.rs\<close>; byte buffers, streams and acts.
    The locales \<open>wire_codec\<close> and \<open>wire_bijection\<close> are the contract of a pair of reader and writer; they are
    interpreted for the integers and strings of the protocol.  \<open>keeps P m\<close> says that \<open>m\<close> keeps \<open>P\<close> on every
    path, errors and panics included; \<open>keeps_intro\<close> collects its rules.
  \<^item> \<open>Sharding\<close>: \<open>sharding.rs\<close>.  Results are below the number of shards; the contract \<open>key_sharding\<close> is met by
    the hash of PostgreSQL.
  \<^item> \<open>Messages\<close>, \<open>Extended_Protocol\<close>: \<open>messages.rs\<close>.  Every builder makes one framed message
    (\<open>framed_message\<close>), \<open>read_message\<close> takes exactly one from its input, and Parse, Bind, Describe and Close
    survive encoding and decoding (\<open>message_codec\<close>).
  \<^item> \<open>Config\<close>, \<open>Pool_Settings\<close>: \<open>config.rs\<close>.  Validation accepts exactly the configurations that meet the listed
    conditions, and a rejected file leaves the configuration in use alone.
  \<^item> \<open>Query_Router\<close>, \<open>Routing\<close>: \<open>query_router.rs\<close>, \<open>plugins\<close>.  The role that is inferred from statements is specified on
    every branch, inferred shards exist, custom commands do what they say, and the plugins let no denied table through.
  \<^item> \<open>Stats\<close>, \<open>Dns_Cache\<close>, \<open>Mirrors\<close>, \<open>Scram\<close>, \<open>Server_Parameters\<close>, \<open>Statement_Cache\<close>: the files of these names and
    the parts of \<open>server.rs\<close> and \<open>pool.rs\<close> they model.  \<open>Scram\<close> refines RFC 5802; the cache of statements is verified for every
    \<open>LruCache\<close> that meets the locale \<open>lru_cache\<close>, which a list with a capacity does.
  \<^item> \<open>Server\<close>, \<open>Server_Laws\<close>, \<open>Server_Startup\<close>: \<open>server.rs\<close>.  \<open>recv\<close> returns whole messages, queries of the pooler end on
    every complete reply, clean-up rolls back and sends the reset that the session needs, and a server
    that asks for an MD5 password and goes on with its parameters and keys is connected to.
  \<^item> \<open>Pool\<close>, \<open>Pool_Laws\<close>, \<open>Pool_Config\<close>, \<open>Auth_Passthrough\<close>: \<open>pool.rs\<close>, \<open>auth_passthrough.rs\<close>.  \<open>pool_step\<close> is the relation of all
    operations on a pool; its reachable states keep the layout of the pool and ban no primary.  A checkout
    returns a healthy connection to a server of the asked shard and role that is not banned, finds one if
    there is one, and keeps the invariant of the pool.
  \<^item> \<open>Admin\<close>, \<open>Admin_Laws\<close>: \<open>admin.rs\<close>.  Every command answers with whole messages and ends with
    ReadyForQuery; what \<open>PAUSE\<close>, \<open>BAN\<close> and \<open>RELOAD\<close> change.
  \<^item> \<open>Client_Startup\<close>, \<open>Client\<close>, \<open>Client_Laws\<close>: \<open>client.rs\<close>.  The record \<open>client\<close> is the struct \<open>Client\<close>; \<open>login\<close> is the state of
    \<open>Client::startup\<close>; \<open>session\<close> has the local variables of \<open>Client::handle\<close> and what the client shares with
    others; \<open>transaction\<close> adds the connection it holds.  \<open>session_loop\<close> and \<open>transaction_loop\<close> are the two loops of
    \<open>handle\<close>; a step ends with \<open>Continue\<close>, \<open>Break\<close> or \<open>Return\<close>, as in the code.  The laws: who is let in, that queries
    and replies are relayed unchanged and completely, how connections go back, that claims for cancel
    requests are given up, that denied queries are not sent, and that the statements which buffered
    Parse, Bind and Describe messages name have generated names; a Close message keeps the name of the client, and the
    pooler answers it itself if that is the name of a statement (\<open>replay_close\<close>).
  \<^item> \<open>Main_Loop\<close>: \<open>main.rs\<close> and \<open>format_duration\<close> of \<open>lib.rs\<close>.  \<open>main_start\<close> are the steps up to the main loop; \<open>on_hangup\<close>,
    \<open>on_interrupt\<close>, \<open>on_term\<close>, \<open>on_accept\<close>, \<open>on_exit\<close> and \<open>on_drain\<close> are the arms of its \<open>select!\<close>, and the relation \<open>main_step\<close>
    interleaves them with the tasks of the clients, whose messages are those of \<open>client_entrypoint\<close>
    (\<open>client_task_messages\<close>).  In all reachable states the clients are counted correctly; a shutdown
    completes when the exit message is taken first, and can hang when it is not.

  \<^bold>\<open>Termination.\<close>  No definition has fuel.  The loops over a socket end because each round takes a message
  of at least five bytes from an input that is finite; the loops over candidates, statements, addresses and
  buffered messages are structural.  An input that ends is a closed connection, which the code reports
  as an error.  A peer that stays silent, or sends without end, cannot be expressed: that a loop ends says
  nothing about such a peer.  That loops do end in success is stated separately, for servers and clients that
  follow the protocol (the properties of kind liveness).

  \<^bold>\<open>Assumptions.\<close>  A task runs between two points where it looks at shared state without another task
  changing that state; what others did meanwhile is an argument (\<open>xe_world\<close>) at these points.  A client's pool is
  written back to the map of pools it is shared with when the client looks it up again and when its
  session ends.  One round of the collector of statistics runs without a client or server counting in
  between.  The tracked parameters are compared in the order of their list, where the code walks over a
  hash map.  A timeout leaves the input after any number of bytes of a message.

  \<^bold>\<open>Not modelled.\<close>  \<open>prometheus.rs\<close> is an HTTP endpoint that prints statistics; \<open>tls.rs\<close> loads certificates into a
  library; \<open>logger.rs\<close> and \<open>cmd_args.rs\<close> set up the logger and read the command line.  The tasks of \<open>main.rs\<close> for metrics,
  statistics and automatic reload, the task behind a mirror, the reader of TOML files, the log lines, the socket options and the real time behaviour of
  the runtime are left out as well.  The grammar of SQL is the type of syntax trees that the router looks
  at; the parser is an argument.
\<close>

end
